(* ===== verification/Prelude.thy ===== *)
theory Prelude
  imports Main "HOL-Library.Multiset" "HOL-Library.List_Lexorder"
    "HOL-Library.Product_Lexorder" "HOL-Library.Char_ord"
begin

text \<open>
  What every component shares: Python's exceptions as values of a sum type with the two
  combinators that thread them (sequencing and a mapping that stops at the first error), the
  string operations of the Python standard library that the sources use (strip, split, join,
  splitlines, repr, decimal printing and int parsing), and the lemmas about them.

  Conventions. A Python str is a list of characters whose code points are below 256 (the
  sources only handle ASCII identifiers, numbers and SQL); bytes are lists of the same
  characters, so that encode on ASCII text is the identity. A Python int is an int.
\<close>

named_theorems res_simps "rewriting of results: sequencing, mapping and their error cases"
named_theorems str_simps "rewriting of the string operations"

subsection \<open>Exceptions as values\<close>

datatype exn_kind =
    KeyError | ValueError | TypeError | AttributeError | IndexError | RuntimeError
  | FileNotFoundError | OverflowError | QueueEmpty | QueueFull | SystemExit | ZeroDivisionError
  | TimestampUnitError | ChecksumError | UnicodeDecodeError | JSONDecodeError | BadZipFile
  | ArchiveNotFound | HTTPError | URLError | AthenaError | UpstreamUnavailable
  | KafkaException | TargetError | BrokerUnavailable | TopicMissing | PreparationError
  | AssertionError | OtherError

text \<open>An exception: its class and what str() of it prints.\<close>

datatype exn = Exn (exn_kind: exn_kind) (exn_str: string)

type_synonym 'a res = "exn + 'a"

text \<open>The subclasses of ValueError among the classes above.\<close>

fun is_value_error :: "exn_kind \<Rightarrow> bool" where
  "is_value_error ValueError = True"
| "is_value_error TimestampUnitError = True"
| "is_value_error ChecksumError = True"
| "is_value_error UnicodeDecodeError = True"
| "is_value_error JSONDecodeError = True"
| "is_value_error _ = False"

text \<open>Statement sequencing: an exception in the first statement skips the second.\<close>

fun rbind :: "'a res \<Rightarrow> ('a \<Rightarrow> 'b res) \<Rightarrow> 'b res" where
  "rbind (Inl e) f = Inl e"
| "rbind (Inr x) f = f x"

lemma rbind_cong [fundef_cong]:
  "m = m' \<Longrightarrow> (\<And>x. m' = Inr x \<Longrightarrow> f x = g x) \<Longrightarrow> rbind m f = rbind m' g"
  by (cases m') auto

lemma rbind_Inr_iff [res_simps]: "rbind m f = Inr y \<longleftrightarrow> (\<exists>x. m = Inr x \<and> f x = Inr y)"
  by (cases m) auto

lemma rbind_Inl_iff [res_simps]:
  "rbind m f = Inl e \<longleftrightarrow> m = Inl e \<or> (\<exists>x. m = Inr x \<and> f x = Inl e)"
  by (cases m) auto

lemma rbind_assoc: "rbind (rbind m f) g = rbind m (\<lambda>x. rbind (f x) g)"
  by (cases m) auto

lemma rbind_split:
  "P (rbind m f) \<longleftrightarrow> (\<forall>e. m = Inl e \<longrightarrow> P (Inl e)) \<and> (\<forall>x. m = Inr x \<longrightarrow> P (f x))"
  by (cases m) auto

text \<open>A generator drained into a list: the first exception ends the iteration.\<close>

fun rmap :: "('a \<Rightarrow> 'b res) \<Rightarrow> 'a list \<Rightarrow> 'b list res" where
  "rmap f [] = Inr []"
| "rmap f (x # xs) = rbind (f x) (\<lambda>y. rbind (rmap f xs) (\<lambda>ys. Inr (y # ys)))"

lemma rmap_cong [fundef_cong]:
  "xs = ys \<Longrightarrow> (\<And>x. x \<in> set ys \<Longrightarrow> f x = g x) \<Longrightarrow> rmap f xs = rmap g ys"
  by (induction ys arbitrary: xs) auto

lemma rmap_Inr_iff: "rmap f xs = Inr ys \<longleftrightarrow> list_all2 (\<lambda>x y. f x = Inr y) xs ys"
proof (induction xs arbitrary: ys)
  case Nil
  then show ?case by auto
next
  case (Cons x xs)
  then show ?case by (cases ys) (auto simp: res_simps)
qed

lemma list_all2_right: "list_all2 P xs ys \<Longrightarrow> y \<in> set ys \<Longrightarrow> \<exists>x\<in>set xs. P x y"
  by (induction rule: list_all2_induct) auto

lemma rmap_length: "rmap f xs = Inr ys \<Longrightarrow> length ys = length xs"
  by (auto simp: rmap_Inr_iff dest: list_all2_lengthD)

lemma rmap_all_Inr: "(\<And>x. x \<in> set xs \<Longrightarrow> f x = Inr (g x)) \<Longrightarrow> rmap f xs = Inr (map g xs)"
  by (induction xs) auto

lemma rmap_append: "rmap f (xs @ ys) = rbind (rmap f xs) (\<lambda>us. rbind (rmap f ys) (\<lambda>vs. Inr (us @ vs)))"
  by (induction xs) (auto split: rbind_split simp: rbind_assoc)

lemma rmap_Inl_D: "rmap f xs = Inl e \<Longrightarrow> \<exists>x\<in>set xs. f x = Inl e"
  by (induction xs) (auto simp: res_simps)

lemma rmap_set: "rmap f xs = Inr ys \<Longrightarrow> y \<in> set ys \<Longrightarrow> \<exists>x\<in>set xs. f x = Inr y"
proof -
  assume "rmap f xs = Inr ys" and "y \<in> set ys"
  then have "list_all2 (\<lambda>x y. f x = Inr y) xs ys" and "y \<in> set ys"
    by (auto simp: rmap_Inr_iff)
  then show ?thesis by (induction rule: list_all2_induct) auto
qed

text \<open>Counting through a nested loop whose body contributes at most one hit.\<close>

lemma rmap_concat_count:
  assumes "rmap f xs = Inr yss"
    and "\<And>x ys. x \<in> set xs \<Longrightarrow> f x = Inr ys \<Longrightarrow> length (filter P ys) = (if Q x then 1 else 0)"
  shows "length (filter P (concat yss)) = length (filter Q xs)"
  using assms
proof (induction xs arbitrary: yss)
  case (Cons x xs)
  then obtain ys zss where y: "f x = Inr ys" "rmap f xs = Inr zss" "yss = ys # zss"
    by (auto simp: res_simps)
  have "length (filter P ys) = (if Q x then 1 else 0)" by (rule Cons.prems(2)) (simp_all add: y)
  moreover have "length (filter P (concat zss)) = length (filter Q xs)"
    by (rule Cons.IH [OF y(2)]) (rule Cons.prems(2), simp_all)
  ultimately show ?case by (simp add: y(3))
qed simp

lemma rmap_Inr_exists: "(\<exists>ys. rmap f xs = Inr ys) \<longleftrightarrow> (\<forall>x\<in>set xs. \<exists>y. f x = Inr y)"
  by (induction xs) (auto simp: res_simps)

lemma length_filter_eq_count: "length (filter (\<lambda>x. x = a) xs) = count_list xs a"
  by (induction xs) auto

lemma count_list_distinct: "distinct xs \<Longrightarrow> count_list xs a \<le> 1"
  by (induction xs) (auto simp: count_list_0_iff)

lemma distinct_by_count: "(\<And>k. count_list ys k \<le> 1) \<Longrightarrow> distinct ys"
proof (induction ys)
  case (Cons a ys)
  have "count_list ys k \<le> 1" for k
    using Cons.prems [of k] by (simp split: if_splits)
  moreover have "a \<notin> set ys" using Cons.prems [of a] by (simp add: count_list_0_iff)
  ultimately show ?case using Cons.IH by simp
qed simp

lemma distinct_map_by_count:
  "(\<And>k. length (filter (\<lambda>x. h x = k) xs) \<le> 1) \<Longrightarrow> distinct (map h xs)"
  by (rule distinct_by_count) (simp add: length_filter_eq_count [symmetric] filter_map o_def)

lemma length_filter_mono:
  "(\<And>x. x \<in> set xs \<Longrightarrow> P x \<Longrightarrow> Q x) \<Longrightarrow> length (filter P xs) \<le> length (filter Q xs)"
  by (induction xs) (auto simp: le_SucI)

subsection \<open>Splitting and joining\<close>

text \<open>str.split with a one-character separator.\<close>

fun split_on :: "'a \<Rightarrow> 'a list \<Rightarrow> 'a list list" where
  "split_on c [] = [[]]"
| "split_on c (x # xs) =
     (if x = c then [] # split_on c xs
      else (case split_on c xs of [] \<Rightarrow> [[x]] | p # ps \<Rightarrow> (x # p) # ps))"

text \<open>str.join.\<close>

fun join :: "'a list \<Rightarrow> 'a list list \<Rightarrow> 'a list" where
  "join sep [] = []"
| "join sep [x] = x"
| "join sep (x # y # zs) = x @ sep @ join sep (y # zs)"

lemma split_on_not_Nil [simp]: "split_on c xs \<noteq> []"
  by (cases xs) (auto split: list.splits)

lemma join_cons: "ps \<noteq> [] \<Longrightarrow> join sep (p # ps) = p @ sep @ join sep ps"
  by (cases ps) auto

lemma join_split_on [simp]: "join [c] (split_on c xs) = xs"
proof (induction xs)
  case Nil
  then show ?case by simp
next
  case (Cons x xs)
  obtain p ps where p: "split_on c xs = p # ps"
    by (metis neq_Nil_conv split_on_not_Nil)
  with Cons have "join [c] (p # ps) = xs" by simp
  with p show ?case by (cases ps) auto
qed

lemma split_on_no_sep: "c \<notin> set xs \<Longrightarrow> split_on c xs = [xs]"
  by (induction xs) auto

lemma split_on_append_sep: "c \<notin> set xs \<Longrightarrow> split_on c (xs @ c # ys) = xs # split_on c ys"
  by (induction xs) auto

lemma sep_append_eq_iff [str_simps]:
  assumes "c \<notin> set xs" and "c \<notin> set ys"
  shows "xs @ c # us = ys @ c # vs \<longleftrightarrow> xs = ys \<and> us = vs"
proof
  assume eq: "xs @ c # us = ys @ c # vs"
  with assms have "xs # split_on c us = ys # split_on c vs"
    by (metis split_on_append_sep)
  with eq show "xs = ys \<and> us = vs" by auto
qed auto

lemma split_on_join: "ps \<noteq> [] \<Longrightarrow> (\<And>p. p \<in> set ps \<Longrightarrow> c \<notin> set p) \<Longrightarrow> split_on c (join [c] ps) = ps"
proof (induction ps)
  case Nil
  then show ?case by simp
next
  case (Cons p ps)
  then show ?case
    by (cases ps) (auto simp: split_on_no_sep split_on_append_sep)
qed

lemma split_on_pieces: "p \<in> set (split_on c xs) \<Longrightarrow> c \<notin> set p"
proof (induction xs arbitrary: p)
  case (Cons x xs)
  then show ?case by (fastforce split: list.splits if_splits)
qed simp

lemma split_on_subset: "p \<in> set (split_on c xs) \<Longrightarrow> set p \<subseteq> set xs"
proof (induction xs arbitrary: p)
  case (Cons x xs)
  then show ?case by (fastforce split: list.splits if_splits)
qed simp

subsection \<open>Whitespace\<close>

text \<open>The code points below 256 that Python's str.isspace accepts.\<close>

definition is_space :: "char \<Rightarrow> bool" where
  "is_space ch = (let n = (of_char ch :: nat) in
     (9 \<le> n \<and> n \<le> 13) \<or> (28 \<le> n \<and> n \<le> 32) \<or> n = 133 \<or> n = 160)"

definition rstrip :: "(char \<Rightarrow> bool) \<Rightarrow> string \<Rightarrow> string" where
  "rstrip P s = rev (dropWhile P (rev s))"

definition strip :: "string \<Rightarrow> string" where
  "strip s = rstrip is_space (dropWhile is_space s)"

text \<open>str.split() without arguments: maximal runs of non-whitespace.\<close>

function words :: "string \<Rightarrow> string list" where
  "words s = (let t = dropWhile is_space s in
     if t = [] then []
     else takeWhile (\<lambda>ch. \<not> is_space ch) t # words (dropWhile (\<lambda>ch. \<not> is_space ch) t))"
  by pat_completeness auto
termination
proof (relation "measure length", simp, goal_cases)
  case (1 s t)
  then have ne: "t \<noteq> []" and t: "t = dropWhile is_space s" by auto
  then have "\<not> is_space (hd t)" by (metis hd_dropWhile)
  with ne have "length (dropWhile (\<lambda>ch. \<not> is_space ch) t) < length t"
    by (cases t) (auto simp: le_imp_less_Suc length_dropWhile_le)
  also have "length t \<le> length s" by (simp add: t length_dropWhile_le)
  finally show ?case by simp
qed

declare words.simps [simp del]

lemma strip_Nil [simp]: "strip [] = []"
  by (simp add: strip_def rstrip_def)

lemma strip_id: "s = [] \<or> (\<not> is_space (hd s) \<and> \<not> is_space (last s)) \<Longrightarrow> strip s = s"
proof (cases "s = []")
  case False
  assume "s = [] \<or> (\<not> is_space (hd s) \<and> \<not> is_space (last s))"
  with False have h: "\<not> is_space (hd s)" and l: "\<not> is_space (last s)" by auto
  from False h have "dropWhile is_space s = s" by (cases s) auto
  moreover from False l have "dropWhile is_space (rev s) = rev s"
    by (metis dropWhile_eq_self_iff last_rev rev_rev_ident)
  ultimately show ?thesis by (simp add: strip_def rstrip_def)
qed simp

lemma strip_no_space: "(\<And>ch. ch \<in> set s \<Longrightarrow> \<not> is_space ch) \<Longrightarrow> strip s = s"
  by (rule strip_id) (cases "s = []", auto)

lemma words_no_space: "s \<noteq> [] \<Longrightarrow> (\<And>ch. ch \<in> set s \<Longrightarrow> \<not> is_space ch) \<Longrightarrow> words s = [s]"
proof -
  assume ne: "s \<noteq> []" and ns: "\<And>ch. ch \<in> set s \<Longrightarrow> \<not> is_space ch"
  then have "dropWhile is_space s = s" by (cases s) auto
  moreover have "takeWhile (\<lambda>ch. \<not> is_space ch) s = s" and "dropWhile (\<lambda>ch. \<not> is_space ch) s = []"
    using ns by auto
  moreover have "words [] = []" by (subst words.simps) simp
  ultimately show ?thesis using ne by (subst words.simps) (simp del: dropWhile_eq_Nil_conv)
qed

subsection \<open>Decimal numerals\<close>

definition digit_chr :: "nat \<Rightarrow> char" where
  "digit_chr d = char_of (48 + d)"

text \<open>str(n) for a natural number, and str(i) for an int.\<close>

fun nat_str :: "nat \<Rightarrow> string" where
  "nat_str n = (if n < 10 then [digit_chr n] else nat_str (n div 10) @ [digit_chr (n mod 10)])"

declare nat_str.simps [simp del]

definition int_str :: "int \<Rightarrow> string" where
  "int_str i = (if i < 0 then CHR ''-'' # nat_str (nat (- i)) else nat_str (nat i))"

text \<open>The value of a digit of a base up to 36, in either case.\<close>

definition digit_val :: "nat \<Rightarrow> char \<Rightarrow> nat option" where
  "digit_val base ch = (let n = (of_char ch :: nat);
     d = (if 48 \<le> n \<and> n \<le> 57 then Some (n - 48)
          else if 65 \<le> n \<and> n \<le> 90 then Some (n - 55)
          else if 97 \<le> n \<and> n \<le> 122 then Some (n - 87) else None)
   in (case d of Some v \<Rightarrow> if v < base then Some v else None | None \<Rightarrow> None))"

text \<open>
  The digits of an int literal as int() reads them: at least one digit, single underscores
  allowed between digits. The flag says whether the last character was a digit.
\<close>

fun digits_val :: "nat \<Rightarrow> bool \<Rightarrow> nat \<Rightarrow> string \<Rightarrow> nat option" where
  "digits_val base after_digit acc [] = (if after_digit then Some acc else None)"
| "digits_val base after_digit acc (ch # cs) =
     (if ch = CHR ''_'' then (if after_digit then digits_val base False acc cs else None)
      else (case digit_val base ch of
              None \<Rightarrow> None
            | Some d \<Rightarrow> digits_val base True (acc * base + d) cs))"

text \<open>An optional sign in front of the digits.\<close>

fun signed_val :: "(string \<Rightarrow> nat option) \<Rightarrow> string \<Rightarrow> int option" where
  "signed_val f (ch # cs) =
     (if ch = CHR ''-'' then map_option (\<lambda>n. - int n) (f cs)
      else if ch = CHR ''+'' then map_option int (f cs)
      else map_option int (f (ch # cs)))"
| "signed_val f [] = map_option int (f [])"

text \<open>int(text), None where it raises ValueError.\<close>

definition parse_int :: "string \<Rightarrow> int option" where
  "parse_int s = signed_val (digits_val 10 False 0) (strip s)"

lemma of_char_digit_chr: "d < 10 \<Longrightarrow> (of_char (digit_chr d) :: nat) = 48 + d"
  by (simp add: digit_chr_def)

lemma digit_val_digit_chr [str_simps]: "d < 10 \<Longrightarrow> digit_val 10 (digit_chr d) = Some d"
  by (simp add: digit_val_def of_char_digit_chr)

lemma digit_chr_inj: "d < 10 \<Longrightarrow> of_char ch \<noteq> (48 + d :: nat) \<Longrightarrow> digit_chr d \<noteq> ch"
  using of_char_digit_chr by metis

lemma digit_chr_neq [str_simps]:
  assumes "d < 10"
  shows "digit_chr d \<noteq> CHR ''_''" "digit_chr d \<noteq> CHR ''-''" "digit_chr d \<noteq> CHR ''+''"
    "digit_chr d \<noteq> CHR '',''" "digit_chr d \<noteq> CHR ''/''"
  using assms
  by (auto dest!: arg_cong [where f = "of_char :: char \<Rightarrow> nat"] simp: of_char_digit_chr)

lemma digit_not_space [str_simps]: "d < 10 \<Longrightarrow> \<not> is_space (digit_chr d)"
  by (auto simp: is_space_def of_char_digit_chr)

lemma nat_str_digits: "ch \<in> set (nat_str n) \<Longrightarrow> \<exists>d<10. ch = digit_chr d"
proof (induction n rule: nat_str.induct)
  case (1 n)
  show ?case
  proof (cases "n < 10")
    case True
    with 1 show ?thesis by (auto simp: nat_str.simps [of n])
  next
    case False
    with "1.prems" have "ch \<in> set (nat_str (n div 10)) \<or> ch = digit_chr (n mod 10)"
      by (auto simp: nat_str.simps [of n])
    moreover have "n mod 10 < 10" by simp
    ultimately show ?thesis using "1.IH" [OF False] by blast
  qed
qed

lemma nat_str_not_Nil [simp]: "nat_str n \<noteq> []"
  by (subst nat_str.simps) simp

lemma int_str_not_Nil [simp]: "int_str i \<noteq> []"
  by (simp add: int_str_def)

lemma digits_val_append:
  "cs \<noteq> [] \<Longrightarrow> (\<And>ch. ch \<in> set cs \<Longrightarrow> \<exists>d<10. ch = digit_chr d) \<Longrightarrow> d < 10 \<Longrightarrow>
   digits_val 10 b acc (cs @ [digit_chr d]) =
     map_option (\<lambda>v. v * 10 + d) (digits_val 10 b acc cs)"
proof (induction cs arbitrary: b acc)
  case (Cons ch cs)
  from Cons.prems obtain e where e: "e < 10" "ch = digit_chr e" by auto
  show ?case
  proof (cases "cs = []")
    case True
    with e Cons.prems show ?thesis by (simp add: str_simps)
  next
    case False
    with e Cons show ?thesis by (simp add: str_simps)
  qed
qed simp

lemma digits_val_nat_str: "digits_val 10 False 0 (nat_str n) = Some n"
proof (induction n rule: nat_str.induct)
  case (1 n)
  show ?case
  proof (cases "n < 10")
    case True
    then show ?thesis by (simp add: nat_str.simps [of n] str_simps)
  next
    case False
    with 1 have "digits_val 10 False 0 (nat_str (n div 10)) = Some (n div 10)" by simp
    with False show ?thesis
      by (simp add: nat_str.simps [of n] digits_val_append nat_str_digits)
  qed
qed

lemma nat_str_hd: "\<exists>d cs. d < 10 \<and> nat_str n = digit_chr d # cs"
  using nat_str_digits [of "hd (nat_str n)" n] by (cases "nat_str n") auto

lemma int_str_no_space: "ch \<in> set (int_str i) \<Longrightarrow> \<not> is_space ch"
  by (auto simp: int_str_def is_space_def split: if_splits dest!: nat_str_digits)
     (auto simp: of_char_digit_chr)

lemma parse_int_int_str [str_simps]: "parse_int (int_str i) = Some i"
proof -
  have s: "strip (int_str i) = int_str i" by (rule strip_no_space) (rule int_str_no_space)
  show ?thesis
  proof (cases "i < 0")
    case True
    then show ?thesis
      by (simp add: parse_int_def s) (simp add: int_str_def digits_val_nat_str)
  next
    case False
    obtain d cs where d: "d < 10" "nat_str (nat i) = digit_chr d # cs" using nat_str_hd by blast
    have "digits_val 10 False 0 (digit_chr d # cs) = Some (nat i)"
      using digits_val_nat_str [of "nat i"] d by simp
    with False d show ?thesis
      by (simp add: parse_int_def s del: digits_val.simps)
        (simp add: int_str_def str_simps del: digits_val.simps)
  qed
qed

lemma int_str_inj: "int_str i = int_str j \<longleftrightarrow> i = j"
  by (metis option.inject parse_int_int_str)

lemma int_str_no_char:
  "of_char ch < (45::nat) \<or> of_char ch > (57::nat) \<or> of_char ch = (47::nat) \<or> of_char ch = (46::nat) \<Longrightarrow> ch \<notin> set (int_str i)"
  by (auto simp: int_str_def split: if_splits dest!: nat_str_digits) (auto simp: of_char_digit_chr)

text \<open>
  Zero-padded numerals of a fixed width, as the format specs %m, %d and the four-digit year
  of isoformat print them.
\<close>

definition pad :: "nat \<Rightarrow> nat \<Rightarrow> string" where
  "pad w n = replicate (w - length (nat_str n)) (CHR ''0'') @ nat_str n"

lemma pad_digits: "ch \<in> set (pad w n) \<Longrightarrow> \<exists>d<10. ch = digit_chr d"
proof -
  assume "ch \<in> set (pad w n)"
  then have "ch = CHR ''0'' \<or> ch \<in> set (nat_str n)" by (auto simp: pad_def)
  moreover have "char_of (of_char (CHR ''0'') :: nat) = CHR ''0''" by (rule char_of_char)
  then have "CHR ''0'' = digit_chr 0" by (simp add: digit_chr_def)
  ultimately show ?thesis using nat_str_digits by (metis zero_less_numeral)
qed

lemma pad_no_char: "of_char ch < (48::nat) \<or> of_char ch > (57::nat) \<Longrightarrow> ch \<notin> set (pad w n)"
  by (auto dest!: pad_digits simp: of_char_digit_chr)

lemma length_nat_str: "n < 10 ^ w \<Longrightarrow> 0 < w \<Longrightarrow> length (nat_str n) \<le> w"
proof (induction n arbitrary: w rule: nat_str.induct)
  case (1 n)
  show ?case
  proof (cases "n < 10")
    case True
    with "1.prems" show ?thesis by (simp add: nat_str.simps [of n])
  next
    case False
    with "1.prems" obtain v where v: "w = Suc v" "0 < v"
      by (cases w; cases "w - 1") auto
    with "1.prems" have "n div 10 < 10 ^ v" by (simp add: less_mult_imp_div_less mult.commute)
    with "1.IH" [OF False] v(2) have "length (nat_str (n div 10)) \<le> v" by blast
    with False v show ?thesis by (simp add: nat_str.simps [of n])
  qed
qed

lemma length_pad: "n < 10 ^ w \<Longrightarrow> 0 < w \<Longrightarrow> length (pad w n) = w"
  using length_nat_str by (simp add: pad_def)

lemma nat_str_inj: "nat_str m = nat_str n \<longleftrightarrow> m = n"
  by (metis digits_val_nat_str option.inject)

lemma nat_str_no_char: "of_char ch < (48::nat) \<or> of_char ch > (57::nat) \<Longrightarrow> ch \<notin> set (nat_str n)"
  by (auto dest!: nat_str_digits simp: of_char_digit_chr)

lemma digits_val_zeros: "digits_val 10 b acc (replicate k (CHR ''0'') @ cs) =
   (if k = 0 then digits_val 10 b acc cs else digits_val 10 True (acc * 10 ^ k) cs)"
proof (induction k arbitrary: b acc)
  case (Suc k)
  have "digit_val 10 (CHR ''0'') = Some 0" by (simp add: digit_val_def)
  with Suc show ?case by (simp add: mult.assoc)
qed simp

lemma digits_val_flag: "cs \<noteq> [] \<Longrightarrow> hd cs \<noteq> CHR ''_'' \<Longrightarrow> digits_val 10 b acc cs = digits_val 10 c acc cs"
  by (cases cs) auto

lemma digits_val_pad: "digits_val 10 False 0 (pad w n) = Some n"
proof -
  obtain d cs where d: "d < 10" "nat_str n = digit_chr d # cs" using nat_str_hd by blast
  then have "digits_val 10 True 0 (nat_str n) = digits_val 10 False 0 (nat_str n)"
    by (intro digits_val_flag) (auto simp: str_simps)
  then show ?thesis by (simp add: pad_def digits_val_zeros digits_val_nat_str)
qed

lemma pad_inj: "pad w m = pad w n \<longleftrightarrow> m = n"
  by (metis digits_val_pad option.inject)

text \<open>needle in haystack, for strings.\<close>

fun occurs_in :: "string \<Rightarrow> string \<Rightarrow> bool" where
  "occurs_in needle [] \<longleftrightarrow> needle = []"
| "occurs_in needle (c # cs) \<longleftrightarrow> take (length needle) (c # cs) = needle \<or> occurs_in needle cs"

subsection \<open>Lines, the last path segment, repr\<close>

text \<open>The characters below 256 that end a line for str.splitlines, carriage return apart.\<close>

definition is_line_end :: "char \<Rightarrow> bool" where
  "is_line_end ch = (let n = (of_char ch :: nat) in
     n = 10 \<or> n = 11 \<or> n = 12 \<or> (28 \<le> n \<and> n \<le> 30) \<or> n = 133)"

text \<open>str.splitlines(); the accumulator is the line being read, reversed.\<close>

fun lines_from :: "string \<Rightarrow> string \<Rightarrow> string list" where
  "lines_from acc [] = (if acc = [] then [] else [rev acc])"
| "lines_from acc (ch # cs) =
     (if of_char ch = (13::nat)
      then rev acc # (case cs of
             d # ds \<Rightarrow> if of_char d = (10::nat) then lines_from [] ds else lines_from [] (d # ds)
           | [] \<Rightarrow> [])
      else if is_line_end ch then rev acc # lines_from [] cs
      else lines_from (ch # acc) cs)"

definition splitlines :: "string \<Rightarrow> string list" where
  "splitlines s = lines_from [] s"

text \<open>s.rsplit(c, 1)[-1]: what follows the last occurrence of c.\<close>

definition after_last :: "char \<Rightarrow> string \<Rightarrow> string" where
  "after_last ch s = rev (takeWhile (\<lambda>d. d \<noteq> ch) (rev s))"

lemma after_last_append: "ch \<notin> set t \<Longrightarrow> after_last ch (s @ ch # t) = t"
  by (auto simp: after_last_def takeWhile_append)

text \<open>str.lower on ASCII letters.\<close>

definition lower_chr :: "char \<Rightarrow> char" where
  "lower_chr ch = (let n = (of_char ch :: nat) in if 65 \<le> n \<and> n \<le> 90 then char_of (n + 32) else ch)"

definition lower :: "string \<Rightarrow> string" where
  "lower s = map lower_chr s"

text \<open>repr of a str: the quote character, then each character escaped as Python does.\<close>

definition hex_digit :: "nat \<Rightarrow> char" where
  "hex_digit d = (if d < 10 then char_of (48 + d) else char_of (87 + d))"

definition repr_chr :: "char \<Rightarrow> char \<Rightarrow> string" where
  "repr_chr quote ch = (let n = (of_char ch :: nat) in
     if ch = quote \<or> n = 92 then [char_of (92::nat), ch]
     else if n = 10 then [char_of (92::nat), CHR ''n'']
     else if n = 13 then [char_of (92::nat), CHR ''r'']
     else if n = 9 then [char_of (92::nat), CHR ''t'']
     else if n < 32 \<or> (127 \<le> n \<and> n \<le> 160) \<or> n = 173
       then [char_of (92::nat), CHR ''x'', hex_digit (n div 16), hex_digit (n mod 16)]
     else [ch])"

definition py_repr :: "string \<Rightarrow> string" where
  "py_repr s = (let sq = char_of (39::nat); dq = char_of (34::nat);
     q = (if sq \<in> set s \<and> dq \<notin> set s then dq else sq)
   in q # concat (map (repr_chr q) s) @ [q])"

text \<open>repr of a list of strings.\<close>

definition list_repr :: "string list \<Rightarrow> string" where
  "list_repr xs = ''['' @ join '', '' (map py_repr xs) @ '']''"

text \<open>The error int(text) raises on malformed text.\<close>

definition py_int :: "string \<Rightarrow> int res" where
  "py_int s = (case parse_int s of
     Some i \<Rightarrow> Inr i
   | None \<Rightarrow> Inl (Exn ValueError (''invalid literal for int() with base 10: '' @ py_repr s)))"

lemma py_int_int_str [str_simps]: "py_int (int_str i) = Inr i"
  by (simp add: py_int_def parse_int_int_str)

lemma py_int_error_kind: "py_int s = Inl e \<Longrightarrow> exn_kind e = ValueError"
  by (auto simp: py_int_def split: option.splits)

subsection \<open>Dictionaries in insertion order\<close>

text \<open>
  A Python dict is an association list in insertion order with distinct keys: get looks a key
  up, storing under a present key keeps its position, storing under a new key appends.
\<close>

type_synonym ('k, 'v) dict = "('k \<times> 'v) list"

fun dict_set :: "'k \<Rightarrow> 'v \<Rightarrow> ('k, 'v) dict \<Rightarrow> ('k, 'v) dict" where
  "dict_set k v [] = [(k, v)]"
| "dict_set k v ((k', v') # d) = (if k' = k then (k, v) # d else (k', v') # dict_set k v d)"

lemma map_of_dict_set [simp]: "map_of (dict_set k v d) = (map_of d)(k \<mapsto> v)"
  by (induction d) (auto simp: fun_eq_iff)

lemma keys_dict_set: "map fst (dict_set k v d) =
   (if k \<in> set (map fst d) then map fst d else map fst d @ [k])"
proof (induction d)
  case (Cons p d)
  then show ?case by (cases p) (auto split: if_splits)
qed simp

lemma distinct_dict_set [simp]: "distinct (map fst d) \<Longrightarrow> distinct (map fst (dict_set k v d))"
  by (simp add: keys_dict_set)

lemma set_dict_set: "set (dict_set k v d) \<subseteq> insert (k, v) (set d)"
  by (induction d) (auto split: if_splits)

text \<open>d[key], raising KeyError with the repr of the key.\<close>

definition dict_item :: "(string, 'v) dict \<Rightarrow> string \<Rightarrow> 'v res" where
  "dict_item d k = (case map_of d k of Some v \<Rightarrow> Inr v | None \<Rightarrow> Inl (Exn KeyError (py_repr k)))"

lemma dict_item_Inr_iff [res_simps]: "dict_item d k = Inr v \<longleftrightarrow> map_of d k = Some v"
  by (auto simp: dict_item_def split: option.splits)

end
