(* ===== verification/Models.thy ===== *)
theory Models
  imports Prelude
begin

text \<open>
  The trade record of ingest/core/models.py, its Kafka key and its Avro form, and the schema
  ingest/schemas/trade.v1.avsc the Avro form has to conform to. A long of Avro is a signed
  64-bit integer, while the Python fields are unbounded ints.
\<close>

subsection \<open>Enumerations\<close>

datatype side = BUY | SELL | UNKNOWN

datatype source = STREAM | REST_REPAIR | ARCHIVE

fun side_str :: "side \<Rightarrow> string" where
  "side_str BUY = ''BUY''"
| "side_str SELL = ''SELL''"
| "side_str UNKNOWN = ''UNKNOWN''"

fun source_str :: "source \<Rightarrow> string" where
  "source_str STREAM = ''STREAM''"
| "source_str REST_REPAIR = ''REST_REPAIR''"
| "source_str ARCHIVE = ''ARCHIVE''"

text \<open>Side(text): the member with that value, ValueError for any other text.\<close>

definition side_of :: "string \<Rightarrow> side res" where
  "side_of s = (if s = ''BUY'' then Inr BUY else if s = ''SELL'' then Inr SELL
     else if s = ''UNKNOWN'' then Inr UNKNOWN
     else Inl (Exn ValueError (py_repr s @ '' is not a valid Side'')))"

lemma side_of_side_str [simp]: "side_of (side_str x) = Inr x"
  by (cases x) (auto simp: side_of_def)

lemma side_str_inj [simp]: "side_str x = side_str y \<longleftrightarrow> x = y"
  by (cases x; cases y) auto

lemma source_str_inj [simp]: "source_str x = source_str y \<longleftrightarrow> x = y"
  by (cases x; cases y) auto

subsection \<open>The trade\<close>

record trade =
  t_venue :: string
  t_venue_symbol :: string
  t_instrument_id :: string
  t_trade_id :: string
  t_event_ts_us :: int
  t_ingest_ts_us :: int
  t_price :: string
  t_size :: string
  t_side :: side
  t_sequence :: "int option"
  t_is_backfill :: bool
  t_source :: source

definition kafka_key :: "trade \<Rightarrow> string" where
  "kafka_key t = t_venue t @ ''|'' @ t_venue_symbol t"

datatype avro = AStr string | ALong int | ABool bool | ANull

fun avro_opt :: "int option \<Rightarrow> avro" where
  "avro_opt None = ANull"
| "avro_opt (Some i) = ALong i"

definition to_avro :: "trade \<Rightarrow> (string, avro) dict" where
  "to_avro t =
     [(''venue'', AStr (t_venue t)),
      (''venue_symbol'', AStr (t_venue_symbol t)),
      (''instrument_id'', AStr (t_instrument_id t)),
      (''trade_id'', AStr (t_trade_id t)),
      (''event_ts_us'', ALong (t_event_ts_us t)),
      (''ingest_ts_us'', ALong (t_ingest_ts_us t)),
      (''price'', AStr (t_price t)),
      (''size'', AStr (t_size t)),
      (''side'', AStr (side_str (t_side t))),
      (''sequence'', avro_opt (t_sequence t)),
      (''is_backfill'', ABool (t_is_backfill t)),
      (''source'', AStr (source_str (t_source t)))]"

subsection \<open>The schema\<close>

datatype avro_type = TString | TLong | TBoolean | TEnum "string list" | TUnionNullLong

definition trade_v1 :: "(string \<times> avro_type) list" where
  "trade_v1 =
     [(''venue'', TString), (''venue_symbol'', TString), (''instrument_id'', TString),
      (''trade_id'', TString), (''event_ts_us'', TLong), (''ingest_ts_us'', TLong),
      (''price'', TString), (''size'', TString),
      (''side'', TEnum [''BUY'', ''SELL'', ''UNKNOWN'']),
      (''sequence'', TUnionNullLong), (''is_backfill'', TBoolean),
      (''source'', TEnum [''STREAM'', ''REST_REPAIR'', ''ARCHIVE''])]"

definition int64 :: "int \<Rightarrow> bool" where
  "int64 i \<longleftrightarrow> - (2 ^ 63) \<le> i \<and> i < 2 ^ 63"

fun has_type :: "avro \<Rightarrow> avro_type \<Rightarrow> bool" where
  "has_type (AStr s) TString = True"
| "has_type (AStr s) (TEnum syms) = (s \<in> set syms)"
| "has_type (ALong i) TLong = int64 i"
| "has_type (ALong i) TUnionNullLong = int64 i"
| "has_type ANull TUnionNullLong = True"
| "has_type (ABool b) TBoolean = True"
| "has_type _ _ = False"

definition conforms :: "(string, avro) dict \<Rightarrow> (string \<times> avro_type) list \<Rightarrow> bool" where
  "conforms d sch \<longleftrightarrow> list_all2 (\<lambda>(k, v) (n, ty). k = n \<and> has_type v ty) d sch"

text \<open>TRADE_SCHEMA_VERSION of ingest/core/codec.py, and a trade for examples.\<close>

definition trade_schema_version :: int where
  "trade_schema_version = 1"

definition example_trade :: trade where
  "example_trade = \<lparr> t_venue = ''binance'', t_venue_symbol = ''BTCUSDT'', t_instrument_id = ''BTC-USD'',
     t_trade_id = ''41'', t_event_ts_us = 1786752000286000, t_ingest_ts_us = 1786752000300000,
     t_price = ''63000.10'', t_size = ''0.5'', t_side = SELL, t_sequence = Some 41,
     t_is_backfill = False, t_source = STREAM \<rparr>"

subsection \<open>Facts\<close>

lemma kafka_key_split:
  "CHR ''|'' \<notin> set (t_venue t) \<Longrightarrow> CHR ''|'' \<notin> set (t_venue u) \<Longrightarrow>
   kafka_key t = kafka_key u \<longleftrightarrow> t_venue t = t_venue u \<and> t_venue_symbol t = t_venue_symbol u"
  by (simp add: kafka_key_def sep_append_eq_iff)

lemma avro_opt_inj [simp]: "avro_opt x = avro_opt y \<longleftrightarrow> x = y"
  by (cases x; cases y) auto

lemma to_avro_inj: "to_avro t = to_avro u \<Longrightarrow> t = u"
  by (cases t; cases u) (simp add: to_avro_def)

lemma has_type_side [simp]: "has_type (AStr (side_str x)) (TEnum [''BUY'', ''SELL'', ''UNKNOWN''])"
  by (cases x) auto

lemma has_type_source [simp]:
  "has_type (AStr (source_str x)) (TEnum [''STREAM'', ''REST_REPAIR'', ''ARCHIVE''])"
  by (cases x) auto

lemma has_type_opt [simp]: "has_type (avro_opt x) TUnionNullLong \<longleftrightarrow> (\<forall>i. x = Some i \<longrightarrow> int64 i)"
  by (cases x) auto

lemma to_avro_conforms_iff:
  "conforms (to_avro t) trade_v1 \<longleftrightarrow>
     int64 (t_event_ts_us t) \<and> int64 (t_ingest_ts_us t) \<and> (\<forall>i. t_sequence t = Some i \<longrightarrow> int64 i)"
  by (simp add: conforms_def to_avro_def trade_v1_def del: has_type.simps(2))

end
