(* ===== verification/Queue.thy ===== *)
theory Queue
  imports Models "HOL-Library.Sublist"
begin

text \<open>
  Backpressure, ingest/core/queue.py: BoundedTopicQueue over the standard library's
  asyncio.Queue, with the two policies of DropPolicy. An await that suspends (put on a full
  BLOCK queue, get on an empty one) is the result None, in which the queue is unchanged; the
  DROP_OLDEST loop runs to its return. The contract the ingest runner relies on is stated as
  two locales, a bounded channel and a lossless one, and both are interpreted on the model.
\<close>

datatype drop_policy = BLOCK | DROP_OLDEST

definition topic_policies :: "(string, drop_policy) dict" where
  "topic_policies =
     [(''md.trades.v1'', BLOCK), (''md.bars.v1'', BLOCK), (''md.book.top.v1'', DROP_OLDEST),
      (''md.book.depth.v1'', DROP_OLDEST), (''news.articles.v1'', BLOCK),
      (''ops.metrics.v1'', DROP_OLDEST)]"

record 'a topic_queue =
  q_items :: "'a list"
  q_maxsize :: int
  q_policy :: drop_policy
  q_dropped :: nat

definition new_queue :: "int \<Rightarrow> drop_policy \<Rightarrow> 'a topic_queue" where
  "new_queue maxsize policy =
     \<lparr>q_items = [], q_maxsize = maxsize, q_policy = policy, q_dropped = 0\<rparr>"

definition qsize :: "'a topic_queue \<Rightarrow> nat" where
  "qsize q = length (q_items q)"

text \<open>asyncio.Queue: full, put_nowait, get_nowait. A maxsize of zero or less is no bound.\<close>

definition aq_full :: "'a topic_queue \<Rightarrow> bool" where
  "aq_full q \<longleftrightarrow> 0 < q_maxsize q \<and> q_maxsize q \<le> int (qsize q)"

definition put_nowait :: "'a topic_queue \<Rightarrow> 'a \<Rightarrow> 'a topic_queue res" where
  "put_nowait q x = (if aq_full q then Inl (Exn QueueFull [])
     else Inr (q\<lparr>q_items := q_items q @ [x]\<rparr>))"

definition get_nowait :: "'a topic_queue \<Rightarrow> ('a \<times> 'a topic_queue) res" where
  "get_nowait q = (case q_items q of
     [] \<Rightarrow> Inl (Exn QueueEmpty [])
   | x # xs \<Rightarrow> Inr (x, q\<lparr>q_items := xs\<rparr>))"

text \<open>The while loop of put under DROP_OLDEST; its continue branch is kept.\<close>

function drop_put :: "'a topic_queue \<Rightarrow> 'a \<Rightarrow> 'a topic_queue" where
  "drop_put q x = (case put_nowait q x of
     Inr q' \<Rightarrow> q'
   | Inl _ \<Rightarrow> (case get_nowait q of
        Inr (_, q') \<Rightarrow> drop_put (q'\<lparr>q_dropped := q_dropped q' + 1\<rparr>) x
      | Inl _ \<Rightarrow> drop_put q x))"
  by pat_completeness auto
termination
  by (relation "measure (\<lambda>(q, x). qsize q)")
    (auto simp: get_nowait_def put_nowait_def aq_full_def qsize_def split: list.splits if_splits)

declare drop_put.simps [simp del]

definition qput :: "'a topic_queue \<Rightarrow> 'a \<Rightarrow> 'a topic_queue option" where
  "qput q x = (case q_policy q of
     BLOCK \<Rightarrow> (case put_nowait q x of Inr q' \<Rightarrow> Some q' | Inl _ \<Rightarrow> None)
   | DROP_OLDEST \<Rightarrow> Some (drop_put q x))"

definition qget :: "'a topic_queue \<Rightarrow> ('a \<times> 'a topic_queue) option" where
  "qget q = (case get_nowait q of Inr r \<Rightarrow> Some r | Inl _ \<Rightarrow> None)"

subsection \<open>Interfaces\<close>

text \<open>A schedule of puts and gets on a channel; an operation that would suspend is skipped.\<close>

datatype 'a chan_op = Put 'a | Get

text \<open>The final channel, the items accepted and the items handed out, in order.\<close>

fun chan_run :: "('q \<Rightarrow> 'a \<Rightarrow> 'q option) \<Rightarrow> ('q \<Rightarrow> ('a \<times> 'q) option) \<Rightarrow> 'q \<Rightarrow> 'a chan_op list
    \<Rightarrow> 'a list \<times> 'a list \<times> 'q" where
  "chan_run put get q [] = ([], [], q)"
| "chan_run put get q (Put x # ops) =
     (case put q x of
        None \<Rightarrow> chan_run put get q ops
      | Some q' \<Rightarrow> (let (acc, got, r) = chan_run put get q' ops in (x # acc, got, r)))"
| "chan_run put get q (Get # ops) =
     (case get q of
        None \<Rightarrow> chan_run put get q ops
      | Some (y, q') \<Rightarrow> (let (acc, got, r) = chan_run put get q' ops in (acc, y # got, r)))"

lemma chan_run_step:
  assumes "chan_run put get q (op # ops) = (acc, got, r)"
  obtains (skip) "chan_run put get q ops = (acc, got, r)"
  | (accept) x q' acc' where "op = Put x" "put q x = Some q'"
      "chan_run put get q' ops = (acc', got, r)" "acc = x # acc'"
  | (deliver) y q' got' where "op = Get" "get q = Some (y, q')"
      "chan_run put get q' ops = (acc, got', r)" "got = y # got'"
  using assms by (cases op) (auto split: option.splits prod.splits)

locale bounded_channel =
  fixes put :: "'q \<Rightarrow> 'a \<Rightarrow> 'q option"
    and get :: "'q \<Rightarrow> ('a \<times> 'q) option"
    and items :: "'q \<Rightarrow> 'a list"
    and lost :: "'q \<Rightarrow> nat"
    and ok :: "'q \<Rightarrow> bool"
  assumes put_ok: "ok q \<Longrightarrow> put q x = Some q' \<Longrightarrow> ok q'"
    and get_ok: "ok q \<Longrightarrow> get q = Some (y, q') \<Longrightarrow> ok q'"
    and put_items: "ok q \<Longrightarrow> put q x = Some q' \<Longrightarrow>
      lost q \<le> lost q' \<and> lost q' - lost q \<le> length (items q) \<and>
      items q' = drop (lost q' - lost q) (items q) @ [x]"
    and get_items: "ok q \<Longrightarrow> get q = Some (y, q') \<Longrightarrow> items q = y # items q' \<and> lost q' = lost q"
begin

lemma run_ok: "ok q \<Longrightarrow> chan_run put get q ops = (acc, got, r) \<Longrightarrow> ok r"
proof (induction ops arbitrary: q acc got)
  case (Cons op ops)
  from Cons.prems(2) show ?case
    by (rule chan_run_step) (use Cons put_ok get_ok in blast)+
qed simp

text \<open>The ledger: what was accepted is handed out, still held, or counted as lost.\<close>

lemma run_ledger:
  "ok q \<Longrightarrow> chan_run put get q ops = (acc, got, r) \<Longrightarrow>
   length (items q) + length acc + lost q = length got + length (items r) + lost r \<and> lost q \<le> lost r"
proof (induction ops arbitrary: q acc got)
  case (Cons op ops)
  from Cons.prems(2) show ?case
  proof (cases rule: chan_run_step)
    case skip
    with Cons show ?thesis by blast
  next
    case (accept x q' acc')
    from Cons.IH [OF put_ok [OF Cons.prems(1) accept(2)] accept(3)]
      put_items [OF Cons.prems(1) accept(2)] accept(4)
    show ?thesis by auto
  next
    case (deliver y q' got')
    from Cons.IH [OF get_ok [OF Cons.prems(1) deliver(2)] deliver(3)]
      get_items [OF Cons.prems(1) deliver(2)] deliver(4)
    show ?thesis by auto
  qed
qed simp

text \<open>What is handed out and still held is a subsequence of what went in, and the tail is recent.\<close>

lemma run_subseq:
  "ok q \<Longrightarrow> chan_run put get q ops = (acc, got, r) \<Longrightarrow> subseq (got @ items r) (items q @ acc)"
proof (induction ops arbitrary: q acc got)
  case (Cons op ops)
  from Cons.prems(2) show ?case
  proof (cases rule: chan_run_step)
    case skip
    with Cons show ?thesis by blast
  next
    case (accept x q' acc')
    from Cons.IH [OF put_ok [OF Cons.prems(1) accept(2)] accept(3)]
    have "subseq (got @ items r) (items q' @ acc')" .
    moreover have "subseq (items q' @ acc') (items q @ acc)"
      using put_items [OF Cons.prems(1) accept(2)] accept(4)
      by (simp add: list_emb_append_mono suffix_imp_subseq suffix_drop)
    ultimately show ?thesis by (rule subseq_order.trans)
  next
    case (deliver y q' got')
    from Cons.IH [OF get_ok [OF Cons.prems(1) deliver(2)] deliver(3)]
      get_items [OF Cons.prems(1) deliver(2)] deliver(4)
    show ?thesis by simp
  qed
qed simp

end

locale lossless_channel = bounded_channel +
  assumes put_lossless: "ok q \<Longrightarrow> put q x = Some q' \<Longrightarrow> lost q' = lost q"
begin

lemma put_append: "ok q \<Longrightarrow> put q x = Some q' \<Longrightarrow> items q' = items q @ [x]"
  using put_items [of q x q'] put_lossless [of q x q'] by simp

text \<open>First in, first out, and nothing lost.\<close>

lemma run_fifo:
  "ok q \<Longrightarrow> chan_run put get q ops = (acc, got, r) \<Longrightarrow> items q @ acc = got @ items r"
proof (induction ops arbitrary: q acc got)
  case (Cons op ops)
  from Cons.prems(2) show ?case
  proof (cases rule: chan_run_step)
    case skip
    with Cons show ?thesis by blast
  next
    case (accept x q' acc')
    from Cons.IH [OF put_ok [OF Cons.prems(1) accept(2)] accept(3)]
      put_append [OF Cons.prems(1) accept(2)] accept(4)
    show ?thesis by simp
  next
    case (deliver y q' got')
    from Cons.IH [OF get_ok [OF Cons.prems(1) deliver(2)] deliver(3)]
      get_items [OF Cons.prems(1) deliver(2)] deliver(4)
    show ?thesis by simp
  qed
qed simp

end

subsection \<open>The operations\<close>

text \<open>The bound: a queue with a positive maxsize never holds more.\<close>

definition q_ok :: "'a topic_queue \<Rightarrow> bool" where
  "q_ok q \<longleftrightarrow> 0 < q_maxsize q \<longrightarrow> int (qsize q) \<le> q_maxsize q"

lemma new_queue_ok [simp]: "q_ok (new_queue n p)"
  by (simp add: q_ok_def new_queue_def qsize_def)

text \<open>
  DROP_OLDEST in closed form: under the bound at most one item goes, and it is the oldest.
  The QueueEmpty branch of the loop is never taken.
\<close>

lemma drop_put_not_full: "\<not> aq_full q \<Longrightarrow> drop_put q x = q\<lparr>q_items := q_items q @ [x]\<rparr>"
  by (subst drop_put.simps) (simp add: put_nowait_def)

lemma drop_put_full:
  assumes "aq_full q" and "q_ok q"
  shows "drop_put q x = q\<lparr>q_items := tl (q_items q) @ [x], q_dropped := q_dropped q + 1\<rparr>"
proof -
  from assms(1) obtain y ys where items: "q_items q = y # ys"
    by (cases "q_items q") (auto simp: aq_full_def qsize_def)
  let ?q' = "q\<lparr>q_items := ys, q_dropped := q_dropped q + 1\<rparr>"
  have "drop_put q x = drop_put ?q' x"
    using assms(1) items by (subst drop_put.simps) (simp add: put_nowait_def get_nowait_def)
  moreover have "\<not> aq_full ?q'"
    using assms items by (auto simp: aq_full_def q_ok_def qsize_def)
  ultimately show ?thesis using items by (simp add: drop_put_not_full)
qed

lemma qput_block: "q_policy q = BLOCK \<Longrightarrow>
  qput q x = (if aq_full q then None else Some (q\<lparr>q_items := q_items q @ [x]\<rparr>))"
  by (simp add: qput_def put_nowait_def)

lemma qput_drop: "q_policy q = DROP_OLDEST \<Longrightarrow> q_ok q \<Longrightarrow>
  qput q x = Some (if aq_full q
     then q\<lparr>q_items := tl (q_items q) @ [x], q_dropped := q_dropped q + 1\<rparr>
     else q\<lparr>q_items := q_items q @ [x]\<rparr>)"
  by (simp add: qput_def drop_put_full drop_put_not_full)

lemma qget_eq: "qget q = (case q_items q of [] \<Rightarrow> None | x # xs \<Rightarrow> Some (x, q\<lparr>q_items := xs\<rparr>))"
  by (simp add: qget_def get_nowait_def split: list.splits)

lemma qput_frame: "qput q x = Some q' \<Longrightarrow> q_ok q \<Longrightarrow> q_maxsize q' = q_maxsize q \<and> q_policy q' = q_policy q"
  by (cases "q_policy q") (auto simp: qput_block qput_drop split: if_splits)

lemma qput_ok: "q_ok q \<Longrightarrow> qput q x = Some q' \<Longrightarrow> q_ok q'"
  by (cases "q_policy q")
    (auto simp: qput_block qput_drop q_ok_def aq_full_def qsize_def split: if_splits)

lemma qget_ok: "q_ok q \<Longrightarrow> qget q = Some (y, q') \<Longrightarrow> q_ok q'"
  by (auto simp: qget_eq q_ok_def qsize_def split: list.splits)

lemma qput_items:
  "q_ok q \<Longrightarrow> qput q x = Some q' \<Longrightarrow>
   q_dropped q \<le> q_dropped q' \<and> q_dropped q' - q_dropped q \<le> length (q_items q) \<and>
   q_items q' = drop (q_dropped q' - q_dropped q) (q_items q) @ [x]"
  by (cases "q_policy q")
    (auto simp: qput_block qput_drop aq_full_def qsize_def drop_Suc Suc_le_eq split: if_splits)

interpretation topicq: bounded_channel qput qget q_items q_dropped q_ok
proof
  fix q q' :: "'a topic_queue" and y
  show "q_ok q \<Longrightarrow> qget q = Some (y, q') \<Longrightarrow> q_items q = y # q_items q' \<and> q_dropped q' = q_dropped q"
    by (auto simp: qget_eq split: list.splits)
qed (auto intro: qput_ok qget_ok dest: qput_items)

definition block_ok :: "'a topic_queue \<Rightarrow> bool" where
  "block_ok q \<longleftrightarrow> q_ok q \<and> q_policy q = BLOCK"

interpretation blockq: lossless_channel qput qget q_items q_dropped block_ok
proof
  fix q q' :: "'a topic_queue" and x y
  show "block_ok q \<Longrightarrow> qput q x = Some q' \<Longrightarrow> block_ok q'"
    by (auto simp: block_ok_def qput_ok dest: qput_frame)
  show "block_ok q \<Longrightarrow> qget q = Some (y, q') \<Longrightarrow> block_ok q'"
    by (auto simp: block_ok_def qget_ok) (auto simp: qget_eq split: list.splits)
  show "block_ok q \<Longrightarrow> qput q x = Some q' \<Longrightarrow> q_dropped q' = q_dropped q"
    by (auto simp: block_ok_def qput_block split: if_splits)
qed (auto simp: block_ok_def topicq.get_items dest: qput_items)

subsection \<open>Properties\<close>

text \<open>
  Property C18. Under BLOCK the queue is a lossless FIFO: for every schedule of puts and gets on
  a new queue, the items handed out followed by the items still held are exactly the items
  accepted, in order, and nothing was dropped.
\<close>

theorem block_queue_lossless_fifo:
  assumes "chan_run qput qget (new_queue n BLOCK) ops = (acc, got, r)"
  shows "acc = got @ q_items r \<and> q_dropped r = 0"
proof -
  have ok: "block_ok (new_queue n BLOCK)" by (simp add: block_ok_def) (simp add: new_queue_def)
  from blockq.run_fifo [OF ok assms] have fifo: "acc = got @ q_items r"
    by (simp add: new_queue_def)
  with blockq.run_ledger [OF ok assms] show ?thesis by (simp add: new_queue_def)
qed

theorem block_queue_lossless_fifo_witness:
  "[1, 2 :: int] = [1] @ [2] \<and> q_dropped \<lparr>q_items = [2 :: int], q_maxsize = 2, q_policy = BLOCK, q_dropped = 0\<rparr> = 0"
  using block_queue_lossless_fifo [of 2 "[Put (1::int), Put 2, Put 3, Get]" "[1, 2]" "[1]"
    "\<lparr>q_items = [2], q_maxsize = 2, q_policy = BLOCK, q_dropped = 0\<rparr>"]
  by (simp add: new_queue_def qput_def put_nowait_def aq_full_def qsize_def qget_def get_nowait_def)

text \<open>
  Property C23. Under either policy, and for every schedule, the bound holds, the dropped counter
  accounts for every accepted item that is neither handed out nor held, and order is kept:
  what comes out and what is held is a subsequence of what was accepted.
\<close>

theorem queue_bounded_and_accounted:
  assumes "chan_run qput qget (new_queue n p) ops = (acc, got, r)"
  shows "(0 < n \<longrightarrow> int (qsize r) \<le> n) \<and> length acc = length got + qsize r + q_dropped r \<and>
    subseq (got @ q_items r) acc"
proof -
  have ok: "q_ok (new_queue n p)" by simp
  have size: "q_maxsize r = n"
  proof -
    have "q_ok q \<Longrightarrow> chan_run qput qget q ops = (acc, got, r) \<Longrightarrow> q_maxsize r = q_maxsize q" for q
    proof (induction ops arbitrary: q acc got)
      case (Cons op ops)
      from Cons.prems(2) show ?case
      proof (cases rule: chan_run_step)
        case skip
        with Cons show ?thesis by blast
      next
        case (accept x q' acc')
        with Cons.IH [OF qput_ok [OF Cons.prems(1) accept(2)] accept(3)] Cons.prems(1)
        show ?thesis by (auto dest: qput_frame)
      next
        case (deliver y q' got')
        with Cons.IH [OF qget_ok [OF Cons.prems(1) deliver(2)] deliver(3)]
        show ?thesis by (auto simp: qget_eq split: list.splits)
      qed
    qed simp
    from this [OF ok assms] show ?thesis by (simp add: new_queue_def)
  qed
  from topicq.run_ok [OF ok assms] size have "0 < n \<longrightarrow> int (qsize r) \<le> n" by (simp add: q_ok_def)
  with topicq.run_ledger [OF ok assms] topicq.run_subseq [OF ok assms] show ?thesis
    by (simp add: new_queue_def qsize_def)
qed

theorem queue_bounded_and_accounted_witness:
  "int (qsize \<lparr>q_items = [3 :: int], q_maxsize = 1, q_policy = DROP_OLDEST, q_dropped = 2\<rparr>) \<le> 1"
  using queue_bounded_and_accounted [of 1 DROP_OLDEST "[Put (1::int), Put 2, Put 3]" "[1, 2, 3]" "[]"
    "\<lparr>q_items = [3], q_maxsize = 1, q_policy = DROP_OLDEST, q_dropped = 2\<rparr>"]
  by (simp add: new_queue_def qput_drop q_ok_def aq_full_def qsize_def)

end
