(* ===== verification/Gaps.thy ===== *)
theory Gaps
  imports Models
begin

text \<open>
  Sequence-gap detection, ingest/core/gaps.py: SequenceTracker keeps one watermark per
  (venue, symbol), observe compares an incoming sequence number with it and reports a Gap
  when ids were skipped. observe_run feeds a list of observations to one tracker, as the
  ingest runner does with the trades of a connection.
\<close>

record gap =
  gap_venue :: string
  gap_symbol :: string
  last_seen :: int
  next_seen :: int

definition missing_count :: "gap \<Rightarrow> int" where
  "missing_count g = next_seen g - last_seen g - 1"

type_synonym tracker = "string \<times> string \<Rightarrow> int option"

definition new_tracker :: tracker where
  "new_tracker = Map.empty"

definition observe :: "tracker \<Rightarrow> string \<Rightarrow> string \<Rightarrow> int option \<Rightarrow> gap option \<times> tracker" where
  "observe w venue symbol seq = (case seq of
     None \<Rightarrow> (None, w)
   | Some q \<Rightarrow>
       let key = (venue, symbol); last = w key;
           w' = w(key \<mapsto> (case last of Some l \<Rightarrow> max q l | None \<Rightarrow> q))
       in (case last of
             None \<Rightarrow> (None, w')
           | Some l \<Rightarrow>
               if q \<le> l + 1 then (None, w')
               else (Some \<lparr>gap_venue = venue, gap_symbol = symbol, last_seen = l, next_seen = q\<rparr>, w')))"

definition reset :: "tracker \<Rightarrow> string \<Rightarrow> string \<Rightarrow> tracker" where
  "reset w venue symbol = w((venue, symbol) := None)"

type_synonym observation = "string \<times> string \<times> int option"

fun observe_run :: "tracker \<Rightarrow> observation list \<Rightarrow> gap list \<times> tracker" where
  "observe_run w [] = ([], w)"
| "observe_run w ((v, s, q) # es) =
     (let (g, w1) = observe w v s q; (gs, w2) = observe_run w1 es
      in ((case g of None \<Rightarrow> gs | Some x \<Rightarrow> x # gs), w2))"

subsection \<open>What was observed, and what a gap covers\<close>

text \<open>The sequence numbers observed for one key, in order.\<close>

fun seqs :: "string \<times> string \<Rightarrow> observation list \<Rightarrow> int list" where
  "seqs k [] = []"
| "seqs k ((v, s, q) # es) =
     (case q of Some i \<Rightarrow> if (v, s) = k then i # seqs k es else seqs k es | None \<Rightarrow> seqs k es)"

definition gap_key :: "gap \<Rightarrow> string \<times> string" where
  "gap_key g = (gap_venue g, gap_symbol g)"

definition gap_ids :: "gap \<Rightarrow> int set" where
  "gap_ids g = {last_seen g <..< next_seen g}"

definition run_gaps :: "tracker \<Rightarrow> observation list \<Rightarrow> gap list" where
  "run_gaps w es = fst (observe_run w es)"

definition run_tracker :: "tracker \<Rightarrow> observation list \<Rightarrow> tracker" where
  "run_tracker w es = snd (observe_run w es)"

lemma run_gaps_Nil [simp]: "run_gaps w [] = []" and run_tracker_Nil [simp]: "run_tracker w [] = w"
  by (simp_all add: run_gaps_def run_tracker_def)

lemma run_gaps_Cons: "run_gaps w ((v, s, q) # es) =
   (case fst (observe w v s q) of None \<Rightarrow> [] | Some g \<Rightarrow> [g]) @ run_gaps (snd (observe w v s q)) es"
  by (auto simp: run_gaps_def split: prod.splits option.splits)

lemma run_tracker_Cons [simp]:
  "run_tracker w ((v, s, q) # es) = run_tracker (snd (observe w v s q)) es"
  by (auto simp: run_tracker_def split: prod.splits)

lemma run_tracker_snoc:
  "run_tracker w (es @ [(v, s, q)]) = snd (observe (run_tracker w es) v s q)"
  by (induction es arbitrary: w) auto

lemma run_gaps_snoc:
  "run_gaps w (es @ [(v, s, q)]) = run_gaps w es @
     (case fst (observe (run_tracker w es) v s q) of None \<Rightarrow> [] | Some g \<Rightarrow> [g])"
  by (induction es arbitrary: w) (auto simp: run_gaps_Cons)

lemma seqs_append: "seqs k (es @ fs) = seqs k es @ seqs k fs"
  by (induction es) (auto split: option.splits)

lemma finite_gap_ids [simp]: "finite (gap_ids g)"
  by (simp add: gap_ids_def)

lemma card_gap_ids: "missing_count g \<ge> 0 \<Longrightarrow> int (card (gap_ids g)) = missing_count g"
  by (simp add: gap_ids_def missing_count_def)

subsection \<open>One observation\<close>

lemma observe_None [simp]: "observe w v s None = (None, w)"
  by (simp add: observe_def)

lemma observe_tracker:
  "snd (observe w v s (Some q)) = w((v, s) \<mapsto> (case w (v, s) of Some l \<Rightarrow> max q l | None \<Rightarrow> q))"
  by (simp add: observe_def Let_def split: option.splits)

lemma observe_gap_iff:
  "fst (observe w v s q) = Some g \<longleftrightarrow>
     (\<exists>l i. w (v, s) = Some l \<and> q = Some i \<and> l + 1 < i \<and>
        g = \<lparr>gap_venue = v, gap_symbol = s, last_seen = l, next_seen = i\<rparr>)"
  by (auto simp: observe_def Let_def split: option.splits)

lemma observe_other_key: "k \<noteq> (v, s) \<Longrightarrow> snd (observe w v s q) k = w k"
  by (cases q) (auto simp: observe_tracker)

subsection \<open>The accounting invariant\<close>

text \<open>
  For one key, from a fresh tracker: the watermark is the largest id observed, every id
  between the first one and the watermark was observed or lies in a reported gap, no
  reported gap passes the watermark or holds an id observed before it was reported, and
  gaps are reported in increasing, disjoint order.
\<close>

definition key_gaps :: "string \<times> string \<Rightarrow> gap list \<Rightarrow> gap list" where
  "key_gaps k gs = filter (\<lambda>g. gap_key g = k) gs"

definition accounted :: "string \<times> string \<Rightarrow> int list \<Rightarrow> gap list \<Rightarrow> int option \<Rightarrow> bool" where
  "accounted k ids gs m \<longleftrightarrow>
     (case m of
        None \<Rightarrow> ids = [] \<and> gs = []
      | Some h \<Rightarrow> ids \<noteq> [] \<and> h = Max (set ids) \<and>
          (\<forall>n\<in>{hd ids .. h}. n \<in> set ids \<or> (\<exists>g\<in>set gs. n \<in> gap_ids g)) \<and>
          (\<forall>g\<in>set gs. hd ids \<le> last_seen g \<and> last_seen g + 1 < next_seen g \<and> next_seen g \<le> h) \<and>
          sorted_wrt (\<lambda>a b. next_seen a \<le> last_seen b) gs)"

lemma key_gaps_append [simp]: "key_gaps k (gs @ hs) = key_gaps k gs @ key_gaps k hs"
  by (simp add: key_gaps_def)

lemma Max_snoc: "ids \<noteq> [] \<Longrightarrow> Max (set (ids @ [q])) = max q (Max (set ids))" for q :: int
  by simp

lemma accounted_first: "accounted k [q] [] (Some q)"
  by (simp add: accounted_def)

lemma accounted_low:
  assumes "accounted k ids gs (Some h)" and "q \<le> h"
  shows "accounted k (ids @ [q]) gs (Some h)"
  using assms by (auto simp: accounted_def)

lemma accounted_next:
  assumes "accounted k ids gs (Some h)" and "q = h + 1"
  shows "accounted k (ids @ [q]) gs (Some q)"
proof -
  have "n \<in> {hd ids .. h} \<or> n = q" if "n \<in> {hd ids .. q}" for n
    using that assms(2) by auto
  with assms show ?thesis by (fastforce simp: accounted_def)
qed

lemma accounted_gap:
  assumes "accounted k ids gs (Some h)" and "h + 1 < q"
    and g: "last_seen g = h" "next_seen g = q"
  shows "accounted k (ids @ [q]) (gs @ [g]) (Some q)"
proof -
  have "n \<in> {hd ids .. h} \<or> n \<in> gap_ids g \<or> n = q" if "n \<in> {hd ids .. q}" for n
    using that assms(2) g by (auto simp: gap_ids_def)
  moreover from assms(1) have "hd ids \<le> h" by (auto simp: accounted_def)
  ultimately show ?thesis using assms by (fastforce simp: accounted_def sorted_wrt_append)
qed

lemma accounted_run:
  "accounted k (seqs k es) (key_gaps k (run_gaps new_tracker es)) (run_tracker new_tracker es k)"
proof (induction es rule: rev_induct)
  case Nil
  then show ?case by (simp add: accounted_def new_tracker_def key_gaps_def)
next
  case (snoc e es)
  obtain v s q where e: "e = (v, s, q)" by (cases e)
  let ?w = "run_tracker new_tracker es"
  show ?case
  proof (cases "q = None \<or> (v, s) \<noteq> k")
    case True
    then have "seqs k (es @ [e]) = seqs k es" and "run_tracker new_tracker (es @ [e]) k = ?w k"
      using e by (auto simp: seqs_append run_tracker_snoc observe_other_key split: option.splits)
    moreover have "key_gaps k (run_gaps new_tracker (es @ [e])) = key_gaps k (run_gaps new_tracker es)"
      using True e by (auto simp: run_gaps_snoc observe_gap_iff key_gaps_def gap_key_def split: option.splits)
    ultimately show ?thesis using snoc.IH by simp
  next
    case False
    then obtain i where q: "q = Some i" and k: "(v, s) = k" by auto
    have ids: "seqs k (es @ [e]) = seqs k es @ [i]" using e q k by (simp add: seqs_append)
    have w: "run_tracker new_tracker (es @ [e]) k =
        Some (case ?w k of Some l \<Rightarrow> max i l | None \<Rightarrow> i)"
      using e q k by (auto simp: run_tracker_snoc observe_tracker)
    show ?thesis
    proof (cases "?w k")
      case None
      with snoc.IH have "seqs k es = []" and "key_gaps k (run_gaps new_tracker es) = []"
        by (auto simp: accounted_def)
      with None e q k ids w show ?thesis
        by (auto simp: accounted_first run_gaps_snoc observe_gap_iff key_gaps_def split: option.splits)
    next
      case (Some l)
      with snoc.IH have IH: "accounted k (seqs k es) (key_gaps k (run_gaps new_tracker es)) (Some l)"
        by simp
      show ?thesis
      proof (cases "i \<le> l + 1")
        case True
        then have "fst (observe ?w v s q) = None"
          using Some q k by (auto simp: observe_def Let_def)
        then have "run_gaps new_tracker (es @ [e]) = run_gaps new_tracker es"
          using e by (simp add: run_gaps_snoc)
        moreover have "i = l + 1 \<or> i \<le> l" using True by auto
        ultimately show ?thesis
          using accounted_next [OF IH] accounted_low [OF IH, of i] ids w Some by (auto simp: max_def)
      next
        case False
        let ?g = "\<lparr>gap_venue = v, gap_symbol = s, last_seen = l, next_seen = i\<rparr>"
        have "fst (observe ?w v s q) = Some ?g"
          using Some q k False by (auto simp: observe_gap_iff)
        then have "key_gaps k (run_gaps new_tracker (es @ [e])) =
            key_gaps k (run_gaps new_tracker es) @ [?g]"
          using e k by (simp add: run_gaps_snoc key_gaps_def gap_key_def)
        then show ?thesis using accounted_gap [OF IH, of i ?g] ids w Some False by auto
      qed
    qed
  qed
qed

lemma watermark_is_max:
  "run_tracker new_tracker es k = Some h \<longleftrightarrow> seqs k es \<noteq> [] \<and> h = Max (set (seqs k es))"
  using accounted_run [of k es] by (auto simp: accounted_def split: option.splits)

lemma key_gaps_set: "g \<in> set (key_gaps k gs) \<longleftrightarrow> g \<in> set gs \<and> gap_key g = k"
  by (auto simp: key_gaps_def)

lemma misses_covered:
  assumes "run_tracker new_tracker es k = Some h" and "hd (seqs k es) \<le> n" and "n \<le> h"
  shows "n \<in> set (seqs k es) \<or>
    (\<exists>g\<in>set (run_gaps new_tracker es). gap_key g = k \<and> n \<in> gap_ids g)"
proof -
  have "accounted k (seqs k es) (key_gaps k (run_gaps new_tracker es)) (Some h)"
    using accounted_run [of k es] assms(1) by simp
  then have "\<forall>n\<in>{hd (seqs k es) .. h}. n \<in> set (seqs k es) \<or>
      (\<exists>g\<in>set (key_gaps k (run_gaps new_tracker es)). n \<in> gap_ids g)"
    unfolding accounted_def option.case by (elim conjE)
  with assms(2,3) show ?thesis by (auto simp: key_gaps_set)
qed

subsection \<open>Properties\<close>

text \<open>
  Property C2. No silent loss: from a fresh tracker, every id between the first id a venue and
  symbol delivered and the tracker's watermark was either observed or lies strictly inside a
  gap that observe reported for that venue and symbol.
\<close>

theorem gaps_cover_every_miss:
  assumes "run_tracker new_tracker es k = Some h" and "hd (seqs k es) \<le> n" and "n \<le> h"
  shows "n \<in> set (seqs k es) \<or>
    (\<exists>g\<in>set (run_gaps new_tracker es). gap_key g = k \<and> n \<in> gap_ids g)"
  using assms by (rule misses_covered)

theorem gaps_cover_every_miss_witness:
  "(6::int) \<in> set (seqs (''binance'', ''BTCUSDT'')
      [(''binance'', ''BTCUSDT'', Some 5), (''binance'', ''BTCUSDT'', Some 9)]) \<or>
   (\<exists>g\<in>set (run_gaps new_tracker
      [(''binance'', ''BTCUSDT'', Some 5), (''binance'', ''BTCUSDT'', Some 9)]).
      gap_key g = (''binance'', ''BTCUSDT'') \<and> 6 \<in> gap_ids g)"
  by (rule gaps_cover_every_miss [where h = 9])
    (simp_all add: new_tracker_def observe_tracker)

text \<open>
  A reported gap is genuine: it is not empty, its missing_count is the number of
  ids it covers, none of those ids had been observed before, and none of them lies in a gap
  reported earlier for the same venue and symbol, so no id is repaired twice.
\<close>

theorem gap_reports_are_sound:
  assumes "fst (observe (run_tracker new_tracker es) v s q) = Some g"
  shows "gap_key g = (v, s) \<and> 0 < missing_count g \<and> missing_count g = int (card (gap_ids g)) \<and>
    gap_ids g \<inter> set (seqs (v, s) es) = {} \<and>
    gap_ids g \<inter> (\<Union>g'\<in>set (key_gaps (v, s) (run_gaps new_tracker es)). gap_ids g') = {}"
proof -
  from assms obtain l i where l: "run_tracker new_tracker es (v, s) = Some l" "l + 1 < i"
    and g: "g = \<lparr>gap_venue = v, gap_symbol = s, last_seen = l, next_seen = i\<rparr>"
    by (auto simp: observe_gap_iff)
  have acc: "accounted (v, s) (seqs (v, s) es) (key_gaps (v, s) (run_gaps new_tracker es)) (Some l)"
    using accounted_run [of "(v, s)" es] l by simp
  then have "\<forall>n\<in>set (seqs (v, s) es). n \<le> l"
    and "\<forall>g'\<in>set (key_gaps (v, s) (run_gaps new_tracker es)). next_seen g' \<le> l"
    by (auto simp: accounted_def)
  moreover have "missing_count g = int (card (gap_ids g))"
    using l(2) g by (simp add: card_gap_ids missing_count_def)
  ultimately show ?thesis using l(2) g
    by (fastforce simp: gap_ids_def gap_key_def missing_count_def)
qed

theorem gap_reports_are_sound_witness:
  "gap_key \<lparr>gap_venue = ''binance'', gap_symbol = ''X'', last_seen = 5, next_seen = 9\<rparr> = (''binance'', ''X'')
   \<and> 0 < missing_count \<lparr>gap_venue = ''binance'', gap_symbol = ''X'', last_seen = 5, next_seen = 9\<rparr>"
  using gap_reports_are_sound [of "[(''binance'', ''X'', Some 5)]" "''binance''" "''X''" "Some 9"
    "\<lparr>gap_venue = ''binance'', gap_symbol = ''X'', last_seen = 5, next_seen = 9\<rparr>"]
  by (simp add: new_tracker_def observe_def)

end
