(* ===== verification/Instruments.thy ===== *)
theory Instruments
  imports Models
begin

text \<open>
  The instrument map of ingest/core/instruments.py: the nested loop of from_yaml over the
  parsed document, canonical and symbols_for. The document is config/universe.yaml as
  yaml.safe_load returns it: a list of entries, each with an id and an ordered dict from venue
  to venue symbol (the YAML parser itself is a library the source calls).
\<close>

record universe_entry =
  e_id :: string
  e_venues :: "(string, string) dict"

record instrument_map =
  to_canonical :: "(string \<times> string, string) dict"
  by_venue :: "(string, string list) dict"

definition add_symbol :: "string \<Rightarrow> instrument_map \<Rightarrow> string \<times> string \<Rightarrow> instrument_map" where
  "add_symbol ident m vs = (case vs of (venue, symbol) \<Rightarrow>
     m\<lparr>to_canonical := dict_set (venue, symbol) ident (to_canonical m),
       by_venue := dict_set venue
         ((case map_of (by_venue m) venue of Some l \<Rightarrow> l | None \<Rightarrow> []) @ [symbol]) (by_venue m)\<rparr>)"

definition add_entry :: "instrument_map \<Rightarrow> universe_entry \<Rightarrow> instrument_map" where
  "add_entry m e = foldl (add_symbol (e_id e)) m (e_venues e)"

definition from_yaml :: "universe_entry list \<Rightarrow> instrument_map" where
  "from_yaml doc = foldl add_entry \<lparr>to_canonical = [], by_venue = []\<rparr> doc"

text \<open>str() of a KeyError is the repr of its argument.\<close>

definition canonical :: "instrument_map \<Rightarrow> string \<Rightarrow> string \<Rightarrow> string res" where
  "canonical m venue symbol = (case map_of (to_canonical m) (venue, symbol) of
     Some i \<Rightarrow> Inr i
   | None \<Rightarrow> Inl (Exn KeyError (py_repr (''unmapped instrument '' @ venue @ '':'' @ symbol))))"

definition symbols_for :: "instrument_map \<Rightarrow> string \<Rightarrow> string list" where
  "symbols_for m venue = (case map_of (by_venue m) venue of Some l \<Rightarrow> l | None \<Rightarrow> [])"

text \<open>config/universe.yaml.\<close>

definition universe_row :: "string \<Rightarrow> string \<Rightarrow> string \<Rightarrow> universe_entry" where
  "universe_row i b c = \<lparr>e_id = i, e_venues = [(''binance'', b), (''coinbase'', c)]\<rparr>"

definition universe :: "universe_entry list" where
  "universe =
     [universe_row ''BTC-USD'' ''BTCUSDT'' ''BTC-USD'',
      universe_row ''ETH-USD'' ''ETHUSDT'' ''ETH-USD'',
      universe_row ''SOL-USD'' ''SOLUSDT'' ''SOL-USD'',
      universe_row ''XRP-USD'' ''XRPUSDT'' ''XRP-USD'',
      universe_row ''ADA-USD'' ''ADAUSDT'' ''ADA-USD'',
      universe_row ''LINK-USD'' ''LINKUSDT'' ''LINK-USD'',
      universe_row ''AVAX-USD'' ''AVAXUSDT'' ''AVAX-USD'',
      universe_row ''DOGE-USD'' ''DOGEUSDT'' ''DOGE-USD'']"

subsection \<open>The document flattened\<close>

text \<open>Every (venue, symbol, id) of the document, in document order.\<close>

definition listings :: "universe_entry list \<Rightarrow> ((string \<times> string) \<times> string) list" where
  "listings doc = concat (map (\<lambda>e. map (\<lambda>vs. (vs, e_id e)) (e_venues e)) doc)"

text \<open>What the map holds of a list of listings: the reference the loop is compared with.\<close>

definition holds_listings :: "instrument_map \<Rightarrow> ((string \<times> string) \<times> string) list \<Rightarrow> bool" where
  "holds_listings m ls \<longleftrightarrow>
     map_of (to_canonical m) = map_of (rev ls) \<and>
     (\<forall>v. symbols_for m v = map (snd \<circ> fst) (filter (\<lambda>l. fst (fst l) = v) ls))"

lemma holds_add_symbol:
  "holds_listings m ls \<Longrightarrow> holds_listings (add_symbol i m vs) (ls @ [(vs, i)])"
  by (cases vs) (auto simp: holds_listings_def add_symbol_def symbols_for_def)

lemma holds_foldl_symbols:
  "holds_listings m ls \<Longrightarrow> holds_listings (foldl (add_symbol i) m vss) (ls @ map (\<lambda>vs. (vs, i)) vss)"
proof (induction vss arbitrary: m ls)
  case (Cons vs vss)
  from Cons.IH [OF holds_add_symbol [OF Cons.prems]] show ?case by simp
qed simp

lemma holds_foldl_entries:
  "holds_listings m ls \<Longrightarrow> holds_listings (foldl add_entry m doc) (ls @ listings doc)"
proof (induction doc arbitrary: m ls)
  case (Cons e doc)
  have "holds_listings (add_entry m e) (ls @ map (\<lambda>vs. (vs, e_id e)) (e_venues e))"
    unfolding add_entry_def by (rule holds_foldl_symbols [OF Cons.prems])
  from Cons.IH [OF this] show ?case by (simp add: listings_def)
qed (simp add: listings_def)

lemma from_yaml_holds: "holds_listings (from_yaml doc) (listings doc)"
  using holds_foldl_entries [of "\<lparr>to_canonical = [], by_venue = []\<rparr>" "[]" doc]
  by (simp add: from_yaml_def holds_listings_def symbols_for_def)

lemma canonical_Inr_iff:
  "canonical m v s = Inr i \<longleftrightarrow> map_of (to_canonical m) (v, s) = Some i"
  by (auto simp: canonical_def split: option.splits)

lemma canonical_error: "canonical m v s = Inl e \<Longrightarrow> exn_kind e = KeyError"
  by (auto simp: canonical_def split: option.splits)

lemma symbols_for_mapped:
  "s \<in> set (symbols_for (from_yaml doc) v) \<longleftrightarrow> (\<exists>i. canonical (from_yaml doc) v s = Inr i)"
proof -
  have "map_of (rev ls) (v, s) = None \<longleftrightarrow> (v, s) \<notin> fst ` set ls" for ls :: "((string \<times> string) \<times> string) list"
    by (simp add: map_of_eq_None_iff)
  then have "(\<exists>i. map_of (rev (listings doc)) (v, s) = Some i) \<longleftrightarrow> (v, s) \<in> fst ` set (listings doc)"
    by (metis not_None_eq)
  with from_yaml_holds [of doc] show ?thesis
    by (force simp: holds_listings_def canonical_Inr_iff)
qed

subsection \<open>Properties\<close>

text \<open>
  The map the nested loop builds is the document: symbols_for lists a venue's
  symbols in document order, canonical answers with the id of the last listing of the pair,
  and a symbol is offered for a venue exactly when canonical maps it, so a connector never
  subscribes to a symbol that would come back unmapped.
\<close>

theorem instrument_map_faithful:
  "symbols_for (from_yaml doc) v = map (snd \<circ> fst) (filter (\<lambda>l. fst (fst l) = v) (listings doc)) \<and>
   (canonical (from_yaml doc) v s = Inr i \<longleftrightarrow> map_of (rev (listings doc)) (v, s) = Some i) \<and>
   (s \<in> set (symbols_for (from_yaml doc) v) \<longleftrightarrow> (\<exists>j. canonical (from_yaml doc) v s = Inr j))"
  using from_yaml_holds [of doc]
  by (simp add: symbols_for_mapped) (simp add: holds_listings_def canonical_Inr_iff)

end
