(* ===== verification/Json.thy ===== *)
theory Json
  imports Prelude Complex_Main
begin

text \<open>
  Decoded JSON as Python holds it, and the operations the sources apply to it without knowing
  its shape: item access and get with their exceptions, iteration, str, int and truth. Then the
  compact encoder json.dumps(x, separators=(',', ':')). A float carries its value and its repr.
\<close>

datatype json =
    JNull
  | JBool bool
  | JInt int
  | JFloat rat string
  | JStr string
  | JArr "json list"
  | JObj "(string \<times> json) list"

fun type_name :: "json \<Rightarrow> string" where
  "type_name JNull = ''NoneType''"
| "type_name (JBool _) = ''bool''"
| "type_name (JInt _) = ''int''"
| "type_name (JFloat _ _) = ''float''"
| "type_name (JStr _) = ''str''"
| "type_name (JArr _) = ''list''"
| "type_name (JObj _) = ''dict''"

definition quoted_type :: "json \<Rightarrow> string" where
  "quoted_type j = [char_of (39::nat)] @ type_name j @ [char_of (39::nat)]"

text \<open>x.get(key, default): only a dict has it.\<close>

fun json_get :: "json \<Rightarrow> string \<Rightarrow> json \<Rightarrow> json res" where
  "json_get (JObj d) k dflt = Inr (case map_of d k of Some v \<Rightarrow> v | None \<Rightarrow> dflt)"
| "json_get j k dflt =
     Inl (Exn AttributeError (quoted_type j @ '' object has no attribute '' @ py_repr ''get''))"

text \<open>x[key] with a str key.\<close>

fun json_item :: "json \<Rightarrow> string \<Rightarrow> json res" where
  "json_item (JObj d) k = dict_item d k"
| "json_item (JArr _) k = Inl (Exn TypeError ''list indices must be integers or slices, not str'')"
| "json_item (JStr _) k = Inl (Exn TypeError (''string indices must be integers, not '' @ py_repr ''str''))"
| "json_item j k = Inl (Exn TypeError (quoted_type j @ '' object is not subscriptable''))"

text \<open>for y in x.\<close>

fun json_iter :: "json \<Rightarrow> json list res" where
  "json_iter (JArr xs) = Inr xs"
| "json_iter (JObj d) = Inr (map (\<lambda>kv. JStr (fst kv)) d)"
| "json_iter (JStr s) = Inr (map (\<lambda>ch. JStr [ch]) s)"
| "json_iter j = Inl (Exn TypeError (quoted_type j @ '' object is not iterable''))"

text \<open>str(x) and repr(x).\<close>

fun json_repr :: "json \<Rightarrow> string" where
  "json_repr JNull = ''None''"
| "json_repr (JBool b) = (if b then ''True'' else ''False'')"
| "json_repr (JInt i) = int_str i"
| "json_repr (JFloat q r) = r"
| "json_repr (JStr s) = py_repr s"
| "json_repr (JArr xs) = ''['' @ join '', '' (map json_repr xs) @ '']''"
| "json_repr (JObj d) = ''{'' @ join '', '' (map (\<lambda>kv. py_repr (fst kv) @ '': '' @ json_repr (snd kv)) d) @ ''}''"

fun json_str :: "json \<Rightarrow> string" where
  "json_str (JStr s) = s"
| "json_str j = json_repr j"

text \<open>int(x); a float is truncated towards zero.\<close>

definition rat_trunc :: "rat \<Rightarrow> int" where
  "rat_trunc q = (if 0 \<le> q then \<lfloor>q\<rfloor> else \<lceil>q\<rceil>)"

fun json_int :: "json \<Rightarrow> int res" where
  "json_int (JInt i) = Inr i"
| "json_int (JBool b) = Inr (if b then 1 else 0)"
| "json_int (JFloat q r) = Inr (rat_trunc q)"
| "json_int (JStr s) = py_int s"
| "json_int j = Inl (Exn TypeError
     (''int() argument must be a string, a bytes-like object or a real number, not '' @ quoted_type j))"

fun json_true :: "json \<Rightarrow> bool" where
  "json_true JNull = False"
| "json_true (JBool b) = b"
| "json_true (JInt i) = (i \<noteq> 0)"
| "json_true (JFloat q r) = (q \<noteq> 0)"
| "json_true (JStr s) = (s \<noteq> [])"
| "json_true (JArr xs) = (xs \<noteq> [])"
| "json_true (JObj d) = (d \<noteq> [])"

subsection \<open>The encoder\<close>

text \<open>A character of a JSON string literal under ensure_ascii.\<close>

definition json_chr :: "char \<Rightarrow> string" where
  "json_chr ch = (let n = (of_char ch :: nat); bs = char_of (92::nat) in
     if n = 34 then [bs, char_of (34::nat)]
     else if n = 92 then [bs, bs]
     else if n = 8 then [bs, CHR ''b'']
     else if n = 9 then [bs, CHR ''t'']
     else if n = 10 then [bs, CHR ''n'']
     else if n = 12 then [bs, CHR ''f'']
     else if n = 13 then [bs, CHR ''r'']
     else if n < 32 \<or> 127 \<le> n
       then [bs, CHR ''u'', CHR ''0'', CHR ''0'', hex_digit (n div 16), hex_digit (n mod 16)]
     else [ch])"

definition json_quote :: "string \<Rightarrow> string" where
  "json_quote s = [char_of (34::nat)] @ concat (map json_chr s) @ [char_of (34::nat)]"

fun dumps :: "json \<Rightarrow> string" where
  "dumps JNull = ''null''"
| "dumps (JBool b) = (if b then ''true'' else ''false'')"
| "dumps (JInt i) = int_str i"
| "dumps (JFloat q r) = r"
| "dumps (JStr s) = json_quote s"
| "dumps (JArr xs) = ''['' @ join '','' (map dumps xs) @ '']''"
| "dumps (JObj d) = ''{'' @ join '','' (map (\<lambda>kv. json_quote (fst kv) @ '':'' @ dumps (snd kv)) d) @ ''}''"

text \<open>A dict of strings as JSON.\<close>

definition str_obj :: "(string, string) dict \<Rightarrow> json" where
  "str_obj d = JObj (map (\<lambda>kv. (fst kv, JStr (snd kv))) d)"

text \<open>No literal newline ever appears in a string literal of the encoder.\<close>

lemma hex_digit_printable: "d < 16 \<Longrightarrow> 48 \<le> (of_char (hex_digit d) :: nat)"
  by (simp add: hex_digit_def)

lemma json_chr_no_newline: "of_char ch = (10::nat) \<Longrightarrow> ch \<notin> set (json_chr x)"
proof -
  assume n: "of_char ch = (10::nat)"
  have h: "\<And>d. d < 16 \<Longrightarrow> hex_digit d \<noteq> ch"
    using n by (auto dest!: hex_digit_printable)
  have "(of_char x :: nat) < 16 * 16" using nat_of_char_less_256 [of x] by simp
  then have "(of_char x :: nat) div 16 < 16" by (rule less_mult_imp_div_less)
  moreover have "(of_char x :: nat) mod 16 < 16" by simp
  ultimately have "hex_digit (of_char x div 16) \<noteq> ch" "hex_digit (of_char x mod 16) \<noteq> ch"
    by (simp_all add: h)
  with n show ?thesis by (auto simp: json_chr_def Let_def)
qed

end
