(* ===== verification/Floats.thy ===== *)
theory Floats
  imports Json
begin

text \<open>
  The binary64 arithmetic behind int(d.timestamp() * 1_000_000), the conversion of an instant
  to microseconds in ingest/connectors/coinbase.py and awsnative/enrichment/collect.py:
  round-to-nearest-even to 53 significant bits on positive rationals (without the limits of
  the exponent, which these values do not come near).
\<close>

definition round_half_even :: "rat \<Rightarrow> int" where
  "round_half_even q = (let f = \<lfloor>q\<rfloor>; r = q - of_int f in
     if r < 1 / 2 then f else if 1 / 2 < r then f + 1 else if even f then f else f + 1)"

function fl :: "rat \<Rightarrow> rat" where
  "fl q = (if q \<le> 0 then 0
     else if q < 2 ^ 52 then fl (2 * q) / 2
     else if 2 ^ 53 \<le> q then 2 * fl (q / 2)
     else of_int (round_half_even q))"
  by pat_completeness auto

definition fl_size :: "rat \<Rightarrow> nat" where
  "fl_size q = (if q < 2 ^ 52 then nat \<lceil>2 ^ 53 / q\<rceil> else nat \<lceil>q / 2 ^ 52\<rceil>)"

lemma ceil_half: "2 \<le> x \<Longrightarrow> nat \<lceil>x / 2\<rceil> < nat \<lceil>x :: rat\<rceil>"
proof -
  assume "2 \<le> x"
  then have "x / 2 \<le> x - 1" by simp
  then have "\<lceil>x / 2\<rceil> \<le> \<lceil>x - 1\<rceil>" by (rule ceiling_mono)
  then have "\<lceil>x / 2\<rceil> < \<lceil>x\<rceil>" by simp
  moreover have "0 < \<lceil>x\<rceil>" using \<open>2 \<le> x\<close> by simp
  ultimately show ?thesis by simp
qed

termination fl
proof (relation "measure fl_size", simp, goal_cases)
  case (1 q)
  then have q: "0 < q" "q < 2 ^ 52" by auto
  then have lt: "2 < 2 ^ 53 / q" by (simp add: pos_less_divide_eq)
  show ?case
  proof (cases "2 * q < 2 ^ 52")
    case True
    have "2 ^ 53 / (2 * q) = 2 ^ 53 / q / 2" by simp
    with True q ceil_half [of "2 ^ 53 / q"] lt show ?thesis by (simp add: fl_size_def)
  next
    case False
    have "2 * q / 2 ^ 52 \<le> 2" using q by simp
    then have "\<lceil>2 * q / 2 ^ 52\<rceil> \<le> 2" by (simp add: ceiling_le_iff)
    moreover have "2 < \<lceil>2 ^ 53 / q\<rceil>" using lt by (simp add: less_ceiling_iff)
    ultimately have "nat \<lceil>2 * q / 2 ^ 52\<rceil> < nat \<lceil>2 ^ 53 / q\<rceil>" by linarith
    with False q show ?thesis by (simp add: fl_size_def)
  qed
next
  case (2 q)
  then have q: "2 ^ 53 \<le> q" by auto
  then have "2 \<le> q / 2 ^ 52" by (simp add: pos_le_divide_eq)
  from ceil_half [OF this] q show ?case by (simp add: fl_size_def)
qed

declare fl.simps [simp del]

text \<open>
  int(d.timestamp() * 1_000_000), from the exact instant u in microseconds: the true division
  of timestamp(), the product, the truncation.
\<close>

definition fl_signed :: "rat \<Rightarrow> rat" where
  "fl_signed q = (if q < 0 then - fl (- q) else fl q)"

definition timestamp_to_us :: "int \<Rightarrow> int" where
  "timestamp_to_us u = rat_trunc (fl_signed (fl_signed (of_int u / 1000000) * 1000000))"

subsection \<open>Rounding\<close>

lemma round_half_even_near: "\<bar>q - of_int i\<bar> < 1 / 2 \<Longrightarrow> round_half_even q = i"
proof -
  assume a: "\<bar>q - of_int i\<bar> < 1 / 2"
  show ?thesis
  proof (cases "of_int i \<le> q")
    case True
    with a have "\<lfloor>q\<rfloor> = i" by (intro floor_unique) auto
    with True a show ?thesis by (simp add: round_half_even_def Let_def)
  next
    case False
    with a have "\<lfloor>q\<rfloor> = i - 1" by (intro floor_unique) auto
    with False a show ?thesis by (simp add: round_half_even_def Let_def)
  qed
qed

lemma round_half_even_err: "\<bar>of_int (round_half_even q) - q\<bar> \<le> 1 / 2"
proof -
  have "of_int \<lfloor>q\<rfloor> \<le> q" and "q < of_int \<lfloor>q\<rfloor> + 1" by linarith+
  then show ?thesis by (auto simp: round_half_even_def Let_def)
qed

lemma fl_nonneg: "0 \<le> fl q"
proof (induction q rule: fl.induct)
  case (1 q)
  have "0 \<le> round_half_even q" if "0 < q"
    using that zero_le_floor [of q] by (auto simp: round_half_even_def Let_def)
  with 1 show ?case by (subst fl.simps) auto
qed

lemma timestamp_to_us_pos: "0 \<le> u \<Longrightarrow> timestamp_to_us u = \<lfloor>fl (fl (of_int u / 1000000) * 1000000)\<rfloor>"
  by (simp add: timestamp_to_us_def fl_signed_def rat_trunc_def not_less fl_nonneg leD [OF fl_nonneg])

text \<open>Below 2 ^ 53 the result is a multiple of the unit in the last place, 1 / 2 ^ n.\<close>

lemma fl_scaled:
  "2 ^ 52 \<le> q * 2 ^ n \<Longrightarrow> q * 2 ^ n < 2 ^ 53 \<Longrightarrow> fl q = of_int (round_half_even (q * 2 ^ n)) / 2 ^ n"
proof (induction n arbitrary: q)
  case 0
  then show ?case by (subst fl.simps) auto
next
  case (Suc n)
  have pos: "0 < q"
    using Suc.prems(1) by (metis (no_types) mult_pos_pos not_less zero_less_power zero_less_numeral
        mult_nonpos_nonneg order.trans less_le_trans order_less_imp_le)
  have "q * 2 \<le> q * 2 ^ Suc n" using pos by simp
  with Suc.prems(2) have "q < 2 ^ 52" by simp
  with pos have "fl q = fl (2 * q) / 2" by (subst fl.simps) auto
  moreover have "fl (2 * q) = of_int (round_half_even (2 * q * 2 ^ n)) / 2 ^ n"
    by (rule Suc.IH) (use Suc.prems in \<open>simp_all add: mult.assoc mult.left_commute\<close>)
  moreover have "2 * q * 2 ^ n = q * 2 ^ Suc n" by simp
  ultimately show ?case by (simp only: power_Suc divide_divide_eq_left mult.commute [of 2])
qed

lemma fl_scaled_err:
  assumes "2 ^ 52 \<le> q * 2 ^ n" and "q * 2 ^ n < 2 ^ 53"
  shows "\<bar>fl q - q\<bar> \<le> 1 / 2 ^ Suc n"
proof -
  have "fl q - q = (of_int (round_half_even (q * 2 ^ n)) - q * 2 ^ n) / 2 ^ n"
    by (simp add: fl_scaled [OF assms] field_simps)
  then have "\<bar>fl q - q\<bar> = \<bar>of_int (round_half_even (q * 2 ^ n)) - q * 2 ^ n\<bar> / 2 ^ n"
    by (simp add: abs_divide)
  also have "\<dots> \<le> (1 / 2) / 2 ^ n"
    by (intro divide_right_mono round_half_even_err) simp
  finally show ?thesis by simp
qed

subsection \<open>Properties\<close>

text \<open>
  The float detour is exact where it is used: for every instant later than
  2 ^ 50 microseconds (September 2005) and before 2 ^ 31 seconds (January 2038) after the
  epoch, the two roundings and the truncation give back the exact number of microseconds.
\<close>

theorem timestamp_to_us_exact:
  assumes "2 ^ 50 < u" and "u < 2 ^ 31 * 1000000"
  shows "timestamp_to_us u = u"
proof -
  let ?s = "of_int u / 1000000 :: rat"
  have "(of_int (2 ^ 50 + 1) :: rat) \<le> of_int u" and "(of_int u :: rat) < of_int (2 ^ 31 * 1000000)"
    using assms by (simp_all only: of_int_le_iff of_int_less_iff)
  then have lo: "1125899906842625 \<le> (of_int u :: rat)" and hi: "(of_int u :: rat) < 2147483648000000"
    by simp_all
  have err: "\<bar>fl ?s - ?s\<bar> \<le> 1 / 2 ^ Suc 22"
    by (rule fl_scaled_err) (use lo hi in simp_all)
  have "fl ?s - ?s \<le> \<bar>fl ?s - ?s\<bar>" and "?s - fl ?s \<le> \<bar>fl ?s - ?s\<bar>" by linarith+
  with err have "fl ?s - ?s \<le> 1 / 2 ^ Suc 22" and "?s - fl ?s \<le> 1 / 2 ^ Suc 22" by linarith+
  then have near: "fl ?s * 1000000 - of_int u < 1 / 8" "of_int u - fl ?s * 1000000 < 1 / 8"
    by simp_all
  have "fl (fl ?s * 1000000) = of_int (round_half_even (fl ?s * 1000000 * 2 ^ 2)) / 2 ^ 2"
  proof (rule fl_scaled)
    show "2 ^ 52 \<le> fl ?s * 1000000 * 2 ^ 2" using lo near by simp
    show "fl ?s * 1000000 * 2 ^ 2 < 2 ^ 53" using hi near by simp
  qed
  moreover have "round_half_even (fl ?s * 1000000 * 2 ^ 2) = 4 * u"
  proof (rule round_half_even_near)
    have "fl ?s * 1000000 * 2 ^ 2 - of_int (4 * u) < 1 / 2" and "of_int (4 * u) - fl ?s * 1000000 * 2 ^ 2 < 1 / 2"
      using near by simp_all
    then show "\<bar>fl ?s * 1000000 * 2 ^ 2 - of_int (4 * u)\<bar> < 1 / 2" by linarith
  qed
  moreover have "0 \<le> u" using assms(1) by simp
  ultimately show ?thesis by (simp add: timestamp_to_us_pos)
qed

theorem timestamp_to_us_exact_witness: "timestamp_to_us 1786752000286442 = 1786752000286442"
  by (rule timestamp_to_us_exact) simp_all

text \<open>
  Past that range the detour can lose a microsecond: three microseconds after
  2 ^ 31 seconds (January 2038) the conversion answers one microsecond too early.
\<close>

theorem timestamp_to_us_drifts_after_2038:
  "timestamp_to_us 2147483648000003 = 2147483648000002"
proof -
  have "fl (2147483648000003 / 1000000) = of_int (round_half_even (2147483648000003 / 1000000 * 2 ^ 21)) / 2 ^ 21"
    by (rule fl_scaled) simp_all
  moreover have "round_half_even (2147483648000003 / 1000000 * 2 ^ 21) = 4503599627370502"
    by (rule round_half_even_near) simp
  ultimately have x: "fl (2147483648000003 / 1000000) = 4503599627370502 / 2 ^ 21" by simp
  have "fl (4503599627370502 / 2 ^ 21 * 1000000) =
      of_int (round_half_even (4503599627370502 / 2 ^ 21 * 1000000 * 2 ^ 2)) / 2 ^ 2"
    by (rule fl_scaled) simp_all
  also have "round_half_even (4503599627370502 / 2 ^ 21 * 1000000 * 2 ^ 2) = 8589934592000011"
    by (rule round_half_even_near) simp
  finally have "fl (fl (of_int 2147483648000003 / 1000000) * 1000000) = 8589934592000011 / 2 ^ 2"
    by (simp only: x of_int_numeral of_int_numeral [where 'a = rat])
  moreover have "\<lfloor>8589934592000011 / 2 ^ 2 :: rat\<rfloor> = 2147483648000002" by (rule floor_unique) simp_all
  moreover have "timestamp_to_us 2147483648000003 = \<lfloor>fl (fl (of_int 2147483648000003 / 1000000) * 1000000)\<rfloor>"
    by (rule timestamp_to_us_pos) simp
  ultimately show ?thesis by (simp only:)
qed

end
