(* ===== verification/Ratelimit.thy ===== *)
theory Ratelimit
  imports Prelude Complex_Main
begin

text \<open>
  Token buckets, ingest/core/ratelimit.py. Each operation takes the readings of the injected
  clock it makes; acquire takes one pair of readings per turn of its loop (the one of
  try_acquire and the one of the second _refill) and returns None while the readings do not
  get it to its return. Floats are modelled as rationals, with exact arithmetic.
\<close>

record bucket =
  rate_per_sec :: rat
  capacity :: rat
  b_tokens :: rat
  b_updated :: rat

definition new_bucket :: "rat \<Rightarrow> rat \<Rightarrow> rat \<Rightarrow> bucket" where
  "new_bucket rate cap now =
     \<lparr>rate_per_sec = rate, capacity = cap, b_tokens = cap, b_updated = now\<rparr>"

definition refill :: "bucket \<Rightarrow> rat \<Rightarrow> bucket" where
  "refill b current =
     (let elapsed = current - b_updated b
      in b\<lparr>b_updated := current,
           b_tokens := min (capacity b) (b_tokens b + elapsed * rate_per_sec b)\<rparr>)"

definition try_acquire :: "bucket \<Rightarrow> rat \<Rightarrow> rat \<Rightarrow> bool \<times> bucket" where
  "try_acquire b now n =
     (let b1 = refill b now
      in if n \<le> b_tokens b1 then (True, b1\<lparr>b_tokens := b_tokens b1 - n\<rparr>) else (False, b1))"

definition acquire_sleep :: "bucket \<Rightarrow> rat \<Rightarrow> rat" where
  "acquire_sleep b n = (let deficit = n - b_tokens b in max (deficit / rate_per_sec b) (1 / 1000))"

fun acquire :: "bucket \<Rightarrow> rat \<Rightarrow> (rat \<times> rat) list \<Rightarrow> (bucket \<times> rat list) option" where
  "acquire b n [] = None"
| "acquire b n ((t1, t2) # ts) =
     (let (ok, b1) = try_acquire b t1 n
      in if ok then Some (b1, [])
         else (let b2 = refill b1 t2; d = acquire_sleep b2 n
               in map_option (\<lambda>(b', ds). (b', d # ds)) (acquire b2 n ts)))"

text \<open>The published limits and the cache of buckets, one per venue.\<close>

definition rates :: "(string, rat \<times> rat) dict" where
  "rates = [(''binance'', (10, 20)), (''coinbase'', (8, 10)), (''kraken'', (1, 1))]"

definition bucket_for :: "(string \<Rightarrow> bucket option) \<Rightarrow> string \<Rightarrow> rat
    \<Rightarrow> bucket res \<times> (string \<Rightarrow> bucket option)" where
  "bucket_for cache venue now = (case cache venue of
     Some b \<Rightarrow> (Inr b, cache)
   | None \<Rightarrow> (case map_of rates venue of
        None \<Rightarrow> (Inl (Exn KeyError (py_repr (''no rate limit configured for venue '' @ py_repr venue))), cache)
      | Some (rate, cap) \<Rightarrow>
          let b = new_bucket rate cap now in (Inr b, cache(venue \<mapsto> b))))"

subsection \<open>The bucket invariant\<close>

definition bucket_ok :: "bucket \<Rightarrow> bool" where
  "bucket_ok b \<longleftrightarrow> 0 < rate_per_sec b \<and> 0 \<le> b_tokens b \<and> b_tokens b \<le> capacity b"

lemma new_bucket_ok: "0 < rate \<Longrightarrow> 0 \<le> cap \<Longrightarrow> bucket_ok (new_bucket rate cap now)"
  by (simp add: bucket_ok_def new_bucket_def)

lemma refill_fields [simp]:
  "rate_per_sec (refill b t) = rate_per_sec b" "capacity (refill b t) = capacity b"
  "b_updated (refill b t) = t"
  "b_tokens (refill b t) = min (capacity b) (b_tokens b + (t - b_updated b) * rate_per_sec b)"
  by (simp_all add: refill_def Let_def)

lemma refill_gain: "bucket_ok b \<Longrightarrow> b_updated b \<le> t \<Longrightarrow> b_tokens b \<le> b_tokens (refill b t)"
  by (simp add: bucket_ok_def)

lemma refill_ok: "bucket_ok b \<Longrightarrow> b_updated b \<le> t \<Longrightarrow> bucket_ok (refill b t)"
  using refill_gain [of b t] by (simp add: bucket_ok_def del: refill_fields(4)) simp

lemma try_acquire_frame:
  assumes "try_acquire b t n = (ok, b')"
  shows "rate_per_sec b' = rate_per_sec b" and "capacity b' = capacity b" and "b_updated b' = t"
  using assms by (auto simp: try_acquire_def Let_def split: if_splits)

lemma try_acquire_ok:
  "bucket_ok b \<Longrightarrow> b_updated b \<le> t \<Longrightarrow> 0 \<le> n \<Longrightarrow> try_acquire b t n = (ok, b') \<Longrightarrow> bucket_ok b'"
  using refill_ok [of b t]
  by (auto simp: try_acquire_def Let_def bucket_ok_def split: if_splits)

text \<open>The account of one call: what is granted comes out of the tokens and the time elapsed.\<close>

lemma try_acquire_account:
  assumes "try_acquire b t n = (ok, b')"
  shows "(if ok then n else 0) + b_tokens b' \<le> b_tokens b + (t - b_updated b) * rate_per_sec b"
  using assms by (auto simp: try_acquire_def Let_def split: if_splits)

subsection \<open>Runs of calls\<close>

text \<open>A sequence of try_acquire calls, each with its clock reading: the total granted.\<close>

fun granted :: "bucket \<Rightarrow> (rat \<times> rat) list \<Rightarrow> rat \<times> bucket" where
  "granted b [] = (0, b)"
| "granted b ((t, n) # cs) =
     (let (ok, b1) = try_acquire b t n; (g, b2) = granted b1 cs
      in ((if ok then n else 0) + g, b2))"

fun in_order :: "rat \<Rightarrow> (rat \<times> rat) list \<Rightarrow> bool" where
  "in_order t0 [] = True"
| "in_order t0 ((t, n) # cs) = (t0 \<le> t \<and> 0 \<le> n \<and> in_order t cs)"

lemma granted_account:
  "bucket_ok b \<Longrightarrow> in_order (b_updated b) cs \<Longrightarrow> granted b cs = (g, b') \<Longrightarrow>
   g + b_tokens b' \<le> b_tokens b + (b_updated b' - b_updated b) * rate_per_sec b \<and>
   bucket_ok b' \<and> rate_per_sec b' = rate_per_sec b \<and> capacity b' = capacity b"
proof (induction cs arbitrary: b g)
  case (Cons c cs)
  obtain t n where c: "c = (t, n)" by (cases c)
  obtain ok b1 where s: "try_acquire b t n = (ok, b1)" by (cases "try_acquire b t n")
  obtain g1 where r: "granted b1 cs = (g1, b')" "g = (if ok then n else 0) + g1"
    using Cons.prems(3) c s by (auto split: prod.splits)
  note f = try_acquire_frame [OF s]
  have "bucket_ok b1" using try_acquire_ok [OF _ _ _ s] Cons.prems c by simp
  with Cons.IH [OF _ _ r(1)] Cons.prems(2) c f
  have "g1 + b_tokens b' \<le> b_tokens b1 + (b_updated b' - t) * rate_per_sec b"
    and "bucket_ok b' \<and> rate_per_sec b' = rate_per_sec b \<and> capacity b' = capacity b" by auto
  moreover have "(if ok then n else 0) + b_tokens b1 \<le> b_tokens b + (t - b_updated b) * rate_per_sec b"
    by (rule try_acquire_account [OF s])
  ultimately show ?case using r(2) by (simp add: algebra_simps)
qed auto

subsection \<open>acquire\<close>

text \<open>
  What asyncio.sleep and a monotonic clock promise about the readings: they do not go back,
  and the reading after a sleep is at least the sleep later.
\<close>

fun honoured :: "bucket \<Rightarrow> rat \<Rightarrow> (rat \<times> rat) list \<Rightarrow> bool" where
  "honoured b n [] = True"
| "honoured b n ((t1, t2) # ts) =
     (b_updated b \<le> t1 \<and> t1 \<le> t2 \<and>
      (let b2 = refill (refill b t1) t2
       in (case ts of [] \<Rightarrow> True | (u1, _) # _ \<Rightarrow> t2 + acquire_sleep b2 n \<le> u1) \<and> honoured b2 n ts))"

lemma after_sleep_enough:
  assumes "bucket_ok b" and "n \<le> capacity b" and "b_updated b + acquire_sleep b n \<le> t"
  shows "n \<le> b_tokens (refill b t)"
proof -
  have r: "0 < rate_per_sec b" using assms(1) by (simp add: bucket_ok_def)
  have "(n - b_tokens b) / rate_per_sec b \<le> t - b_updated b"
    using assms(3) by (simp add: acquire_sleep_def Let_def)
  with r have "n - b_tokens b \<le> (t - b_updated b) * rate_per_sec b"
    by (simp add: pos_divide_le_eq)
  with assms(2) show ?thesis by simp
qed

lemma acquire_two_turns:
  assumes "bucket_ok b" and "n \<le> capacity b" and "honoured b n (p # q # ts)"
  shows "\<exists>b' ds. acquire b n (p # q # ts) = Some (b', ds) \<and> length ds \<le> 1"
proof -
  obtain t1 t2 u1 u2 where pq: "p = (t1, t2)" "q = (u1, u2)" by (cases p; cases q)
  let ?b2 = "refill (refill b t1) t2"
  show ?thesis
  proof (cases "n \<le> b_tokens (refill b t1)")
    case True
    with pq show ?thesis by (simp add: try_acquire_def Let_def del: refill_fields(4))
  next
    case False
    from assms(3) pq have h: "b_updated b \<le> t1" "t1 \<le> t2" "t2 + acquire_sleep ?b2 n \<le> u1"
      by (auto simp: Let_def)
    have ok: "bucket_ok ?b2" using h assms(1) by (intro refill_ok) auto
    have "n \<le> b_tokens (refill ?b2 u1)"
      by (rule after_sleep_enough [OF ok]) (use assms(2) h in auto)
    with False pq show ?thesis
      by (simp add: try_acquire_def Let_def del: refill_fields(4))
  qed
qed

lemma acquire_never: "capacity b < n \<Longrightarrow> acquire b n ts = None"
proof (induction ts arbitrary: b)
  case (Cons p ts)
  obtain t1 t2 where p: "p = (t1, t2)" by (cases p)
  have "\<not> n \<le> b_tokens (refill b t1)" using Cons.prems by auto
  with Cons p show ?case by (simp add: try_acquire_def Let_def del: refill_fields(4))
qed simp

subsection \<open>Properties\<close>

text \<open>
  Property C8. The venue's budget is never exceeded: whatever calls are made, with whatever
  token counts, over any stretch of a monotonic clock, what try_acquire grants is at most the
  capacity plus the rate times the time elapsed, and the bucket stays between 0 and capacity.
\<close>

theorem token_bucket_rate_bound:
  assumes "bucket_ok b" and "in_order (b_updated b) cs" and "granted b cs = (g, b')"
  shows "g \<le> capacity b + rate_per_sec b * (b_updated b' - b_updated b) \<and>
    0 \<le> b_tokens b' \<and> b_tokens b' \<le> capacity b"
  using granted_account [OF assms] assms(1) by (auto simp: bucket_ok_def algebra_simps)

theorem token_bucket_rate_bound_witness:
  "fst (granted (new_bucket 1 1 0) [(0, 1), (1/2, 1), (1, 1)]) = 2 \<and> (2::rat) \<le> 1 + 1 * (1 - 0)"
  using token_bucket_rate_bound [of "new_bucket 1 1 0" "[(0, 1), (1/2, 1), (1, 1)]" 2
    "\<lparr>rate_per_sec = 1, capacity = 1, b_tokens = 0, b_updated = 1\<rparr>"]
  by (simp add: bucket_ok_def new_bucket_def try_acquire_def refill_def)

text \<open>
  acquire returns exactly when it can: with a clock that honours its sleeps, a
  request within the capacity is granted after at most one sleep, and a request above the
  capacity is never granted, however long the caller waits.
\<close>

theorem acquire_returns_iff_within_capacity:
  assumes "bucket_ok b" and "honoured b n ts" and "2 \<le> length ts"
  shows "(\<exists>b' ds. acquire b n ts = Some (b', ds) \<and> length ds \<le> 1) \<longleftrightarrow> n \<le> capacity b"
proof (cases "n \<le> capacity b")
  case True
  from assms(3) obtain p q us where "ts = p # q # us"
    by (auto simp: Suc_le_length_iff numeral_2_eq_2)
  with True assms show ?thesis using acquire_two_turns by blast
next
  case False
  then show ?thesis by (simp add: acquire_never)
qed

theorem acquire_returns_iff_within_capacity_witness:
  "(\<exists>b' ds. acquire (new_bucket 1 1 0) 1 [(0, 0), (1, 1)] = Some (b', ds) \<and> length ds \<le> 1)
     \<longleftrightarrow> 1 \<le> capacity (new_bucket 1 1 0)"
  by (rule acquire_returns_iff_within_capacity)
    (simp_all add: bucket_ok_def new_bucket_def refill_def acquire_sleep_def)

end
