(* ===== verification/Connectors.thy ===== *)
theory Connectors
  imports Gaps Instruments Json Floats Ratelimit
begin

text \<open>
  The venue connectors: ingest/connectors/base.py (the protocol, as a locale), binance.py and
  coinbase.py. Parameters of the model: loads is json.loads, from_iso is datetime.fromisoformat
  followed by the exact instant in microseconds, fetch is httpx's get with raise_for_status
  and json(), clk i is the reading of time.time_ns() // 1000 for the i-th row of a call. A repair
  returns the requests it makes and the rate limiter waits before them, in order, beside its
  result; the log lines are left out.
\<close>

datatype arg = AText string | ANum int

datatype io_act = Acquire string | Get string "(string \<times> arg) list"

type_synonym fetcher = "string \<Rightarrow> (string \<times> arg) list \<Rightarrow> json res"

text \<open>except (KeyError, ValueError).\<close>

definition is_malformed :: "exn \<Rightarrow> bool" where
  "is_malformed e \<longleftrightarrow> exn_kind e = KeyError \<or> is_value_error (exn_kind e)"

text \<open>
  canonical(venue, x) for a decoded x inside try/except KeyError: None stands for the unmapped
  branch; a list or a dict is not hashable and the TypeError is not caught.
\<close>

fun canonical_or_none :: "instrument_map \<Rightarrow> string \<Rightarrow> json \<Rightarrow> (string \<times> string) option res" where
  "canonical_or_none m v (JStr s) =
     (case canonical m v s of Inr i \<Rightarrow> Inr (Some (s, i)) | Inl e \<Rightarrow> Inr None)"
| "canonical_or_none m v (JArr xs) = Inl (Exn TypeError (''unhashable type: '' @ quoted_type (JArr xs)))"
| "canonical_or_none m v (JObj d) = Inl (Exn TypeError (''unhashable type: '' @ quoted_type (JObj d)))"
| "canonical_or_none m v _ = Inr None"

text \<open>The loops over rows that skip malformed and unmapped ones.\<close>

fun collect_rows :: "(nat \<Rightarrow> 'a \<Rightarrow> trade option res) \<Rightarrow> nat \<Rightarrow> 'a list \<Rightarrow> trade list res" where
  "collect_rows f i [] = Inr []"
| "collect_rows f i (r # rs) = (case f i r of
     Inl e \<Rightarrow> if is_malformed e then collect_rows f (Suc i) rs else Inl e
   | Inr None \<Rightarrow> collect_rows f (Suc i) rs
   | Inr (Some t) \<Rightarrow> rbind (collect_rows f (Suc i) rs) (\<lambda>ts. Inr (t # ts)))"

subsection \<open>Binance\<close>

definition binance :: string where "binance = ''binance''"

definition ws_base :: string where "ws_base = ''wss://stream.binance.com:9443/stream?streams=''"

definition rest_agg_trades :: string where
  "rest_agg_trades = ''https://api.binance.com/api/v3/aggTrades''"

definition max_repair_batch :: int where "max_repair_batch = 1000"

definition binance_stream_url :: "string list \<Rightarrow> string" where
  "binance_stream_url symbols = ws_base @ join ''/'' (map (\<lambda>s. lower s @ ''@aggTrade'') symbols)"

definition binance_subscribe_payloads :: "string list \<Rightarrow> json list" where
  "binance_subscribe_payloads symbols = []"

definition binance_to_trade ::
  "instrument_map \<Rightarrow> int \<Rightarrow> json \<Rightarrow> string option \<Rightarrow> source \<Rightarrow> trade option res" where
  "binance_to_trade m clk data symbol src =
     rbind (case symbol of
         Some s \<Rightarrow> if s \<noteq> [] then Inr (JStr s) else json_item data ''s''
       | None \<Rightarrow> json_item data ''s'') (\<lambda>venue_symbol.
     rbind (canonical_or_none m binance venue_symbol) (\<lambda>mapped. case mapped of
       None \<Rightarrow> Inr None
     | Some (s, instrument_id) \<Rightarrow>
         rbind (json_item data ''a'') (\<lambda>a.
         rbind (json_item data ''T'') (\<lambda>t0. rbind (json_int t0) (\<lambda>ms.
         rbind (json_item data ''p'') (\<lambda>p.
         rbind (json_item data ''q'') (\<lambda>q.
         rbind (json_item data ''m'') (\<lambda>maker.
         rbind (json_int a) (\<lambda>seq.
           Inr (Some \<lparr> t_venue = binance, t_venue_symbol = s, t_instrument_id = instrument_id,
             t_trade_id = json_str a, t_event_ts_us = ms * 1000, t_ingest_ts_us = clk,
             t_price = json_str p, t_size = json_str q,
             t_side = (if json_true maker then SELL else BUY), t_sequence = Some seq,
             t_is_backfill = (src \<noteq> STREAM), t_source = src \<rparr>))))))))))"

definition binance_parse ::
  "(string \<Rightarrow> json res) \<Rightarrow> instrument_map \<Rightarrow> (nat \<Rightarrow> int) \<Rightarrow> string \<Rightarrow> trade list res" where
  "binance_parse loads m clk raw =
     rbind (loads raw) (\<lambda>frame.
     rbind (json_get frame ''data'' frame) (\<lambda>data.
     rbind (json_get data ''e'' JNull) (\<lambda>e.
       if e \<noteq> JStr ''aggTrade'' then Inr []
       else rbind (binance_to_trade m (clk 0) data None STREAM) (\<lambda>t.
         Inr (case t of None \<Rightarrow> [] | Some x \<Rightarrow> [x])))))"

definition binance_params :: "gap \<Rightarrow> (string \<times> arg) list" where
  "binance_params g = [(''symbol'', AText (gap_symbol g)), (''fromId'', ANum (last_seen g + 1)),
     (''limit'', ANum (min max_repair_batch (max (missing_count g) 1)))]"

definition binance_repair_row :: "instrument_map \<Rightarrow> (nat \<Rightarrow> int) \<Rightarrow> gap \<Rightarrow> nat \<Rightarrow> json \<Rightarrow> trade option res" where
  "binance_repair_row m clk g i row =
     rbind (json_item row ''a'') (\<lambda>a. rbind (json_int a) (\<lambda>aid.
       if next_seen g \<le> aid then Inr None
       else binance_to_trade m (clk i) row (Some (gap_symbol g)) REST_REPAIR))"

definition binance_repair ::
  "fetcher \<Rightarrow> instrument_map \<Rightarrow> (nat \<Rightarrow> int) \<Rightarrow> gap \<Rightarrow> io_act list \<times> trade list res" where
  "binance_repair fetch m clk g =
     ([Acquire binance, Get rest_agg_trades (binance_params g)],
      rbind (fetch rest_agg_trades (binance_params g)) (\<lambda>body.
      rbind (json_iter body) (\<lambda>rows. collect_rows (binance_repair_row m clk g) 0 rows)))"

subsection \<open>Coinbase\<close>

definition coinbase :: string where "coinbase = ''coinbase''"

definition sequence_symbol :: string where "sequence_symbol = ''*''"

definition ws_url :: string where "ws_url = ''wss://advanced-trade-ws.coinbase.com''"

definition rest_ticker :: "string \<Rightarrow> string" where
  "rest_ticker product = ''https://api.coinbase.com/api/v3/brokerage/market/products/'' @ product @ ''/ticker''"

definition repair_limit :: int where "repair_limit = 100"

definition coinbase_stream_url :: "string list \<Rightarrow> string" where
  "coinbase_stream_url symbols = ws_url"

definition coinbase_subscribe_payloads :: "string list \<Rightarrow> json list" where
  "coinbase_subscribe_payloads symbols =
     [JObj [(''type'', JStr ''subscribe''), (''channel'', JStr ''market_trades''),
            (''product_ids'', JArr (map JStr symbols))]]"

text \<open>value.replace("Z", "+00:00") and the conversion; only a str has replace with two arguments.\<close>

definition replace_z :: "string \<Rightarrow> string" where
  "replace_z s = concat (map (\<lambda>ch. if ch = CHR ''Z'' then ''+00:00'' else [ch]) s)"

fun rfc3339_to_us :: "(string \<Rightarrow> int res) \<Rightarrow> json \<Rightarrow> int res" where
  "rfc3339_to_us from_iso (JStr s) = rbind (from_iso (replace_z s)) (\<lambda>u. Inr (timestamp_to_us u))"
| "rfc3339_to_us from_iso j =
     Inl (Exn AttributeError (quoted_type j @ '' object has no attribute '' @ py_repr ''replace''))"

definition coinbase_to_trade ::
  "(string \<Rightarrow> int res) \<Rightarrow> instrument_map \<Rightarrow> int \<Rightarrow> json \<Rightarrow> json \<Rightarrow> source \<Rightarrow> trade option res" where
  "coinbase_to_trade from_iso m clk row sequence src =
     rbind (json_item row ''product_id'') (\<lambda>venue_symbol.
     rbind (canonical_or_none m coinbase venue_symbol) (\<lambda>mapped. case mapped of
       None \<Rightarrow> Inr None
     | Some (s, instrument_id) \<Rightarrow>
         rbind (json_item row ''trade_id'') (\<lambda>tid.
         rbind (json_item row ''time'') (\<lambda>t0. rbind (rfc3339_to_us from_iso t0) (\<lambda>us.
         rbind (json_item row ''price'') (\<lambda>p.
         rbind (json_item row ''size'') (\<lambda>q.
         rbind (json_get row ''side'' JNull) (\<lambda>sd.
         rbind (if sd = JStr ''BUY'' then Inr BUY else if sd = JStr ''SELL'' then Inr SELL
                else Inr UNKNOWN) (\<lambda>side.
         rbind (if sequence = JNull then Inr None
                else rbind (json_int sequence) (\<lambda>i. Inr (Some i))) (\<lambda>seq.
           Inr (Some \<lparr> t_venue = coinbase, t_venue_symbol = s, t_instrument_id = instrument_id,
             t_trade_id = json_str tid, t_event_ts_us = us, t_ingest_ts_us = clk,
             t_price = json_str p, t_size = json_str q, t_side = side, t_sequence = seq,
             t_is_backfill = (src \<noteq> STREAM), t_source = src \<rparr>)))))))))))"

fun coinbase_events :: "(nat \<Rightarrow> json \<Rightarrow> trade option res) \<Rightarrow> nat \<Rightarrow> json list \<Rightarrow> trade list res" where
  "coinbase_events f i [] = Inr []"
| "coinbase_events f i (ev # evs) =
     rbind (json_get ev ''trades'' (JArr [])) (\<lambda>ts. rbind (json_iter ts) (\<lambda>rows.
     rbind (collect_rows f i rows) (\<lambda>xs.
     rbind (coinbase_events f (i + length rows) evs) (\<lambda>ys. Inr (xs @ ys)))))"

definition coinbase_parse ::
  "(string \<Rightarrow> json res) \<Rightarrow> (string \<Rightarrow> int res) \<Rightarrow> instrument_map \<Rightarrow> (nat \<Rightarrow> int) \<Rightarrow> string \<Rightarrow> trade list res" where
  "coinbase_parse loads from_iso m clk raw =
     rbind (loads raw) (\<lambda>frame.
     rbind (json_get frame ''channel'' JNull) (\<lambda>channel.
       if channel \<noteq> JStr ''market_trades'' then Inr []
       else rbind (json_get frame ''sequence_num'' JNull) (\<lambda>sequence.
         rbind (json_get frame ''events'' (JArr [])) (\<lambda>evs. rbind (json_iter evs) (\<lambda>events.
           coinbase_events (\<lambda>i row. coinbase_to_trade from_iso m (clk i) row sequence STREAM) 0 events)))))"

text \<open>row.setdefault(key, value).\<close>

fun set_default :: "json \<Rightarrow> string \<Rightarrow> json \<Rightarrow> json res" where
  "set_default (JObj d) k v = Inr (JObj (if map_of d k = None then dict_set k v d else d))"
| "set_default j k v =
     Inl (Exn AttributeError (quoted_type j @ '' object has no attribute '' @ py_repr ''setdefault''))"

text \<open>setdefault stands outside the try: its exception ends the repair.\<close>

fun coinbase_repair_rows ::
  "(nat \<Rightarrow> json \<Rightarrow> trade option res) \<Rightarrow> string \<Rightarrow> nat \<Rightarrow> json list \<Rightarrow> trade list res" where
  "coinbase_repair_rows f product i [] = Inr []"
| "coinbase_repair_rows f product i (r # rs) =
     rbind (set_default r ''product_id'' (JStr product)) (\<lambda>row. case f i row of
       Inl e \<Rightarrow> if is_malformed e then coinbase_repair_rows f product (Suc i) rs else Inl e
     | Inr None \<Rightarrow> coinbase_repair_rows f product (Suc i) rs
     | Inr (Some t) \<Rightarrow> rbind (coinbase_repair_rows f product (Suc i) rs) (\<lambda>ts. Inr (t # ts)))"

definition coinbase_params :: "(string \<times> arg) list" where
  "coinbase_params = [(''limit'', ANum repair_limit)]"

text \<open>The loop over the products: wait, request, convert; an exception ends it.\<close>

fun coinbase_products :: "fetcher \<Rightarrow> (nat \<Rightarrow> json \<Rightarrow> trade option res) \<Rightarrow> nat \<Rightarrow> string list
    \<Rightarrow> io_act list \<times> trade list res" where
  "coinbase_products fetch f i [] = ([], Inr [])"
| "coinbase_products fetch f i (p # ps) =
     (let here = [Acquire coinbase, Get (rest_ticker p) coinbase_params];
          got = rbind (fetch (rest_ticker p) coinbase_params) (\<lambda>body.
            rbind (json_get body ''trades'' (JArr [])) json_iter)
      in case got of
           Inl e \<Rightarrow> (here, Inl e)
         | Inr rows \<Rightarrow> (case coinbase_repair_rows f p i rows of
             Inl e \<Rightarrow> (here, Inl e)
           | Inr ts \<Rightarrow> (case coinbase_products fetch f (i + length rows) ps of
               (acts, r) \<Rightarrow> (here @ acts, rbind r (\<lambda>us. Inr (ts @ us))))))"

definition coinbase_repair :: "fetcher \<Rightarrow> (string \<Rightarrow> int res) \<Rightarrow> instrument_map \<Rightarrow> (nat \<Rightarrow> int) \<Rightarrow> gap
    \<Rightarrow> io_act list \<times> trade list res" where
  "coinbase_repair fetch from_iso m clk g =
     (let products = (if gap_symbol g = sequence_symbol then symbols_for m coinbase
        else [gap_symbol g])
      in coinbase_products fetch
           (\<lambda>i row. coinbase_to_trade from_iso m (clk i) row JNull REST_REPAIR) 0 products)"

subsection \<open>The protocol\<close>

text \<open>What a trade of a connector carries, whatever the venue.\<close>

definition well_tagged :: "string \<Rightarrow> instrument_map \<Rightarrow> source \<Rightarrow> trade \<Rightarrow> bool" where
  "well_tagged v m src t \<longleftrightarrow> t_venue t = v \<and> t_source t = src \<and> t_is_backfill t = (src \<noteq> STREAM) \<and>
     canonical m v (t_venue_symbol t) = Inr (t_instrument_id t)"

text \<open>Every request is directly preceded by a wait on the venue's token bucket.\<close>

fun limited :: "string \<Rightarrow> io_act list \<Rightarrow> bool" where
  "limited v [] = True"
| "limited v (Acquire w # Get u ps # as) = (w = v \<and> limited v as)"
| "limited v _ = False"

lemma limited_append: "limited v as \<Longrightarrow> limited v bs \<Longrightarrow> limited v (as @ bs)"
  by (induction v as rule: limited.induct) auto

locale connector =
  fixes venue :: string and m :: instrument_map
    and parse :: "string \<Rightarrow> trade list res" and repair :: "gap \<Rightarrow> io_act list \<times> trade list res"
  assumes parse_tagged: "parse raw = Inr ts \<Longrightarrow> t \<in> set ts \<Longrightarrow> well_tagged venue m STREAM t"
    and repair_tagged: "snd (repair g) = Inr ts \<Longrightarrow> t \<in> set ts \<Longrightarrow> well_tagged venue m REST_REPAIR t"
    and repair_limited: "limited venue (fst (repair g))"
begin

lemma output_tagged:
  assumes "Inr ts \<in> parse ` raws \<union> (snd \<circ> repair) ` gs" and "t \<in> set ts"
  shows "t_venue t = venue \<and> canonical m venue (t_venue_symbol t) = Inr (t_instrument_id t) \<and>
    (t_is_backfill t \<longleftrightarrow> t_source t = REST_REPAIR) \<and> t_source t \<noteq> ARCHIVE"
proof -
  from assms consider raw where "parse raw = Inr ts" | g where "snd (repair g) = Inr ts" by force
  then show ?thesis
    using parse_tagged repair_tagged assms(2) by cases (fastforce simp: well_tagged_def)+
qed

lemma repairs_limited: "limited venue (concat (map (fst \<circ> repair) gs))"
  by (induction gs) (auto intro: limited_append repair_limited)

end

subsection \<open>Facts\<close>

lemma canonical_or_none_Some:
  "canonical_or_none m v j = Inr (Some p) \<longleftrightarrow> j = JStr (fst p) \<and> canonical m v (fst p) = Inr (snd p)"
  by (cases j) (auto split: sum.splits)

lemma binance_to_trade_tagged:
  "binance_to_trade m clk data symbol src = Inr (Some t) \<Longrightarrow> well_tagged binance m src t"
  by (auto simp: binance_to_trade_def res_simps well_tagged_def canonical_or_none_Some
      split: option.splits)

lemma coinbase_to_trade_tagged:
  "coinbase_to_trade from_iso m clk row sequence src = Inr (Some t) \<Longrightarrow> well_tagged coinbase m src t"
  by (auto simp: coinbase_to_trade_def res_simps well_tagged_def canonical_or_none_Some
      split: option.splits)

lemma collect_rows_set:
  "collect_rows f i rs = Inr ts \<Longrightarrow> t \<in> set ts \<Longrightarrow> \<exists>j r. f j r = Inr (Some t)"
proof (induction f i rs arbitrary: ts rule: collect_rows.induct)
  case (2 f i r rs)
  then show ?case
    by (cases "f i r") (auto simp: res_simps split: if_splits option.splits, blast+)
qed simp

lemma coinbase_events_set:
  "coinbase_events f i evs = Inr ts \<Longrightarrow> t \<in> set ts \<Longrightarrow> \<exists>j r. f j r = Inr (Some t)"
  by (induction f i evs arbitrary: ts rule: coinbase_events.induct)
    (auto simp: res_simps dest: collect_rows_set)

lemma coinbase_repair_rows_set:
  "coinbase_repair_rows f p i rs = Inr ts \<Longrightarrow> t \<in> set ts \<Longrightarrow> \<exists>j r. f j r = Inr (Some t)"
proof (induction f p i rs arbitrary: ts rule: coinbase_repair_rows.induct)
  case (2 f p i r rs)
  then obtain row where row: "set_default r ''product_id'' (JStr p) = Inr row" by (auto simp: res_simps)
  with 2 show ?case
    by (cases "f i row") (auto simp: res_simps split: if_splits option.splits, blast+)
qed simp

lemma coinbase_products_set:
  "snd (coinbase_products fetch f i ps) = Inr ts \<Longrightarrow> t \<in> set ts \<Longrightarrow> \<exists>j r. f j r = Inr (Some t)"
proof (induction fetch f i ps arbitrary: ts rule: coinbase_products.induct)
  case (2 fetch f i p ps)
  then show ?case
    by (auto simp: Let_def res_simps split: sum.splits prod.splits dest: coinbase_repair_rows_set)
qed simp

lemma coinbase_products_limited: "limited coinbase (fst (coinbase_products fetch f i ps))"
  by (induction fetch f i ps rule: coinbase_products.induct)
    (auto simp: Let_def split: sum.splits prod.splits)

lemma binance_parse_trade:
  assumes "binance_parse loads m clk raw = Inr ts" and "t \<in> set ts"
  shows "\<exists>data. binance_to_trade m (clk 0) data None STREAM = Inr (Some t)"
proof -
  from assms(1) obtain data e where
    "(if e \<noteq> JStr ''aggTrade'' then Inr []
      else rbind (binance_to_trade m (clk 0) data None STREAM) (\<lambda>t.
        Inr (case t of None \<Rightarrow> [] | Some x \<Rightarrow> [x]))) = Inr ts"
    unfolding binance_parse_def rbind_Inr_iff by blast
  with assms(2) obtain r where "binance_to_trade m (clk 0) data None STREAM = Inr r"
    "ts = (case r of None \<Rightarrow> [] | Some x \<Rightarrow> [x])"
    by (auto simp: rbind_Inr_iff split: if_splits)
  with assms(2) show ?thesis by (cases r) auto
qed

interpretation bin: connector binance m "binance_parse loads m clk" "binance_repair fetch m clk'"
  for m loads clk fetch clk'
proof
  fix raw ts t g
  show "binance_parse loads m clk raw = Inr ts \<Longrightarrow> t \<in> set ts \<Longrightarrow> well_tagged binance m STREAM t"
    using binance_parse_trade binance_to_trade_tagged by blast
  show "snd (binance_repair fetch m clk' g) = Inr ts \<Longrightarrow> t \<in> set ts \<Longrightarrow> well_tagged binance m REST_REPAIR t"
    by (auto simp: binance_repair_def binance_repair_row_def res_simps split: if_splits
        dest!: collect_rows_set dest: binance_to_trade_tagged)
  show "limited binance (fst (binance_repair fetch m clk' g))"
    by (simp add: binance_repair_def)
qed

interpretation coin: connector coinbase m "coinbase_parse loads from_iso m clk" "coinbase_repair fetch from_iso m clk'"
  for m loads from_iso clk fetch clk'
proof
  fix raw ts t g
  show "coinbase_parse loads from_iso m clk raw = Inr ts \<Longrightarrow> t \<in> set ts \<Longrightarrow> well_tagged coinbase m STREAM t"
    by (auto simp: coinbase_parse_def res_simps split: if_splits
        dest!: coinbase_events_set dest: coinbase_to_trade_tagged)
  show "snd (coinbase_repair fetch from_iso m clk' g) = Inr ts \<Longrightarrow> t \<in> set ts \<Longrightarrow> well_tagged coinbase m REST_REPAIR t"
    by (auto simp: coinbase_repair_def Let_def dest!: coinbase_products_set dest: coinbase_to_trade_tagged)
  show "limited coinbase (fst (coinbase_repair fetch from_iso m clk' g))"
    by (simp add: coinbase_repair_def Let_def coinbase_products_limited)
qed

text \<open>A well-formed aggregate trade: the fields the venue documents.\<close>

definition agg_fields :: "(string, json) dict \<Rightarrow> int \<Rightarrow> int \<Rightarrow> string \<Rightarrow> string \<Rightarrow> bool \<Rightarrow> bool" where
  "agg_fields d a ms p q maker \<longleftrightarrow> map_of d ''a'' = Some (JInt a) \<and> map_of d ''T'' = Some (JInt ms) \<and>
     map_of d ''p'' = Some (JStr p) \<and> map_of d ''q'' = Some (JStr q) \<and> map_of d ''m'' = Some (JBool maker)"

lemma binance_to_trade_fields:
  assumes "agg_fields d a ms p q maker" and "canonical m binance s = Inr i"
    and "symbol = Some s \<and> s \<noteq> [] \<or> symbol = None \<and> map_of d ''s'' = Some (JStr s)"
  shows "binance_to_trade m clk (JObj d) symbol src = Inr (Some
    \<lparr> t_venue = binance, t_venue_symbol = s, t_instrument_id = i, t_trade_id = int_str a,
      t_event_ts_us = ms * 1000, t_ingest_ts_us = clk, t_price = p, t_size = q,
      t_side = (if maker then SELL else BUY), t_sequence = Some a,
      t_is_backfill = (src \<noteq> STREAM), t_source = src \<rparr>)"
  using assms by (auto simp: binance_to_trade_def agg_fields_def dict_item_def)

text \<open>An aggregate trade as the venue has it, the row it sends for one, and what a repair makes of it.\<close>

record venue_agg =
  va_id :: int
  va_time_ms :: int
  va_price :: string
  va_quantity :: string
  va_buyer_is_maker :: bool

definition agg_row :: "venue_agg \<Rightarrow> json \<Rightarrow> bool" where
  "agg_row x r \<longleftrightarrow> (\<exists>d. r = JObj d \<and> agg_fields d (va_id x) (va_time_ms x) (va_price x) (va_quantity x) (va_buyer_is_maker x))"

definition repaired :: "string \<Rightarrow> string \<Rightarrow> int \<Rightarrow> venue_agg \<Rightarrow> trade" where
  "repaired s i clk x = \<lparr> t_venue = binance, t_venue_symbol = s, t_instrument_id = i, t_trade_id = int_str (va_id x),
     t_event_ts_us = va_time_ms x * 1000, t_ingest_ts_us = clk, t_price = va_price x, t_size = va_quantity x,
     t_side = (if va_buyer_is_maker x then SELL else BUY), t_sequence = Some (va_id x),
     t_is_backfill = True, t_source = REST_REPAIR \<rparr>"

definition ascending :: "venue_agg list \<Rightarrow> bool" where
  "ascending xs \<longleftrightarrow> sorted_wrt (\<lambda>x y. va_id x < va_id y) xs"

text \<open>Of rows in ascending order, those below a bound are the first ones.\<close>

lemma ascending_simps [simp]: "ascending []" "ascending (x # xs) \<longleftrightarrow> (\<forall>y\<in>set xs. va_id x < va_id y) \<and> ascending xs"
  by (auto simp: ascending_def)

lemma ascending_filter: "ascending xs \<Longrightarrow> ascending (filter P xs)"
  by (simp add: ascending_def sorted_wrt_filter)

lemma ascending_take: "ascending xs \<Longrightarrow> ascending (take n xs)"
  by (simp add: ascending_def sorted_wrt_take)

lemma below_none: "\<forall>y\<in>set xs. va_id x < va_id y \<Longrightarrow> b \<le> va_id x \<Longrightarrow> filter (\<lambda>y. va_id y < b) xs = []"
  by (auto simp: filter_empty_conv)

lemma take_below: "ascending xs \<Longrightarrow> filter (\<lambda>x. va_id x < b) (take n xs) = take n (filter (\<lambda>x. va_id x < b) xs)"
proof (induction xs arbitrary: n)
  case (Cons x xs)
  show ?case
  proof (cases n)
    case (Suc k)
    have "filter (\<lambda>y. va_id y < b) (take k xs) = []" if "b \<le> va_id x"
      using below_none [of "take k xs" x b] Cons.prems that by (auto dest: in_set_takeD)
    with Suc Cons below_none [of xs x b] show ?thesis by (auto simp: not_less)
  qed simp
qed simp

lemma repair_rows:
  assumes "list_all2 agg_row xs rows" and "ascending xs"
    and "canonical m binance (gap_symbol g) = Inr i" and "gap_symbol g \<noteq> []"
  shows "collect_rows (binance_repair_row m clk g) k rows =
    Inr (map (\<lambda>(j, x). repaired (gap_symbol g) i (clk j) x) (enumerate k (filter (\<lambda>x. va_id x < next_seen g) xs)))"
  using assms(1,2)
proof (induction xs rows arbitrary: k rule: list_all2_induct)
  case (Cons x xs r rows)
  from Cons.hyps(1) obtain d where r: "r = JObj d"
    and d: "agg_fields d (va_id x) (va_time_ms x) (va_price x) (va_quantity x) (va_buyer_is_maker x)"
    by (auto simp: agg_row_def)
  have ih: "collect_rows (binance_repair_row m clk g) (Suc k) rows =
      Inr (map (\<lambda>(j, x). repaired (gap_symbol g) i (clk j) x) (enumerate (Suc k) (filter (\<lambda>x. va_id x < next_seen g) xs)))"
    using Cons.IH Cons.prems by simp
  show ?case
  proof (cases "next_seen g \<le> va_id x")
    case True
    with r d have "binance_repair_row m clk g k r = Inr None"
      by (simp add: binance_repair_row_def dict_item_def agg_fields_def)
    with ih True below_none [of xs x "next_seen g"] Cons.prems show ?thesis by simp
  next
    case False
    have "binance_to_trade m (clk k) (JObj d) (Some (gap_symbol g)) REST_REPAIR = Inr (Some (repaired (gap_symbol g) i (clk k) x))"
      using binance_to_trade_fields [OF d assms(3), of "Some (gap_symbol g)" "clk k" REST_REPAIR] assms(4)
      by (simp add: repaired_def)
    with False r d have "binance_repair_row m clk g k r = Inr (Some (repaired (gap_symbol g) i (clk k) x))"
      by (simp add: binance_repair_row_def dict_item_def agg_fields_def)
    with ih False show ?thesis by simp
  qed
qed simp

text \<open>The ids a gap can hold are as many as it is missing.\<close>

lemma gap_length:
  assumes "ascending xs" and "\<forall>x\<in>set xs. va_id x \<in> gap_ids g"
  shows "int (length xs) \<le> max 0 (missing_count g)"
proof -
  have "distinct (map va_id xs)" using assms(1) by (induction xs) auto
  then have "length xs = card (va_id ` set xs)" by (metis distinct_card length_map set_map)
  also have "\<dots> \<le> card (gap_ids g)" using assms(2) by (intro card_mono) (auto simp: gap_ids_def)
  finally show ?thesis by (simp add: gap_ids_def missing_count_def)
qed

text \<open>Rows of a Coinbase feed that are objects whose named fields, when present, are texts.\<close>

definition text_row :: "json \<Rightarrow> bool" where
  "text_row row \<longleftrightarrow> (\<exists>d. row = JObj d \<and> (\<forall>k\<in>{''product_id'', ''time''}. \<forall>x. map_of d k = Some x \<longrightarrow> (\<exists>s. x = JStr s)))"

definition kept :: "trade option res \<Rightarrow> trade list" where
  "kept r = (case r of Inr (Some t) \<Rightarrow> [t] | _ \<Rightarrow> [])"

lemma text_row_malformed:
  assumes "text_row row" and "\<And>s e. from_iso s = Inl e \<Longrightarrow> exn_kind e = ValueError"
    and "sequence = JNull \<or> (\<exists>i. sequence = JInt i)"
    and "coinbase_to_trade from_iso m clk row sequence src = Inl e"
  shows "is_malformed e"
proof -
  from assms(1) obtain d where d: "row = JObj d"
    "\<And>x. map_of d ''product_id'' = Some x \<Longrightarrow> \<exists>s. x = JStr s"
    "\<And>x. map_of d ''time'' = Some x \<Longrightarrow> \<exists>s. x = JStr s"
    by (auto simp: text_row_def)
  have item: "json_item row k = Inl e' \<Longrightarrow> is_malformed e'" for k e'
    by (auto simp: d(1) dict_item_def is_malformed_def split: option.splits)
  have time: "json_item row ''time'' = Inr x \<Longrightarrow> rfc3339_to_us from_iso x = Inl e' \<Longrightarrow> is_malformed e'" for x e'
    using d assms(2) by (fastforce simp: res_simps is_malformed_def)
  have sym: "json_item row ''product_id'' = Inr x \<Longrightarrow> canonical_or_none m coinbase x = Inl e' \<Longrightarrow> False" for x e'
    using d by (fastforce simp: res_simps split: sum.splits)
  show ?thesis
    using assms(3,4) unfolding coinbase_to_trade_def
    by (auto simp: res_simps d(1) [THEN arg_cong [where f = "\<lambda>x. json_get x ''side'' JNull"]]
        dest: item time sym split: option.splits if_splits)
qed

text \<open>The exceptions of a row that are not caught, and a loop over rows: the first of them, or all that converts.\<close>

definition uncaught :: "trade option res \<Rightarrow> exn option" where
  "uncaught r = (case r of Inl e \<Rightarrow> if is_malformed e then None else Some e | Inr t \<Rightarrow> None)"

definition all_or_first :: "exn list \<Rightarrow> trade list \<Rightarrow> trade list res" where
  "all_or_first es ts = (case es of [] \<Rightarrow> Inr ts | e # _ \<Rightarrow> Inl e)"

lemma all_or_first_bind:
  "rbind (all_or_first es ts) (\<lambda>xs. rbind (all_or_first es' ts') (\<lambda>ys. Inr (xs @ ys))) = all_or_first (es @ es') (ts @ ts')"
  by (auto simp: all_or_first_def split: list.splits)

definition uncaught_of :: "(nat \<Rightarrow> 'a \<Rightarrow> trade option res) \<Rightarrow> (nat \<times> 'a) list \<Rightarrow> exn list" where
  "uncaught_of f rows = List.map_filter (\<lambda>(j, r). uncaught (f j r)) rows"

definition kept_of :: "(nat \<Rightarrow> 'a \<Rightarrow> trade option res) \<Rightarrow> (nat \<times> 'a) list \<Rightarrow> trade list" where
  "kept_of f rows = concat (map (\<lambda>(j, r). kept (f j r)) rows)"

lemma of_append: "uncaught_of f (xs @ ys) = uncaught_of f xs @ uncaught_of f ys" "kept_of f (xs @ ys) = kept_of f xs @ kept_of f ys"
  by (simp_all add: uncaught_of_def kept_of_def List.map_filter_def)

lemma collect_rows_exact: "collect_rows f i rs = all_or_first (uncaught_of f (enumerate i rs)) (kept_of f (enumerate i rs))"
proof (induction rs arbitrary: i)
  case (Cons r rs)
  then show ?case
    by (auto simp: uncaught_of_def kept_of_def uncaught_def kept_def all_or_first_def List.map_filter_simps
        split: sum.splits option.splits list.splits)
qed (simp add: uncaught_of_def kept_of_def all_or_first_def List.map_filter_simps)

text \<open>An event of a frame and its rows; other fields are ignored.\<close>

definition event_rows :: "json \<Rightarrow> json list \<Rightarrow> bool" where
  "event_rows ev rows \<longleftrightarrow> (\<exists>d. ev = JObj d \<and>
     (map_of d ''trades'' = Some (JArr rows) \<or> map_of d ''trades'' = None \<and> rows = []))"

lemma coinbase_events_exact:
  assumes "list_all2 event_rows evs rowss"
  shows "coinbase_events f i evs =
    all_or_first (uncaught_of f (enumerate i (concat rowss))) (kept_of f (enumerate i (concat rowss)))"
  using assms
proof (induction evs rowss arbitrary: i rule: list_all2_induct)
  case Nil
  then show ?case by (simp add: uncaught_of_def kept_of_def all_or_first_def List.map_filter_simps)
next
  case (Cons ev evs rows rowss)
  have "rbind (json_get ev ''trades'' (JArr [])) json_iter = Inr rows"
    using Cons.hyps(1) by (auto simp: event_rows_def)
  then have "coinbase_events f i (ev # evs) = rbind (collect_rows f i rows) (\<lambda>xs.
      rbind (coinbase_events f (i + length rows) evs) (\<lambda>ys. Inr (xs @ ys)))"
    by (auto simp: res_simps)
  then show ?case
    by (simp add: Cons.IH collect_rows_exact all_or_first_bind enumerate_append_eq of_append)
qed

lemma no_uncaught:
  assumes "\<And>j r e. r \<in> set rows \<Longrightarrow> f j r = Inl e \<Longrightarrow> is_malformed e"
  shows "uncaught_of f (enumerate i rows) = []"
proof -
  have "uncaught (f j r) = None" if "(j, r) \<in> set (enumerate i rows)" for j r
  proof -
    have "r \<in> set rows" using that by (metis in_set_zip snd_conv nth_mem enumerate_eq_zip)
    with assms show ?thesis by (auto simp: uncaught_def split: sum.splits)
  qed
  then show ?thesis by (auto simp: uncaught_of_def List.map_filter_def filter_empty_conv)
qed

text \<open>Concrete frames and pages, over the one-entry instrument map of BTC-USD.\<close>

definition btc_map :: instrument_map where
  "btc_map = from_yaml [universe_row ''BTC-USD'' ''BTCUSDT'' ''BTC-USD'']"

definition btc_agg :: "int \<Rightarrow> (string, json) dict" where
  "btc_agg a = [(''a'', JInt a), (''p'', JStr ''63000.10''), (''q'', JStr ''0.5''), (''T'', JInt 1786752000286),
     (''m'', JBool True), (''e'', JStr ''aggTrade''), (''s'', JStr ''BTCUSDT'')]"

definition btc_row :: "json \<Rightarrow> json" where
  "btc_row price = JObj [(''product_id'', JStr ''BTC-USD''), (''trade_id'', JStr ''7''),
     (''time'', JStr ''2026-08-15T00:00:00.286442Z''), (''price'', price), (''size'', JStr ''0.5''), (''side'', JStr ''BUY'')]"

lemma btc_canonical: "canonical btc_map binance ''BTCUSDT'' = Inr ''BTC-USD''"
    "canonical btc_map ''binance'' ''BTCUSDT'' = Inr ''BTC-USD''"
    "canonical btc_map coinbase ''BTC-USD'' = Inr ''BTC-USD''"
  by (simp_all add: btc_map_def from_yaml_def add_entry_def add_symbol_def universe_row_def canonical_def
      binance_def coinbase_def)

lemma btc_agg_fields: "agg_fields (btc_agg a) a 1786752000286 ''63000.10'' ''0.5'' True"
  by (simp add: agg_fields_def btc_agg_def)

subsection \<open>Properties\<close>

text \<open>
  A well-formed Binance frame of a mapped symbol becomes exactly one trade that
  carries its fields verbatim, the event time in microseconds, the aggregate id as trade id and
  sequence number, and the aggressor side: when the buyer was the maker, the seller crossed
  the spread.
\<close>

theorem binance_frame_to_trade:
  assumes "loads raw = Inr (JObj f)" and "map_of f ''data'' = Some (JObj d)"
    and "map_of d ''e'' = Some (JStr ''aggTrade'')" and "map_of d ''s'' = Some (JStr s)"
    and "agg_fields d a ms p q maker" and "canonical m binance s = Inr i"
  shows "binance_parse loads m clk raw = Inr
    [\<lparr> t_venue = ''binance'', t_venue_symbol = s, t_instrument_id = i, t_trade_id = int_str a,
       t_event_ts_us = ms * 1000, t_ingest_ts_us = clk 0, t_price = p, t_size = q,
       t_side = (if maker then SELL else BUY), t_sequence = Some a,
       t_is_backfill = False, t_source = STREAM \<rparr>]"
proof -
  have "binance_to_trade m (clk 0) (JObj d) None STREAM = Inr (Some
    \<lparr> t_venue = binance, t_venue_symbol = s, t_instrument_id = i, t_trade_id = int_str a,
      t_event_ts_us = ms * 1000, t_ingest_ts_us = clk 0, t_price = p, t_size = q,
      t_side = (if maker then SELL else BUY), t_sequence = Some a,
      t_is_backfill = (STREAM \<noteq> STREAM), t_source = STREAM \<rparr>)"
    by (rule binance_to_trade_fields) (use assms in auto)
  with assms show ?thesis by (simp add: binance_parse_def binance_def)
qed

theorem binance_frame_to_trade_witness:
  "\<exists>t. binance_parse (\<lambda>raw. Inr (JObj [(''data'', JObj (btc_agg 41))])) btc_map (\<lambda>i. 0) [] = Inr [t] \<and>
     t_side t = SELL \<and> t_event_ts_us t = 1786752000286000 \<and> t_sequence t = Some 41"
  using binance_frame_to_trade [where f = "[(''data'', JObj (btc_agg 41))]" and d = "btc_agg 41" and s = "''BTCUSDT''"
      and raw = "[]" and loads = "\<lambda>raw. Inr (JObj [(''data'', JObj (btc_agg 41))])",
      OF _ _ _ _ btc_agg_fields btc_canonical(1), of "\<lambda>i. 0"]
  by (simp add: btc_agg_def)

text \<open>
  A venue that answers as documented for the trades it has of a symbol: a request gets those
  with ids from fromId on, in ascending order, as many as there are up to its limit.
\<close>

definition agg_venue :: "fetcher \<Rightarrow> string \<Rightarrow> venue_agg list \<Rightarrow> bool" where
  "agg_venue fetch symbol held \<longleftrightarrow> ascending held \<and> (\<forall>f n. 0 \<le> f \<and> 1 \<le> n \<and> n \<le> 1000 \<longrightarrow> (\<exists>rows.
     fetch rest_agg_trades [(''symbol'', AText symbol), (''fromId'', ANum f), (''limit'', ANum n)] = Inr (JArr rows) \<and>
     list_all2 agg_row (take (nat n) (filter (\<lambda>x. f \<le> va_id x) held)) rows))"

text \<open>
  Property C5. Gap repair on Binance is exact up to its batch limit: against a venue that answers
  with the trades it has from fromId on, up to the limit asked for, a repair gives exactly the
  trades the venue has of the missing ids, in order, each with the venue's fields and marked as a
  repair, and none of what the stream delivered; of more than 1000 such trades it gives the first
  1000.
\<close>

theorem binance_repair_recovers_missing_ids:
  assumes "agg_venue fetch (gap_symbol g) held" and "0 \<le> last_seen g + 1"
    and "canonical m ''binance'' (gap_symbol g) = Inr i" and "gap_symbol g \<noteq> []"
  shows "snd (binance_repair fetch m clk g) = Inr (map (\<lambda>(j, x). repaired (gap_symbol g) i (clk j) x)
    (enumerate 0 (take 1000 (filter (\<lambda>x. last_seen g < va_id x \<and> va_id x < next_seen g) held))))"
proof -
  let ?n = "min 1000 (max (missing_count g) 1)"
  let ?from = "filter (\<lambda>x. last_seen g + 1 \<le> va_id x) held"
  let ?gap = "filter (\<lambda>x. last_seen g < va_id x \<and> va_id x < next_seen g) held"
  have n: "1 \<le> ?n" "?n \<le> 1000" by auto
  have asc: "ascending held" using assms(1) by (simp add: agg_venue_def)
  obtain rows where rows: "fetch rest_agg_trades (binance_params g) = Inr (JArr rows)"
    "list_all2 agg_row (take (nat ?n) ?from) rows"
    using assms(1,2) n unfolding agg_venue_def binance_params_def max_repair_batch_def by blast
  have gap: "filter (\<lambda>x. va_id x < next_seen g) ?from = ?gap" by (auto intro!: filter_cong)
  have "int (length ?gap) \<le> max 0 (missing_count g)"
    by (rule gap_length) (auto simp: asc ascending_filter gap_ids_def)
  then have "take (nat ?n) ?gap = take 1000 ?gap" by (cases "missing_count g \<le> 1000") auto
  then have "filter (\<lambda>x. va_id x < next_seen g) (take (nat ?n) ?from) = take 1000 ?gap"
    using take_below [of ?from "next_seen g" "nat ?n"] asc gap by (simp add: ascending_filter)
  moreover have "ascending (take (nat ?n) ?from)" using asc by (simp add: ascending_filter ascending_take)
  ultimately show ?thesis
    using repair_rows [OF rows(2), of m g i clk 0] assms(3,4) rows(1) by (simp add: binance_repair_def binance_def)
qed

text \<open>A venue that has the trades 9 to 12, and answers for them.\<close>

definition btc_held :: "venue_agg list" where
  "btc_held = map (\<lambda>k. \<lparr> va_id = k, va_time_ms = 1786752000286, va_price = ''63000.10'', va_quantity = ''0.5'',
     va_buyer_is_maker = True \<rparr>) [9, 10, 11, 12]"

definition btc_venue :: fetcher where
  "btc_venue u ps = (case ps of
     [(_, AText _), (_, ANum f), (_, ANum n)] \<Rightarrow>
       Inr (JArr (map (\<lambda>x. JObj (btc_agg (va_id x))) (take (nat n) (filter (\<lambda>x. f \<le> va_id x) btc_held))))
   | _ \<Rightarrow> Inr (JArr []))"

lemma btc_venue_ok: "agg_venue btc_venue s btc_held"
proof -
  have "agg_row x (JObj (btc_agg (va_id x)))" if "x \<in> set btc_held" for x
    using that btc_agg_fields by (auto simp: btc_held_def agg_row_def)
  then show ?thesis
    unfolding agg_venue_def
    by (auto simp: btc_venue_def list_all2_map2 list_all2_same dest!: in_set_takeD) (simp add: btc_held_def)
qed

theorem binance_repair_recovers_missing_ids_witness:
  "\<exists>ts. snd (binance_repair btc_venue btc_map (\<lambda>i. 0)
      \<lparr>gap_venue = ''binance'', gap_symbol = ''BTCUSDT'', last_seen = 10, next_seen = 15\<rparr>) = Inr ts \<and>
    map t_sequence ts = [Some 11, Some 12] \<and> map t_price ts = [''63000.10'', ''63000.10'']"
  using binance_repair_recovers_missing_ids [OF btc_venue_ok, where m = btc_map and i = "''BTC-USD''"
      and g = "\<lparr>gap_venue = ''binance'', gap_symbol = ''BTCUSDT'', last_seen = 10, next_seen = 15\<rparr>" and clk = "\<lambda>i. 0"]
  by (simp add: btc_canonical btc_held_def repaired_def)

text \<open>
  Property C25. What a Coinbase frame gives, row by row: a market_trades frame, whatever else it
  and its events hold, is parsed into the trades of the rows that convert, in order; a row that
  misses a field, is of an unmapped product or fails with a ValueError costs no other row, and the
  whole frame is lost, with its exception, exactly when some row raises anything else. Rows whose
  product_id and time are texts raise nothing else.
\<close>

theorem coinbase_parse_isolates_rows:
  assumes "loads raw = Inr (JObj frame)" and "map_of frame ''channel'' = Some (JStr ''market_trades'')"
    and "map_of frame ''events'' = Some (JArr evs)" and "list_all2 event_rows evs rowss"
  shows "let sequence = (case map_of frame ''sequence_num'' of Some n \<Rightarrow> n | None \<Rightarrow> JNull);
      convert = (\<lambda>i row. coinbase_to_trade from_iso m (clk i) row sequence STREAM); rows = enumerate 0 (concat rowss)
    in coinbase_parse loads from_iso m clk raw = (case uncaught_of convert rows of
         e # _ \<Rightarrow> Inl e
       | [] \<Rightarrow> Inr (kept_of convert rows)) \<and>
     ((\<forall>row\<in>set (concat rowss). text_row row) \<and> (\<forall>s e. from_iso s = Inl e \<longrightarrow> exn_kind e = ValueError) \<and>
      (sequence = JNull \<or> (\<exists>n. sequence = JInt n)) \<longrightarrow> uncaught_of convert rows = [])"
proof -
  define sequence where "sequence = (case map_of frame ''sequence_num'' of Some n \<Rightarrow> n | None \<Rightarrow> JNull)"
  let ?convert = "\<lambda>i row. coinbase_to_trade from_iso m (clk i) row sequence STREAM"
  have "json_get (JObj frame) ''sequence_num'' JNull = Inr sequence"
    by (simp add: sequence_def split: option.splits)
  then have "coinbase_parse loads from_iso m clk raw = coinbase_events ?convert 0 evs"
    using assms(1-3) by (simp add: coinbase_parse_def)
  then have "coinbase_parse loads from_iso m clk raw = (case uncaught_of ?convert (enumerate 0 (concat rowss)) of
      e # _ \<Rightarrow> Inl e | [] \<Rightarrow> Inr (kept_of ?convert (enumerate 0 (concat rowss))))"
    by (simp add: coinbase_events_exact [OF assms(4)] all_or_first_def split: list.splits)
  moreover have "uncaught_of ?convert (enumerate 0 (concat rowss)) = []"
    if "\<forall>row\<in>set (concat rowss). text_row row" "\<forall>s e. from_iso s = Inl e \<longrightarrow> exn_kind e = ValueError"
      "sequence = JNull \<or> (\<exists>n. sequence = JInt n)"
    by (rule no_uncaught) (use text_row_malformed that in blast)
  ultimately show ?thesis unfolding Let_def sequence_def [symmetric] by blast
qed

text \<open>A frame as the venue sends it: a snapshot with a row of an unknown product, and an update.\<close>

definition btc_frame :: "json \<Rightarrow> (string, json) dict" where
  "btc_frame t = [(''channel'', JStr ''market_trades''), (''client_id'', JStr []), (''timestamp'', JStr ''2026-08-15T00:00:00Z''),
     (''sequence_num'', JInt 5), (''events'', JArr
       [JObj [(''type'', JStr ''snapshot''), (''trades'', JArr [JObj [(''product_id'', JStr ''X'')], btc_row (JStr ''63000.10'')])],
        JObj [(''type'', JStr ''update''), (''trades'', JArr [JObj [(''product_id'', JStr ''BTC-USD''), (''trade_id'', JStr ''8''), (''time'', t)]])]])]"

lemma btc_frame_parts:
  "map_of (btc_frame t) ''channel'' = Some (JStr ''market_trades'')" "map_of (btc_frame t) ''sequence_num'' = Some (JInt 5)"
  "\<exists>evs. map_of (btc_frame t) ''events'' = Some (JArr evs) \<and> list_all2 event_rows evs
     [[JObj [(''product_id'', JStr ''X'')], btc_row (JStr ''63000.10'')],
      [JObj [(''product_id'', JStr ''BTC-USD''), (''trade_id'', JStr ''8''), (''time'', t)]]]"
  by (simp_all add: btc_frame_def event_rows_def)

text \<open>The rows of that frame: of an unknown product, good, without a price, and with a number for a time.\<close>

lemma btc_conversions:
  "coinbase_to_trade from_iso btc_map clk (JObj [(''product_id'', JStr ''X'')]) sequence src = Inr None"
  "\<exists>t. coinbase_to_trade (\<lambda>s. Inr us) btc_map clk (btc_row (JStr ''63000.10'')) (JInt n) src = Inr (Some t) \<and> t_sequence t = Some n"
  "coinbase_to_trade (\<lambda>s. Inr us) btc_map clk (JObj [(''product_id'', JStr ''BTC-USD''), (''trade_id'', JStr ''8''), (''time'', JStr z)]) sequence src =
     Inl (Exn KeyError (py_repr ''price''))"
  "coinbase_to_trade from_iso btc_map clk (JObj [(''product_id'', JStr ''BTC-USD''), (''trade_id'', JStr ''8''), (''time'', JInt k)]) sequence src =
     Inl (Exn AttributeError (quoted_type (JInt k) @ '' object has no attribute '' @ py_repr ''replace''))"
proof -
  have unknown: "canonical_or_none btc_map coinbase (JStr ''X'') = Inr None"
    by (simp add: btc_map_def from_yaml_def add_entry_def add_symbol_def universe_row_def canonical_def coinbase_def)
  note eval = coinbase_to_trade_def dict_item_def btc_canonical
  show "coinbase_to_trade from_iso btc_map clk (JObj [(''product_id'', JStr ''X'')]) sequence src = Inr None"
    by (simp add: eval unknown del: canonical_or_none.simps)
  show "\<exists>t. coinbase_to_trade (\<lambda>s. Inr us) btc_map clk (btc_row (JStr ''63000.10'')) (JInt n) src = Inr (Some t) \<and> t_sequence t = Some n"
    by (simp add: eval btc_row_def)
  show "coinbase_to_trade (\<lambda>s. Inr us) btc_map clk (JObj [(''product_id'', JStr ''BTC-USD''), (''trade_id'', JStr ''8''), (''time'', JStr z)]) sequence src =
     Inl (Exn KeyError (py_repr ''price''))"
    by (simp add: eval)
  show "coinbase_to_trade from_iso btc_map clk (JObj [(''product_id'', JStr ''BTC-USD''), (''trade_id'', JStr ''8''), (''time'', JInt k)]) sequence src =
     Inl (Exn AttributeError (quoted_type (JInt k) @ '' object has no attribute '' @ py_repr ''replace''))"
    by (simp add: eval)
qed

theorem coinbase_parse_isolates_rows_witness:
  "(\<exists>t. coinbase_parse (\<lambda>raw. Inr (JObj (btc_frame (JStr ''soon'')))) (\<lambda>s. Inr 1786752000286442) btc_map (\<lambda>i. 0) [] = Inr [t] \<and>
     t_sequence t = Some 5) \<and>
   (\<exists>e. coinbase_parse (\<lambda>raw. Inr (JObj (btc_frame (JInt 1786752000)))) (\<lambda>s. Inr 1786752000286442) btc_map (\<lambda>i. 0) [] = Inl e \<and>
     exn_kind e = AttributeError)"
proof -
  let ?parse = "\<lambda>t. coinbase_parse (\<lambda>raw. Inr (JObj (btc_frame t))) (\<lambda>s. Inr 1786752000286442) btc_map (\<lambda>i. 0) []"
    and ?last = "\<lambda>t. JObj [(''product_id'', JStr ''BTC-USD''), (''trade_id'', JStr ''8''), (''time'', t)]"
  let ?convert = "\<lambda>i row. coinbase_to_trade (\<lambda>s. Inr 1786752000286442) btc_map 0 row (JInt 5) STREAM"
  let ?rows = "\<lambda>t. enumerate 0 [JObj [(''product_id'', JStr ''X'')], btc_row (JStr ''63000.10''), ?last t]"
  have parsed: "?parse t = (case uncaught_of ?convert (?rows t) of e # _ \<Rightarrow> Inl e | [] \<Rightarrow> Inr (kept_of ?convert (?rows t)))" for t
  proof -
    obtain evs where evs: "map_of (btc_frame t) ''events'' = Some (JArr evs)" "list_all2 event_rows evs
       [[JObj [(''product_id'', JStr ''X'')], btc_row (JStr ''63000.10'')], [?last t]]"
      using btc_frame_parts(3) by blast
    from coinbase_parse_isolates_rows [where frame = "btc_frame t" and raw = "[]" and loads = "\<lambda>raw. Inr (JObj (btc_frame t))"
        and from_iso = "\<lambda>s. Inr 1786752000286442" and m = btc_map and clk = "\<lambda>i. 0", OF refl btc_frame_parts(1) evs]
    show ?thesis by (simp add: btc_frame_parts Let_def del: enumerate_simps)
  qed
  obtain t where t: "?convert 0 (btc_row (JStr ''63000.10'')) = Inr (Some t)" "t_sequence t = Some 5"
    using btc_conversions(2) by blast
  note eval = kept_of_def kept_def uncaught_of_def uncaught_def List.map_filter_simps is_malformed_def btc_conversions(1,3,4) t(1)
  show ?thesis unfolding parsed using t(2) by (simp add: eval)
qed

text \<open>
  Whatever either connector returns can be told apart downstream: a trade carries
  its venue, the canonical id of its symbol, and the backfill flag exactly when it came from a
  repair; nothing a connector returns claims to come from the archive.
\<close>

theorem connector_output_tagged:
  assumes "(venue = ''binance'' \<and> (binance_parse loads m clk raw = Inr ts \<or> snd (binance_repair fetch m clk g) = Inr ts)) \<or>
    (venue = ''coinbase'' \<and> (coinbase_parse loads from_iso m clk raw = Inr ts \<or> snd (coinbase_repair fetch from_iso m clk g) = Inr ts))"
    and "t \<in> set ts"
  shows "t_venue t = venue \<and> canonical m venue (t_venue_symbol t) = Inr (t_instrument_id t) \<and>
    (t_is_backfill t \<longleftrightarrow> t_source t = REST_REPAIR) \<and> t_source t \<noteq> ARCHIVE"
  using assms(1)
proof
  assume "venue = ''binance'' \<and> (binance_parse loads m clk raw = Inr ts \<or> snd (binance_repair fetch m clk g) = Inr ts)"
  then show ?thesis
    using bin.output_tagged [of ts loads m clk "{raw}" fetch clk "{g}" t] assms(2) by (auto simp: binance_def)
next
  assume "venue = ''coinbase'' \<and> (coinbase_parse loads from_iso m clk raw = Inr ts \<or> snd (coinbase_repair fetch from_iso m clk g) = Inr ts)"
  then show ?thesis
    using coin.output_tagged [of ts loads from_iso m clk "{raw}" fetch clk "{g}" t] assms(2) by (auto simp: coinbase_def)
qed

theorem connector_output_tagged_witness:
  "\<exists>t. coinbase_parse (\<lambda>raw. Inr (JObj [(''channel'', JStr ''market_trades''), (''sequence_num'', JInt 5),
      (''events'', JArr [JObj [(''trades'', JArr [btc_row (JStr ''63000.10'')])]])]))
     (\<lambda>s. Inr 1786752000286442) btc_map (\<lambda>i. 0) [] = Inr [t] \<and> t_source t \<noteq> ARCHIVE"
proof -
  obtain t where t: "coinbase_parse (\<lambda>raw. Inr (JObj [(''channel'', JStr ''market_trades''), (''sequence_num'', JInt 5),
      (''events'', JArr [JObj [(''trades'', JArr [btc_row (JStr ''63000.10'')])]])]))
     (\<lambda>s. Inr 1786752000286442) btc_map (\<lambda>i. 0) [] = Inr [t]"
    by (simp add: coinbase_parse_def btc_row_def coinbase_to_trade_def dict_item_def btc_canonical)
  with connector_output_tagged [OF disjI2 [OF conjI [OF refl disjI1 [OF t]]], of t] show ?thesis by simp
qed

text \<open>
  No repair goes around the rate limiter: over any series of gaps, every REST
  request either connector makes directly follows a wait on its own venue's token bucket.
\<close>

theorem repair_requests_rate_limited:
  "limited ''binance'' (concat (map (\<lambda>g. fst (binance_repair fetch m clk g)) gs)) \<and>
   limited ''coinbase'' (concat (map (\<lambda>g. fst (coinbase_repair fetch from_iso m clk g)) gs))"
  using bin.repairs_limited [of fetch m clk gs] coin.repairs_limited [of fetch from_iso m clk gs]
  by (simp add: o_def binance_def coinbase_def)

end
