(* ===== verification/Runner.thy ===== *)
theory Runner
  imports Queue Connectors
begin

text \<open>
  ingest/runner.py: the tasks of IngestRunner as one state machine. The websocket pump runs
  handle_message, each gap starts a repair task, the drain task publishes; they interleave at
  the awaits of the code (queue.put, queue.get, the REST request), one action per step. An
  action that would wait is not enabled (step gives None). The connector is a record of what
  the runner uses of it; the answers of its repair are those c_repair allows.
\<close>

record conn =
  c_parse :: "string \<Rightarrow> trade list res"
  c_repair :: "gap \<Rightarrow> trade list res \<Rightarrow> bool"
  c_sequence_symbol :: "string option"
  c_resets :: bool

text \<open>The two connectors: the class attributes the runner reads with getattr.\<close>

definition binance_conn :: "(string \<Rightarrow> json res) \<Rightarrow> fetcher \<Rightarrow> instrument_map \<Rightarrow> (nat \<Rightarrow> int) \<Rightarrow> conn" where
  "binance_conn loads fetch m clk = \<lparr> c_parse = binance_parse loads m clk,
     c_repair = (\<lambda>g r. r = snd (binance_repair fetch m clk g)), c_sequence_symbol = None, c_resets = False \<rparr>"

definition coinbase_conn :: "(string \<Rightarrow> json res) \<Rightarrow> fetcher \<Rightarrow> (string \<Rightarrow> int res) \<Rightarrow> instrument_map \<Rightarrow> (nat \<Rightarrow> int) \<Rightarrow> conn" where
  "coinbase_conn loads fetch from_iso m clk = \<lparr> c_parse = coinbase_parse loads from_iso m clk,
     c_repair = (\<lambda>g r. r = snd (coinbase_repair fetch from_iso m clk g)),
     c_sequence_symbol = Some sequence_symbol, c_resets = True \<rparr>"

text \<open>
  The pump between two awaits: about to observe the head of the list, or in queue.put of a
  trade already observed. A repair task: waiting for its answer, or putting what it recovered.
\<close>

datatype pump = Loop "trade list" | Putting trade "trade list"

datatype repair_task = Asking gap | Refilling "trade list"

datatype drain_state = Draining | Drained | DrainRaised

record runner =
  r_tracker :: tracker
  r_queue :: "trade topic_queue"
  r_pump :: pump
  r_repairs :: "repair_task list"
  r_drain :: drain_state
  r_stop :: bool
  r_produced :: "trade list"
  \<comment> \<open>history: trades parsed or recovered, trades dropped on the way, observations since the last reset, and
    the repairs that were answered, with their answers\<close>
  r_taken :: "trade list"
  r_lost :: "trade list"
  r_seen :: "observation list"
  r_answered :: "(gap \<times> trade list res) list"

definition new_runner :: "int \<Rightarrow> drop_policy \<Rightarrow> runner" where
  "new_runner maxsize policy = \<lparr> r_tracker = new_tracker, r_queue = new_queue maxsize policy, r_pump = Loop [],
     r_repairs = [], r_drain = Draining, r_stop = False, r_produced = [], r_taken = [], r_lost = [],
     r_seen = [], r_answered = [] \<rparr>"

definition sequence_symbol_for :: "conn \<Rightarrow> trade \<Rightarrow> string" where
  "sequence_symbol_for c t = (case c_sequence_symbol c of Some s \<Rightarrow> s | None \<Rightarrow> t_venue_symbol t)"

definition observation_of :: "conn \<Rightarrow> trade \<Rightarrow> observation" where
  "observation_of c t = (t_venue t, sequence_symbol_for c t, t_sequence t)"

fun pump_trades :: "pump \<Rightarrow> trade list" where
  "pump_trades (Loop ts) = ts"
| "pump_trades (Putting t ts) = t # ts"

fun repair_trades :: "repair_task \<Rightarrow> trade list" where
  "repair_trades (Asking g) = []"
| "repair_trades (Refilling ts) = ts"

datatype action =
    Frame string            \<comment> \<open>a frame arrives at an idle pump and is parsed\<close>
  | Observe                 \<comment> \<open>the head of the loop: observe, start a repair on a gap\<close>
  | PumpPut                 \<comment> \<open>the pump's queue.put goes through\<close>
  | Answer nat "trade list res" \<comment> \<open>the REST answer of a repair task, or its exception\<close>
  | RepairPut nat           \<comment> \<open>a repair task's queue.put goes through\<close>
  | RepairDone nat
  | DrainOne                \<comment> \<open>queue.get, produce and poll\<close>
  | DrainFails              \<comment> \<open>queue.get, then produce or poll raises\<close>
  | DrainEnd                \<comment> \<open>the loop condition is false: flush, return\<close>
  | SetStop
  | CancelPump              \<comment> \<open>the session ends (stop or lifetime) and cancels the pump\<close>
  | Reconnect               \<comment> \<open>handle_reconnect of the next session\<close>

definition remove_at :: "nat \<Rightarrow> 'a list \<Rightarrow> 'a list" where
  "remove_at i xs = take i xs @ drop (Suc i) xs"

definition repair_at :: "runner \<Rightarrow> nat \<Rightarrow> repair_task option" where
  "repair_at s i = (if i < length (r_repairs s) then Some (r_repairs s ! i) else None)"

definition observe_head :: "conn \<Rightarrow> runner \<Rightarrow> trade \<Rightarrow> trade list \<Rightarrow> runner" where
  "observe_head c s t ts = (case observe (r_tracker s) (t_venue t) (sequence_symbol_for c t) (t_sequence t) of
     (g, w) \<Rightarrow> s\<lparr> r_tracker := w, r_pump := Putting t ts,
       r_repairs := r_repairs s @ (case g of None \<Rightarrow> [] | Some gp \<Rightarrow> [Asking gp]),
       r_seen := r_seen s @ [observation_of c t] \<rparr>)"

fun step :: "conn \<Rightarrow> action \<Rightarrow> runner \<Rightarrow> runner option" where
  "step c (Frame raw) s = (if r_pump s \<noteq> Loop [] then None else (case c_parse c raw of
     Inl e \<Rightarrow> Some s
   | Inr ts \<Rightarrow> Some (s\<lparr> r_pump := Loop ts, r_taken := r_taken s @ ts \<rparr>)))"
| "step c Observe s = (case r_pump s of
     Loop (t # ts) \<Rightarrow> Some (observe_head c s t ts)
   | _ \<Rightarrow> None)"
| "step c PumpPut s = (case r_pump s of
     Putting t ts \<Rightarrow> map_option (\<lambda>q. s\<lparr> r_queue := q, r_pump := Loop ts \<rparr>) (qput (r_queue s) t)
   | _ \<Rightarrow> None)"
| "step c (Answer i r) s = (case repair_at s i of
     Some (Asking g) \<Rightarrow> if c_repair c g r
       then Some (case r of
           Inr ts \<Rightarrow> s\<lparr> r_repairs := (r_repairs s)[i := Refilling ts], r_taken := r_taken s @ ts,
             r_answered := r_answered s @ [(g, r)] \<rparr>
         | Inl e \<Rightarrow> s\<lparr> r_repairs := remove_at i (r_repairs s), r_answered := r_answered s @ [(g, r)] \<rparr>)
       else None
   | _ \<Rightarrow> None)"
| "step c (RepairPut i) s = (case repair_at s i of
     Some (Refilling (t # ts)) \<Rightarrow>
       map_option (\<lambda>q. s\<lparr> r_queue := q, r_repairs := (r_repairs s)[i := Refilling ts] \<rparr>) (qput (r_queue s) t)
   | _ \<Rightarrow> None)"
| "step c (RepairDone i) s = (case repair_at s i of
     Some (Refilling []) \<Rightarrow> Some (s\<lparr> r_repairs := remove_at i (r_repairs s) \<rparr>)
   | _ \<Rightarrow> None)"
| "step c DrainOne s = (if r_drain s \<noteq> Draining then None else
     map_option (\<lambda>(t, q). s\<lparr> r_queue := q, r_produced := r_produced s @ [t] \<rparr>) (qget (r_queue s)))"
| "step c DrainFails s = (if r_drain s \<noteq> Draining then None else
     map_option (\<lambda>(t, q). s\<lparr> r_queue := q, r_drain := DrainRaised, r_lost := r_lost s @ [t] \<rparr>) (qget (r_queue s)))"
| "step c DrainEnd s = (if r_drain s = Draining \<and> r_stop s \<and> qsize (r_queue s) = 0
     then Some (s\<lparr> r_drain := Drained \<rparr>) else None)"
| "step c SetStop s = Some (s\<lparr> r_stop := True \<rparr>)"
| "step c CancelPump s = Some (s\<lparr> r_pump := Loop [], r_lost := r_lost s @ pump_trades (r_pump s) \<rparr>)"
| "step c Reconnect s = (if r_pump s \<noteq> Loop [] then None else
     Some (if c_resets c then s\<lparr> r_tracker := new_tracker, r_seen := [] \<rparr> else s))"

fun exec :: "conn \<Rightarrow> action list \<Rightarrow> runner \<Rightarrow> runner option" where
  "exec c [] s = Some s"
| "exec c (a # as) s = (case step c a s of None \<Rightarrow> None | Some s' \<Rightarrow> exec c as s')"

text \<open>The states of a runner with a BLOCK queue, as ingest/cli.py and awsnative/cli.py build it.\<close>

inductive reachable :: "conn \<Rightarrow> int \<Rightarrow> runner \<Rightarrow> bool" for c :: conn and n :: int where
  start: "reachable c n (new_runner n BLOCK)"
| step: "reachable c n s \<Longrightarrow> step c a s = Some s' \<Longrightarrow> reachable c n s'"

text \<open>run has returned: the socket's run ended, the repairs were gathered, the drain task is over.\<close>

definition finished :: "runner \<Rightarrow> bool" where
  "finished s \<longleftrightarrow> r_stop s \<and> r_pump s = Loop [] \<and> r_repairs s = [] \<and> r_drain s = Drained"

subsection \<open>The invariant\<close>

definition in_repair :: "runner \<Rightarrow> trade list" where
  "in_repair s = concat (map repair_trades (r_repairs s))"

text \<open>A repair task was started for a gap: it still waits for its answer, or was answered.\<close>

definition repair_started :: "runner \<Rightarrow> gap \<Rightarrow> bool" where
  "repair_started s g \<longleftrightarrow> Asking g \<in> set (r_repairs s) \<or> g \<in> fst ` set (r_answered s)"

definition runner_ok :: "runner \<Rightarrow> bool" where
  "runner_ok s \<longleftrightarrow> block_ok (r_queue s) \<and>
     mset (r_taken s) = mset (r_produced s) + mset (q_items (r_queue s)) + mset (pump_trades (r_pump s)) +
       mset (in_repair s) + mset (r_lost s) \<and>
     q_dropped (r_queue s) = 0 \<and>
     r_tracker s = run_tracker new_tracker (r_seen s)"

lemma new_runner_ok: "runner_ok (new_runner n BLOCK)"
  by (simp add: runner_ok_def new_runner_def block_ok_def in_repair_def) (simp add: new_queue_def)

lemma repair_at_split:
  assumes "repair_at s i = Some x"
  obtains xs ys where "r_repairs s = xs @ x # ys" "length xs = i"
  using assms id_take_nth_drop [of i "r_repairs s"]
  by (auto simp: repair_at_def split: if_splits intro!: that [of "take i (r_repairs s)" "drop (Suc i) (r_repairs s)"])

lemma in_repair_update:
  assumes "repair_at s i = Some x"
  shows "mset (concat (map repair_trades ((r_repairs s)[i := y]))) + mset (repair_trades x) =
      mset (in_repair s) + mset (repair_trades y)"
    and "mset (concat (map repair_trades (remove_at i (r_repairs s)))) + mset (repair_trades x) = mset (in_repair s)"
proof -
  obtain xs ys where s: "r_repairs s = xs @ x # ys" "i = length xs" using repair_at_split [OF assms] by metis
  show "mset (concat (map repair_trades ((r_repairs s)[i := y]))) + mset (repair_trades x) =
      mset (in_repair s) + mset (repair_trades y)"
    by (simp add: s in_repair_def)
  show "mset (concat (map repair_trades (remove_at i (r_repairs s)))) + mset (repair_trades x) = mset (in_repair s)"
    by (simp add: s in_repair_def remove_at_def)
qed

lemma block_put:
  assumes "block_ok q" and "qput q t = Some q'"
  shows "block_ok q'" "q_items q' = q_items q @ [t]" "q_dropped q' = q_dropped q"
  by (rule blockq.put_ok [OF assms] blockq.put_append [OF assms] blockq.put_lossless [OF assms])+

lemma block_get:
  assumes "block_ok q" and "qget q = Some (t, q')"
  shows "block_ok q'" "q_items q = t # q_items q'" "q_dropped q' = q_dropped q"
  using blockq.get_ok [OF assms] blockq.get_items [OF assms] by simp_all

text \<open>Replacing or removing a task keeps the others.\<close>

lemma repair_update_set:
  assumes "repair_at s i = Some x" and "y \<in> set (r_repairs s)" and "y \<noteq> x"
  shows "y \<in> set ((r_repairs s)[i := z])" and "y \<in> set (remove_at i (r_repairs s))"
proof -
  obtain xs ys where s: "r_repairs s = xs @ x # ys" "i = length xs" using repair_at_split [OF assms(1)] by metis
  show "y \<in> set ((r_repairs s)[i := z])" and "y \<in> set (remove_at i (r_repairs s))"
    using assms(2,3) by (auto simp: s remove_at_def)
qed

lemma repair_update_subset:
  "set ((r_repairs s)[i := z]) \<subseteq> insert z (set (r_repairs s))" "set (remove_at i (r_repairs s)) \<subseteq> set (r_repairs s)"
  by (auto simp: remove_at_def dest: in_set_takeD in_set_dropD set_update_subset_insert [THEN subsetD])

lemma observe_head_ok: "runner_ok s \<Longrightarrow> r_pump s = Loop (t # ts) \<Longrightarrow> runner_ok (observe_head c s t ts)"
  by (cases "observe (r_tracker s) (t_venue t) (sequence_symbol_for c t) (t_sequence t)")
    (auto simp: runner_ok_def observe_head_def observation_of_def in_repair_def run_tracker_snoc
      split: option.splits)

lemma step_ok: "runner_ok s \<Longrightarrow> step c a s = Some s' \<Longrightarrow> runner_ok s'"
proof (cases a)
  case Observe
  then show "runner_ok s \<Longrightarrow> step c a s = Some s' \<Longrightarrow> runner_ok s'"
    by (auto split: pump.splits list.splits intro: observe_head_ok)
next
  case (Answer i r)
  assume ok: "runner_ok s" and "step c a s = Some s'"
  with Answer obtain g where at: "repair_at s i = Some (Asking g)" and s': "s' = (case r of
      Inr ts \<Rightarrow> s\<lparr> r_repairs := (r_repairs s)[i := Refilling ts], r_taken := r_taken s @ ts,
        r_answered := r_answered s @ [(g, r)] \<rparr>
    | Inl e \<Rightarrow> s\<lparr> r_repairs := remove_at i (r_repairs s), r_answered := r_answered s @ [(g, r)] \<rparr>)"
    by (auto split: option.splits repair_task.splits if_splits)
  show "runner_ok s'"
    using ok in_repair_update [OF at] by (cases r) (auto simp: s' runner_ok_def in_repair_def)
next
  case (RepairPut i)
  assume ok: "runner_ok s" and "step c a s = Some s'"
  with RepairPut obtain t ts q where at: "repair_at s i = Some (Refilling (t # ts))" and q: "qput (r_queue s) t = Some q"
    and s': "s' = s\<lparr> r_queue := q, r_repairs := (r_repairs s)[i := Refilling ts] \<rparr>"
    by (auto split: option.splits repair_task.splits list.splits)
  have b: "block_ok (r_queue s)" using ok by (simp add: runner_ok_def)
  show "runner_ok s'"
    using ok in_repair_update(1) [OF at, of "Refilling ts"] block_put [OF b q] by (auto simp: s' runner_ok_def in_repair_def)
next
  case (RepairDone i)
  assume ok: "runner_ok s" and "step c a s = Some s'"
  with RepairDone have at: "repair_at s i = Some (Refilling [])" and s': "s' = s\<lparr> r_repairs := remove_at i (r_repairs s) \<rparr>"
    by (auto split: option.splits repair_task.splits list.splits)
  show "runner_ok s'"
    using ok in_repair_update(2) [OF at] by (auto simp: s' runner_ok_def in_repair_def)
qed (auto simp: runner_ok_def in_repair_def dest: block_put block_get split: if_splits sum.splits pump.splits)

lemma reachable_ok: "reachable c n s \<Longrightarrow> runner_ok s"
  by (induction rule: reachable.induct) (auto intro: new_runner_ok step_ok)

text \<open>A started repair stays started; a step can start one only by observing the trade that reveals its gap.\<close>

lemma started_kept: "step c a s = Some s' \<Longrightarrow> repair_started s g \<Longrightarrow> repair_started s' g"
proof (cases a)
  case (Answer i r)
  assume st: "step c a s = Some s'" and g: "repair_started s g"
  from Answer st obtain h where at: "repair_at s i = Some (Asking h)" and s': "s' = (case r of
      Inr ts \<Rightarrow> s\<lparr> r_repairs := (r_repairs s)[i := Refilling ts], r_taken := r_taken s @ ts,
        r_answered := r_answered s @ [(h, r)] \<rparr>
    | Inl e \<Rightarrow> s\<lparr> r_repairs := remove_at i (r_repairs s), r_answered := r_answered s @ [(h, r)] \<rparr>)"
    by (auto split: option.splits repair_task.splits if_splits)
  show "repair_started s' g"
    using g repair_update_set [OF at, of "Asking g"] by (cases r) (auto simp: s' repair_started_def)
next
  case (RepairPut i)
  assume "step c a s = Some s'" and "repair_started s g"
  with RepairPut repair_update_set(1) [of s i _ "Asking g"] show "repair_started s' g"
    by (auto simp: repair_started_def split: option.splits repair_task.splits list.splits)
next
  case (RepairDone i)
  assume "step c a s = Some s'" and "repair_started s g"
  with RepairDone repair_update_set(2) [of s i _ "Asking g"] show "repair_started s' g"
    by (auto simp: repair_started_def split: option.splits repair_task.splits list.splits)
qed (auto simp: repair_started_def observe_head_def split: option.splits if_splits sum.splits pump.splits list.splits prod.splits)

lemma started_by:
  "step c a s = Some s' \<Longrightarrow> repair_started s' g \<Longrightarrow> repair_started s g \<or>
   (\<exists>t ts. r_pump s = Loop (t # ts) \<and> s' = observe_head c s t ts \<and>
      fst (observe (r_tracker s) (t_venue t) (sequence_symbol_for c t) (t_sequence t)) = Some g)"
proof (cases a)
  case (Answer i r)
  assume st: "step c a s = Some s'" and g: "repair_started s' g"
  from Answer st obtain h where at: "repair_at s i = Some (Asking h)" and s': "s' = (case r of
      Inr ts \<Rightarrow> s\<lparr> r_repairs := (r_repairs s)[i := Refilling ts], r_taken := r_taken s @ ts,
        r_answered := r_answered s @ [(h, r)] \<rparr>
    | Inl e \<Rightarrow> s\<lparr> r_repairs := remove_at i (r_repairs s), r_answered := r_answered s @ [(h, r)] \<rparr>)"
    by (auto split: option.splits repair_task.splits if_splits)
  have "Asking h \<in> set (r_repairs s)" using repair_at_split [OF at] by (metis in_set_conv_decomp)
  then show ?thesis
    using g repair_update_subset [where s = s and i = i] by (cases r) (auto simp: s' repair_started_def)
next
  case (RepairPut i)
  assume st: "step c a s = Some s'" and g: "repair_started s' g"
  from RepairPut st obtain ts q where "s' = s\<lparr> r_queue := q, r_repairs := (r_repairs s)[i := Refilling ts] \<rparr>"
    by (auto split: option.splits repair_task.splits list.splits)
  with g repair_update_subset(1) [of s i "Refilling ts"] show ?thesis by (auto simp: repair_started_def)
next
  case (RepairDone i)
  assume "step c a s = Some s'" and "repair_started s' g"
  with RepairDone repair_update_subset(2) [where s = s and i = i] show ?thesis
    by (auto simp: repair_started_def split: option.splits repair_task.splits list.splits)
qed (auto simp: repair_started_def observe_head_def split: option.splits if_splits sum.splits pump.splits list.splits prod.splits)

text \<open>Every gap since the last reset has its repair; every answer is one the connector gave, and its trades were taken.\<close>

definition repairs_ok :: "conn \<Rightarrow> runner \<Rightarrow> bool" where
  "repairs_ok c s \<longleftrightarrow> (\<forall>g\<in>set (run_gaps new_tracker (r_seen s)). repair_started s g) \<and>
     (\<forall>(g, r)\<in>set (r_answered s). c_repair c g r \<and> (\<forall>ts. r = Inr ts \<longrightarrow> set ts \<subseteq> set (r_taken s)))"

lemma answered_kept:
  assumes "step c a s = Some s'"
  shows "r_seen s' = r_seen s \<or> r_seen s' = [] \<or> (\<exists>t ts. r_pump s = Loop (t # ts) \<and> s' = observe_head c s t ts)"
    and "set (r_taken s) \<subseteq> set (r_taken s')"
    and "r_answered s' = r_answered s \<or> (\<exists>g r. r_answered s' = r_answered s @ [(g, r)] \<and> c_repair c g r \<and>
      (\<forall>ts. r = Inr ts \<longrightarrow> set ts \<subseteq> set (r_taken s')))"
proof -
  show "r_seen s' = r_seen s \<or> r_seen s' = [] \<or> (\<exists>t ts. r_pump s = Loop (t # ts) \<and> s' = observe_head c s t ts)"
    using assms by (cases a) (auto split: option.splits if_splits sum.splits pump.splits list.splits repair_task.splits)
  show "set (r_taken s) \<subseteq> set (r_taken s')"
    using assms by (cases a) (auto simp: observe_head_def
      split: option.splits if_splits sum.splits pump.splits list.splits repair_task.splits prod.splits)
  show "r_answered s' = r_answered s \<or> (\<exists>g r. r_answered s' = r_answered s @ [(g, r)] \<and> c_repair c g r \<and>
      (\<forall>ts. r = Inr ts \<longrightarrow> set ts \<subseteq> set (r_taken s')))"
    using assms by (cases a) (auto simp: observe_head_def
      split: option.splits if_splits sum.splits pump.splits list.splits repair_task.splits prod.splits)
qed

lemma step_repairs_ok:
  assumes ok: "runner_ok s" "repairs_ok c s" and st: "step c a s = Some s'"
  shows "repairs_ok c s'"
proof -
  have "\<forall>g\<in>set (run_gaps new_tracker (r_seen s')). repair_started s' g"
    using answered_kept(1) [OF st]
  proof (elim disjE exE conjE)
    fix t ts
    assume p: "r_pump s = Loop (t # ts)" and s': "s' = observe_head c s t ts"
    let ?g = "fst (observe (r_tracker s) (t_venue t) (sequence_symbol_for c t) (t_sequence t))"
    have "r_seen s' = r_seen s @ [observation_of c t]"
      by (simp add: s' observe_head_def split: prod.splits)
    then have "run_gaps new_tracker (r_seen s') = run_gaps new_tracker (r_seen s) @ (case ?g of None \<Rightarrow> [] | Some g \<Rightarrow> [g])"
      using ok(1) by (simp add: runner_ok_def observation_of_def run_gaps_snoc)
    moreover have "\<forall>g. ?g = Some g \<longrightarrow> repair_started s' g"
      by (auto simp: s' observe_head_def repair_started_def split: prod.splits)
    ultimately show ?thesis
      using ok(2) started_kept [OF st] by (auto simp: repairs_ok_def split: option.splits)
  qed (use ok(2) started_kept [OF st] in \<open>auto simp: repairs_ok_def\<close>)
  moreover have "\<forall>(g, r)\<in>set (r_answered s'). c_repair c g r \<and> (\<forall>ts. r = Inr ts \<longrightarrow> set ts \<subseteq> set (r_taken s'))"
  proof -
    have old: "\<forall>(g, r)\<in>set (r_answered s). c_repair c g r \<and> (\<forall>ts. r = Inr ts \<longrightarrow> set ts \<subseteq> set (r_taken s'))"
      using ok(2) answered_kept(2) [OF st] unfolding repairs_ok_def by blast
    from answered_kept(3) [OF st] show ?thesis
    proof (elim disjE exE conjE)
      fix g r
      assume "r_answered s' = r_answered s @ [(g, r)]" "c_repair c g r" "\<forall>ts. r = Inr ts \<longrightarrow> set ts \<subseteq> set (r_taken s')"
      with old show ?thesis by simp
    qed (use old in simp)
  qed
  ultimately show ?thesis by (simp add: repairs_ok_def)
qed

lemma reachable_repairs_ok: "reachable c n s \<Longrightarrow> repairs_ok c s"
proof (induction rule: reachable.induct)
  case start
  then show ?case by (simp add: repairs_ok_def new_runner_def)
next
  case (step s a s')
  with reachable_ok step_repairs_ok show ?case by blast
qed

text \<open>With a connector that keeps its watermarks they only rise, and a repair never reaches past them.\<close>

lemma observe_watermark:
  assumes "observe w v s q = (g, w')"
  shows "w k = Some h \<Longrightarrow> \<exists>h'. w' k = Some h' \<and> h \<le> h'"
    and "g = Some gp \<Longrightarrow> w (gap_key gp) = Some (last_seen gp) \<and> w' (gap_key gp) = Some (next_seen gp)"
  using assms by (auto simp: observe_def gap_key_def Let_def split: option.splits if_splits)

lemma step_watermark:
  assumes "step c a s = Some s'" and "\<not> c_resets c" and "r_tracker s k = Some h"
  shows "\<exists>h'. r_tracker s' k = Some h' \<and> h \<le> h'"
proof -
  have "r_tracker s' = r_tracker s \<or> (\<exists>t ts. s' = observe_head c s t ts)"
    using assms(1,2) by (cases a) (auto split: option.splits if_splits sum.splits pump.splits list.splits repair_task.splits)
  then show ?thesis
  proof (elim disjE exE)
    fix t ts
    assume s': "s' = observe_head c s t ts"
    obtain g w where o: "observe (r_tracker s) (t_venue t) (sequence_symbol_for c t) (t_sequence t) = (g, w)" by fastforce
    from observe_watermark(1) [where k = k, OF o] assms(3) show ?thesis by (simp add: s' observe_head_def o)
  qed (use assms(3) in auto)
qed

lemma started_below:
  assumes "reachable c n s" and "\<not> c_resets c" and "repair_started s g"
  shows "\<exists>h. r_tracker s (gap_key g) = Some h \<and> next_seen g \<le> h"
  using assms(1,3)
proof (induction rule: reachable.induct)
  case start
  then show ?case by (simp add: repair_started_def new_runner_def)
next
  case (step s a s')
  from started_by [OF step.hyps(2) step.prems] show ?case
  proof (elim disjE exE conjE)
    assume "repair_started s g"
    with step.IH step_watermark [OF step.hyps(2) assms(2)] show ?thesis by (meson order_trans)
  next
    fix t ts
    assume s': "s' = observe_head c s t ts"
      and g: "fst (observe (r_tracker s) (t_venue t) (sequence_symbol_for c t) (t_sequence t)) = Some g"
    obtain w where o: "observe (r_tracker s) (t_venue t) (sequence_symbol_for c t) (t_sequence t) = (Some g, w)"
      using g by (metis prod.collapse)
    from observe_watermark(2) [OF o refl] show ?thesis by (simp add: s' observe_head_def o)
  qed
qed

text \<open>Once its watermark is at an id that no repair covers, no later repair covers it either.\<close>

definition passed :: "runner \<Rightarrow> string \<times> string \<Rightarrow> int \<Rightarrow> bool" where
  "passed s k q \<longleftrightarrow> (\<exists>h. r_tracker s k = Some h \<and> q \<le> h) \<and>
     (\<forall>g. repair_started s g \<and> gap_key g = k \<longrightarrow> q \<notin> gap_ids g)"

lemma step_passed:
  assumes "step c a s = Some s'" and "\<not> c_resets c" and "passed s k q"
  shows "passed s' k q"
proof -
  obtain h where h: "r_tracker s k = Some h" "q \<le> h" using assms(3) by (auto simp: passed_def)
  have "q \<notin> gap_ids g" if g: "repair_started s' g" "gap_key g = k" for g
    using started_by [OF assms(1) g(1)]
  proof (elim disjE exE conjE)
    assume "repair_started s g"
    with assms(3) g(2) show ?thesis by (simp add: passed_def)
  next
    fix t ts
    assume "fst (observe (r_tracker s) (t_venue t) (sequence_symbol_for c t) (t_sequence t)) = Some g"
    then have "r_tracker s (gap_key g) = Some (last_seen g)" using observe_watermark(2) [OF prod.collapse [symmetric]] by blast
    with h g(2) show ?thesis by (simp add: gap_ids_def)
  qed
  then have "\<forall>g. repair_started s' g \<and> gap_key g = k \<longrightarrow> q \<notin> gap_ids g" by blast
  moreover obtain h' where "r_tracker s' k = Some h'" "h \<le> h'" using step_watermark [OF assms(1,2) h(1)] by blast
  ultimately show ?thesis using h(2) by (auto simp: passed_def)
qed

lemma exec_passed: "exec c as s = Some s' \<Longrightarrow> \<not> c_resets c \<Longrightarrow> passed s k q \<Longrightarrow> passed s' k q"
  by (induction as arbitrary: s) (auto split: option.splits intro: step_passed)

lemma lost_kept: "step c a s = Some s' \<Longrightarrow> set (r_lost s) \<subseteq> set (r_lost s')"
  by (cases a) (auto simp: observe_head_def split: if_splits option.splits sum.splits pump.splits list.splits
      repair_task.splits prod.splits)

lemma exec_lost_kept: "exec c as s = Some s' \<Longrightarrow> set (r_lost s) \<subseteq> set (r_lost s')"
proof (induction as arbitrary: s)
  case (Cons a as)
  then obtain s1 where "step c a s = Some s1" "exec c as s1 = Some s'" by (auto split: option.splits)
  with Cons.IH lost_kept show ?case by blast
qed simp

lemma exec_reachable: "reachable c n s \<Longrightarrow> exec c as s = Some s' \<Longrightarrow> reachable c n s'"
  by (induction as arbitrary: s) (auto split: option.splits intro: reachable.step)

subsection \<open>Concrete runs\<close>

text \<open>A Binance-like connector whose every frame holds the same trades and whose repairs recover one.\<close>

definition numbered :: "int \<Rightarrow> trade" where
  "numbered n = example_trade\<lparr> t_trade_id := int_str n, t_sequence := Some n \<rparr>"

definition recovered :: "int \<Rightarrow> trade" where
  "recovered n = (numbered n)\<lparr> t_is_backfill := True, t_source := REST_REPAIR \<rparr>"

definition example_conn :: conn where
  "example_conn = \<lparr> c_parse = (\<lambda>raw. Inr [numbered 1, numbered 3]), c_repair = (\<lambda>g r. r = Inr [recovered 2]),
     c_sequence_symbol = None, c_resets = False \<rparr>"

text \<open>
  The stop event arrives while a repair is waiting for its answer: the drain task finds the
  queue empty and returns, then the repair puts what it recovered.
\<close>

definition stranding_run :: "action list" where
  "stranding_run = [Frame [], Observe, PumpPut, Observe, PumpPut, DrainOne, DrainOne, SetStop, DrainEnd,
     Answer 0 (Inr [recovered 2]), RepairPut 0, RepairDone 0]"

text \<open>The lifetime of a connection ends while the pump waits for a place in a full queue.\<close>

definition cancelling_run :: "action list" where
  "cancelling_run = [Frame [], Observe, PumpPut, Observe, CancelPump, Reconnect]"

definition after :: "conn \<Rightarrow> int \<Rightarrow> action list \<Rightarrow> runner" where
  "after c n as = the (exec c as (new_runner n BLOCK))"

lemma after_reachable:
  assumes "exec c as (new_runner n BLOCK) = Some s"
  shows "reachable c n (after c n as)"
  using exec_reachable [OF reachable.start assms] by (simp add: after_def assms)

lemmas run_eval = example_conn_def new_runner_def observe_head_def observe_def new_tracker_def numbered_def
  recovered_def example_trade_def sequence_symbol_for_def observation_of_def qput_block qget_eq aq_full_def qsize_def
  repair_at_def remove_at_def new_queue_def

lemma stranding_exec:
  "exec example_conn stranding_run (new_runner 10 BLOCK) = Some
     \<lparr> r_tracker = [(''binance'', ''BTCUSDT'') \<mapsto> 3], r_queue = \<lparr> q_items = [recovered 2], q_maxsize = 10, q_policy = BLOCK, q_dropped = 0 \<rparr>,
       r_pump = Loop [], r_repairs = [], r_drain = Drained, r_stop = True, r_produced = [numbered 1, numbered 3],
       r_taken = [numbered 1, numbered 3, recovered 2], r_lost = [],
       r_seen = [(''binance'', ''BTCUSDT'', Some 1), (''binance'', ''BTCUSDT'', Some 3)],
       r_answered = [(\<lparr>gap_venue = ''binance'', gap_symbol = ''BTCUSDT'', last_seen = 1, next_seen = 3\<rparr>, Inr [recovered 2])] \<rparr>"
  unfolding stranding_run_def by (simp add: run_eval)

lemma cancelling_exec:
  "\<exists>s. exec example_conn cancelling_run (new_runner 1 BLOCK) = Some s \<and> r_lost s = [numbered 3] \<and> r_pump s = Loop []"
  unfolding cancelling_run_def by (simp add: run_eval)

text \<open>The same run up to the cancellation, and its next connection.\<close>

lemma waiting_exec:
  "\<exists>s. exec example_conn [Frame [], Observe, PumpPut, Observe] (new_runner 1 BLOCK) = Some s \<and>
     r_pump s = Putting (numbered 3) [] \<and> r_tracker s (''binance'', ''BTCUSDT'') = Some 3 \<and>
     (\<exists>s'. exec example_conn [CancelPump, Reconnect, DrainOne, Frame [], Observe, PumpPut, DrainOne, Observe] s = Some s')"
  by (simp add: run_eval)

text \<open>A run in which every trade gets through: the repair is over before the stop event.\<close>

definition complete_run :: "action list" where
  "complete_run = [Frame [], Observe, PumpPut, Observe, PumpPut, Answer 0 (Inr [recovered 2]), DrainOne,
     RepairPut 0, RepairDone 0, DrainOne, SetStop, DrainOne, DrainEnd]"

lemma complete_exec:
  "\<exists>s. exec example_conn complete_run (new_runner 10 BLOCK) = Some s \<and> finished s \<and> q_items (r_queue s) = [] \<and>
     r_produced s = [numbered 1, numbered 3, recovered 2]"
  unfolding complete_run_def by (simp add: run_eval finished_def)

lemma step_no_loss:
  "step c a s = Some s' \<Longrightarrow> a \<noteq> CancelPump \<Longrightarrow> a \<noteq> DrainFails \<Longrightarrow> r_lost s' = r_lost s"
  by (cases a) (auto simp: observe_head_def split: if_splits option.splits sum.splits pump.splits list.splits
      repair_task.splits prod.splits)

lemma exec_no_loss:
  "exec c as s = Some s' \<Longrightarrow> CancelPump \<notin> set as \<Longrightarrow> DrainFails \<notin> set as \<Longrightarrow> r_lost s' = r_lost s"
proof (induction as arbitrary: s)
  case (Cons a as)
  then obtain s1 where "step c a s = Some s1" "exec c as s1 = Some s'" by (auto split: option.splits)
  moreover have "r_lost s1 = r_lost s"
    by (rule step_no_loss [OF \<open>step c a s = Some s1\<close>]) (use Cons.prems in auto)
  ultimately show ?case using Cons by simp
qed simp

lemma recovered_neq: "recovered i \<noteq> numbered j"
proof
  assume "recovered i = numbered j"
  then have "t_is_backfill (recovered i) = t_is_backfill (numbered j)" by simp
  then show False by (simp add: recovered_def numbered_def example_trade_def)
qed

subsection \<open>Properties\<close>

text \<open>
  Property C1. No trade disappears without a trace: in every reachable state of a runner with
  a BLOCK queue, each trade parsed or recovered is exactly one of published, queued, held by
  the pump or a repair, or lost to a cancelled pump or a raising sink; the queue itself never
  drops one and never exceeds its bound.
\<close>

theorem runner_accounts_for_every_trade:
  assumes "reachable c n s"
  shows "mset (r_taken s) = mset (r_produced s) + mset (q_items (r_queue s)) + mset (pump_trades (r_pump s)) +
      mset (in_repair s) + mset (r_lost s) \<and>
    q_dropped (r_queue s) = 0 \<and> (0 < q_maxsize (r_queue s) \<longrightarrow> int (length (q_items (r_queue s))) \<le> q_maxsize (r_queue s))"
  using reachable_ok [OF assms] by (simp add: runner_ok_def block_ok_def q_ok_def qsize_def)

theorem runner_accounts_for_every_trade_witness:
  "\<exists>s. exec example_conn cancelling_run (new_runner 1 BLOCK) = Some s \<and>
     mset (r_taken s) = mset (r_produced s) + mset (q_items (r_queue s)) + mset (in_repair s) + {#numbered 3#}"
proof -
  obtain s where s: "exec example_conn cancelling_run (new_runner 1 BLOCK) = Some s" "r_lost s = [numbered 3]" "r_pump s = Loop []"
    using cancelling_exec by blast
  with runner_accounts_for_every_trade [OF exec_reachable [OF reachable.start s(1)]] show ?thesis by simp
qed

lemma undisturbed_run_produces:
  assumes "exec c as (new_runner n BLOCK) = Some s" and "CancelPump \<notin> set as" and "DrainFails \<notin> set as"
    and "finished s" and "q_items (r_queue s) = []"
  shows "mset (r_produced s) = mset (r_taken s)"
proof -
  have "r_lost s = []" using exec_no_loss [OF assms(1-3)] by (simp add: new_runner_def)
  with reachable_ok [OF exec_reachable [OF reachable.start assms(1)]] assms(4,5) show ?thesis
    by (simp add: runner_ok_def finished_def in_repair_def)
qed

text \<open>
  Property C17. Without a cancelled pump and without a raising sink, a run that ended with an
  empty queue has published every trade it took exactly once, stream and repairs alike.
\<close>

theorem undisturbed_run_publishes_everything:
  assumes "exec c as (new_runner n BLOCK) = Some s" and "CancelPump \<notin> set as" and "DrainFails \<notin> set as"
    and "finished s" and "q_items (r_queue s) = []"
  shows "mset (r_produced s) = mset (r_taken s)"
  by (rule undisturbed_run_produces [OF assms])

theorem undisturbed_run_publishes_everything_witness:
  "\<exists>s. exec example_conn complete_run (new_runner 10 BLOCK) = Some s \<and>
     mset (r_taken s) = {#numbered 1, numbered 3, recovered 2#}"
proof -
  obtain s where s: "exec example_conn complete_run (new_runner 10 BLOCK) = Some s" "finished s" "q_items (r_queue s) = []"
    "r_produced s = [numbered 1, numbered 3, recovered 2]"
    using complete_exec by blast
  with undisturbed_run_publishes_everything [OF s(1) _ _ s(2,3)] show ?thesis
    by (simp add: complete_run_def)
qed

text \<open>
  Property C16. Every miss on the stream gets a repair task: in every reachable state, each id
  between the first one seen since the last reset and the watermark was seen, or lies in a gap
  whose repair task is still waiting for its answer or has been answered by the connector; and all
  trades of an answer were taken in.
\<close>

theorem every_miss_starts_a_repair:
  assumes "reachable c n s" and "r_tracker s k = Some h" and "hd (seqs k (r_seen s)) \<le> i" and "i \<le> h"
  shows "i \<in> set (seqs k (r_seen s)) \<or> (\<exists>g. gap_key g = k \<and> i \<in> gap_ids g \<and>
    (Asking g \<in> set (r_repairs s) \<or>
     (\<exists>r. (g, r) \<in> set (r_answered s) \<and> c_repair c g r \<and> (\<forall>ts. r = Inr ts \<longrightarrow> set ts \<subseteq> set (r_taken s)))))"
proof -
  have "r_tracker s = run_tracker new_tracker (r_seen s)"
    using reachable_ok [OF assms(1)] by (simp add: runner_ok_def)
  with misses_covered [of "r_seen s" k h i] assms
  have "i \<in> set (seqs k (r_seen s)) \<or> (\<exists>g\<in>set (run_gaps new_tracker (r_seen s)). gap_key g = k \<and> i \<in> gap_ids g)" by simp
  with reachable_repairs_ok [OF assms(1)] show ?thesis
    unfolding repairs_ok_def repair_started_def by fastforce
qed

theorem every_miss_starts_a_repair_witness:
  "\<exists>s g. exec example_conn stranding_run (new_runner 10 BLOCK) = Some s \<and> 2 \<in> gap_ids g \<and> (g, Inr [recovered 2]) \<in> set (r_answered s)"
proof -
  obtain s where s: "exec example_conn stranding_run (new_runner 10 BLOCK) = Some s" "r_repairs s = []"
    "r_tracker s (''binance'', ''BTCUSDT'') = Some 3"
    "r_seen s = [(''binance'', ''BTCUSDT'', Some 1), (''binance'', ''BTCUSDT'', Some 3)]"
    by (rule that [OF stranding_exec]) simp_all
  from every_miss_starts_a_repair [OF exec_reachable [OF reachable.start s(1)] s(3), of 2]
  show ?thesis using s by (auto simp: example_conn_def)
qed

text \<open>
  Property C36. Shutdown can strand recovered trades: there is a run without any cancellation or
  error in which run returns, with the drain task over and every repair task gathered, while
  a trade recovered by a repair is still in the queue and was never published. The drain task
  leaves as soon as it sees the stop event and an empty queue, which does not wait for the
  repairs under way.
\<close>

theorem shutdown_strands_recovered_trade:
  "\<exists>s. exec example_conn stranding_run (new_runner 10 BLOCK) = Some s \<and>
     CancelPump \<notin> set stranding_run \<and> DrainFails \<notin> set stranding_run \<and> finished s \<and>
     q_items (r_queue s) = [recovered 2] \<and> recovered 2 \<notin> set (r_produced s)"
  by (rule exI, rule conjI, rule stranding_exec)
    (simp add: stranding_run_def finished_def recovered_neq)

text \<open>
  Property C37. A trade whose put is cancelled is lost for good, for every connector that keeps
  its watermarks across reconnects: when the session ends while the pump waits in queue.put with
  the newest trade of its key, that trade is dropped, and in no later state, whatever happens, was
  a repair started for a gap that contains its id. The tracker had observed it before the put, so
  its watermark is already past it.
\<close>

theorem cancelled_put_is_never_repaired:
  assumes "reachable c n s" and "\<not> c_resets c"
    and "r_pump s = Putting t ts" and "t_sequence t = Some q"
    and "r_tracker s (t_venue t, sequence_symbol_for c t) = Some q"
    and "exec c (CancelPump # as) s = Some s'"
  shows "t \<in> set (r_lost s') \<and> (\<forall>g. gap_key g = (t_venue t, sequence_symbol_for c t) \<and>
    (Asking g \<in> set (r_repairs s') \<or> g \<in> fst ` set (r_answered s')) \<longrightarrow> q \<notin> gap_ids g)"
proof -
  let ?k = "(t_venue t, sequence_symbol_for c t)"
  obtain s1 where s1: "step c CancelPump s = Some s1" "exec c as s1 = Some s'" using assms(6) by simp
  have "q \<notin> gap_ids g" if "repair_started s g" "gap_key g = ?k" for g
    using started_below [OF assms(1,2) that(1)] that(2) assms(5) by (auto simp: gap_ids_def)
  with assms(5) have "passed s ?k q" by (auto simp: passed_def)
  then have "passed s' ?k q" by (rule exec_passed [OF assms(6,2)])
  moreover have "t \<in> set (r_lost s1)" using s1(1) assms(3) by auto
  with exec_lost_kept [OF s1(2)] have "t \<in> set (r_lost s')" by blast
  ultimately show ?thesis by (simp add: passed_def repair_started_def)
qed

text \<open>The trade 3 of the example, and the connection after it.\<close>

theorem cancelled_put_is_never_repaired_witness:
  "\<exists>s s'. exec example_conn [Frame [], Observe, PumpPut, Observe] (new_runner 1 BLOCK) = Some s \<and>
     exec example_conn [CancelPump, Reconnect, DrainOne, Frame [], Observe, PumpPut, DrainOne, Observe] s = Some s' \<and>
     numbered 3 \<in> set (r_lost s') \<and> (\<forall>g. gap_key g = (''binance'', ''BTCUSDT'') \<and> Asking g \<in> set (r_repairs s') \<longrightarrow> 3 \<notin> gap_ids g)"
proof -
  obtain s s' where s: "exec example_conn [Frame [], Observe, PumpPut, Observe] (new_runner 1 BLOCK) = Some s"
    "r_pump s = Putting (numbered 3) []" "r_tracker s (''binance'', ''BTCUSDT'') = Some 3"
    "exec example_conn [CancelPump, Reconnect, DrainOne, Frame [], Observe, PumpPut, DrainOne, Observe] s = Some s'"
    using waiting_exec by blast
  have k: "(t_venue (numbered 3), sequence_symbol_for example_conn (numbered 3)) = (''binance'', ''BTCUSDT'')"
    "t_sequence (numbered 3) = Some 3" "\<not> c_resets example_conn"
    by (simp_all add: numbered_def example_trade_def sequence_symbol_for_def example_conn_def)
  from cancelled_put_is_never_repaired [OF exec_reachable [OF reachable.start s(1)] k(3) s(2) k(2) _ s(4)]
  have "numbered 3 \<in> set (r_lost s') \<and> (\<forall>g. gap_key g = (''binance'', ''BTCUSDT'') \<and>
      (Asking g \<in> set (r_repairs s') \<or> g \<in> fst ` set (r_answered s')) \<longrightarrow> 3 \<notin> gap_ids g)"
    unfolding k(1) by (rule, simp_all only: s(3))
  with s show ?thesis by blast
qed

end
