(* ===== verification/Encode.thy ===== *)
theory Encode
  imports Models Json
begin

text \<open>
  awsnative/encode.py: a trade as one compact JSON document. The schema version of
  ingest/core/codec.py goes into the body, since a Kinesis record has no headers. The lemmas
  show that the encoder's string literals and numerals are uniquely readable, hence that the
  document determines the trade.
\<close>

fun avro_json :: "avro \<Rightarrow> json" where
  "avro_json (AStr s) = JStr s"
| "avro_json (ALong i) = JInt i"
| "avro_json (ABool b) = JBool b"
| "avro_json ANull = JNull"

definition trade_to_dict :: "trade \<Rightarrow> (string, json) dict" where
  "trade_to_dict t = dict_set ''schema_version'' (JInt trade_schema_version)
     (map (\<lambda>kv. (fst kv, avro_json (snd kv))) (to_avro t))"

definition encode_trade :: "trade \<Rightarrow> string" where
  "encode_trade t = dumps (JObj (trade_to_dict t))"

subsection \<open>Unique readability\<close>

text \<open>A reader of one character of a string literal.\<close>

definition hex_value :: "char \<Rightarrow> nat" where
  "hex_value ch = (let n = of_char ch in if n < 58 then n - 48 else n - 87)"

definition unescape :: "string \<Rightarrow> (char \<times> string) option" where
  "unescape s = (case s of [] \<Rightarrow> None
   | a # rest \<Rightarrow>
       if (of_char a :: nat) \<noteq> 92 then Some (a, rest)
       else (case rest of [] \<Rightarrow> None
         | e # r \<Rightarrow> (let k = (of_char e :: nat) in
             if k = 117 then (case r of
                 z1 # z2 # h # l # r' \<Rightarrow> Some (char_of (16 * hex_value h + hex_value l), r')
               | _ \<Rightarrow> None)
             else Some (char_of (if k = 98 then 8 else if k = 116 then 9 else if k = 110 then 10
               else if k = 102 then 12 else if k = 114 then 13 else k), r))))"

lemma hex_value_digit: "d < 16 \<Longrightarrow> hex_value (hex_digit d) = d"
  by (auto simp: hex_value_def hex_digit_def Let_def)

lemma unescape_json_chr: "unescape (json_chr c @ x) = Some (c, x)"
proof -
  let ?n = "of_char c :: nat"
  have c: "c = char_of ?n" by simp
  have lt: "?n div 16 < 16" "?n mod 16 < 16"
    using nat_of_char_less_256 [of c] by (auto intro: less_mult_imp_div_less)
  consider "?n = 34" | "?n = 92" | "?n = 8" | "?n = 9" | "?n = 10" | "?n = 12" | "?n = 13"
    | "?n \<notin> {34, 92, 8, 9, 10, 12, 13}" by auto
  then show ?thesis
  proof cases
    case 8
    show ?thesis
    proof (cases "?n < 32 \<or> 127 \<le> ?n")
      case True
      with 8 have "json_chr c = [char_of (92::nat), CHR ''u'', CHR ''0'', CHR ''0'',
          hex_digit (?n div 16), hex_digit (?n mod 16)]"
        by (simp add: json_chr_def Let_def)
      then show ?thesis by (simp add: unescape_def hex_value_digit lt Let_def)
    next
      case False
      with 8 show ?thesis by (simp add: json_chr_def unescape_def Let_def)
    qed
  qed (simp_all add: json_chr_def unescape_def Let_def, (subst c, simp)+)
qed

lemma json_chr_prefix_free: "json_chr c @ x = json_chr d @ y \<Longrightarrow> c = d \<and> x = y"
  by (metis option.inject prod.inject unescape_json_chr)

lemma json_chr_hd: "\<exists>a r. json_chr c = a # r \<and> (of_char a :: nat) \<noteq> 34"
  by (auto simp: json_chr_def Let_def)

lemma json_quote_prefix_free: "json_quote s @ x = json_quote s' @ y \<longleftrightarrow> s = s' \<and> x = y"
proof
  have "concat (map json_chr s) @ char_of (34::nat) # x = concat (map json_chr s') @ char_of (34::nat) # y \<Longrightarrow>
      s = s' \<and> x = y" for x y
  proof (induction s arbitrary: s')
    case Nil
    then show ?case using json_chr_hd [of "hd s'"] by (cases s') auto
  next
    case (Cons c s)
    show ?case
    proof (cases s')
      case Nil
      with Cons.prems show ?thesis using json_chr_hd [of c] by auto
    next
      case (Cons d ds)
      with Cons.prems have "json_chr c @ (concat (map json_chr s) @ char_of (34::nat) # x) =
          json_chr d @ (concat (map json_chr ds) @ char_of (34::nat) # y)" by simp
      from json_chr_prefix_free [OF this] Cons.IH [of ds] Cons show ?thesis by simp
    qed
  qed
  then show "json_quote s @ x = json_quote s' @ y \<Longrightarrow> s = s' \<and> x = y" by (simp add: json_quote_def)
qed simp

lemma int_str_prefix_free: "int_str i @ CHR '','' # x = int_str j @ CHR '','' # y \<longleftrightarrow> i = j \<and> x = y"
proof -
  have "CHR '','' \<notin> set (int_str k)" for k by (rule int_str_no_char) simp
  then show ?thesis by (simp add: sep_append_eq_iff int_str_inj)
qed

lemma opt_prefix_free:
  "dumps (avro_json (avro_opt p)) @ CHR '','' # x = dumps (avro_json (avro_opt q)) @ CHR '','' # y \<longleftrightarrow> p = q \<and> x = y"
proof -
  have n: "CHR ''n'' \<notin> set (int_str k)" for k by (rule int_str_no_char) simp
  have ne: "''null'' @ CHR '','' # u \<noteq> int_str k @ CHR '','' # v" "int_str k @ CHR '','' # v \<noteq> ''null'' @ CHR '','' # u" for k u v
    using n [of k] by (cases "int_str k"; auto)+
  show ?thesis
    using ne by (cases p; cases q) (auto simp: int_str_prefix_free)
qed

lemma bool_prefix_free:
  "(if a then ''true'' else ''false'') @ CHR '','' # x = (if b then ''true'' else ''false'') @ CHR '','' # y \<longleftrightarrow> a = b \<and> x = y"
  by (cases a; cases b) auto

text \<open>The document, field by field.\<close>

definition field :: "string \<Rightarrow> string \<Rightarrow> string \<Rightarrow> string" where
  "field k v rest = json_quote k @ CHR '':'' # v @ CHR '','' # rest"

lemma field_text: "field k (json_quote s) x = field k (json_quote s') y \<longleftrightarrow> s = s' \<and> x = y"
  by (simp add: field_def json_quote_prefix_free)

lemma field_int: "field k (int_str i) x = field k (int_str j) y \<longleftrightarrow> i = j \<and> x = y"
  by (simp add: field_def json_quote_prefix_free int_str_prefix_free)

lemma field_opt: "field k (dumps (avro_json (avro_opt p))) x = field k (dumps (avro_json (avro_opt q))) y \<longleftrightarrow> p = q \<and> x = y"
  by (simp add: field_def json_quote_prefix_free opt_prefix_free)

lemma field_bool: "field k (if a then ''true'' else ''false'') x = field k (if b then ''true'' else ''false'') y \<longleftrightarrow> a = b \<and> x = y"
  by (simp only: field_def json_quote_prefix_free list.inject bool_prefix_free simp_thms)

lemma encode_trade_fields:
  "encode_trade t = CHR ''{'' #
     field ''venue'' (json_quote (t_venue t)) (field ''venue_symbol'' (json_quote (t_venue_symbol t))
     (field ''instrument_id'' (json_quote (t_instrument_id t)) (field ''trade_id'' (json_quote (t_trade_id t))
     (field ''event_ts_us'' (int_str (t_event_ts_us t)) (field ''ingest_ts_us'' (int_str (t_ingest_ts_us t))
     (field ''price'' (json_quote (t_price t)) (field ''size'' (json_quote (t_size t))
     (field ''side'' (json_quote (side_str (t_side t)))
     (field ''sequence'' (dumps (avro_json (avro_opt (t_sequence t))))
     (field ''is_backfill'' (if t_is_backfill t then ''true'' else ''false'')
     (field ''source'' (json_quote (source_str (t_source t)))
       (json_quote ''schema_version'' @ '':1}''))))))))))))"
  by (simp add: encode_trade_def trade_to_dict_def to_avro_def field_def trade_schema_version_def
      int_str_def nat_str.simps [of "Suc 0"] digit_chr_def char_of_def bit_iff_odd)

lemma json_quote_no_newline: "of_char ch = (10::nat) \<Longrightarrow> ch \<notin> set (json_quote s)"
proof -
  assume n: "of_char ch = (10::nat)"
  then have "ch \<noteq> char_of (34::nat)" by auto
  with json_chr_no_newline [OF n] show ?thesis by (auto simp: json_quote_def)
qed

lemma field_no_newline:
  assumes "of_char ch = (10::nat)" and "ch \<notin> set v"
  shows "ch \<in> set (field k v x) \<longleftrightarrow> ch \<in> set x"
  using assms json_quote_no_newline [OF assms(1), of k] by (auto simp: field_def)

subsection \<open>Properties\<close>

text \<open>
  The wire format of the Kinesis path loses nothing: two trades have the same
  document exactly when they are the same trade, quoting, escaping and numerals included.
\<close>

theorem encode_trade_injective: "encode_trade t = encode_trade u \<longleftrightarrow> t = u"
proof
  assume "encode_trade t = encode_trade u"
  then show "t = u"
    by (cases t; cases u)
      (simp only: encode_trade_fields field_text field_int field_opt field_bool list.inject simp_thms
        trade.simps side_str_inj source_str_inj)
qed simp

text \<open>
  One record is one line: the document of a trade never contains a newline,
  whatever characters its texts hold, so a consumer reading one JSON document per record or
  per line never sees a split one.
\<close>

theorem encode_trade_single_line: "char_of (10::nat) \<notin> set (encode_trade t)"
proof -
  let ?ch = "char_of (10::nat) :: char"
  have n: "of_char ?ch = (10::nat)" by simp
  have i: "?ch \<notin> set (int_str i)" for i by (rule int_str_no_char) simp
  have o: "?ch \<notin> set (dumps (avro_json (avro_opt p)))" for p
    using i by (cases p) (auto simp: char_of_def)
  have b: "?ch \<notin> set (if c then ''true'' else ''false'')" for c by (auto simp: char_of_def)
  show ?thesis
    unfolding encode_trade_fields
    using json_quote_no_newline [OF n] i o b by (simp add: field_no_newline [OF n]) (auto simp: char_of_def)
qed

end
