(* ===== verification/Producer.thy ===== *)
theory Producer
  imports Encode
begin

text \<open>
  The Kafka side of the transport seam: ingest/core/codec.py and ingest/core/producer.py. The
  Avro library is the pair of parameters write_avro and read_avro (fastavro's schemaless
  writer and reader for a schema); the state of the confluent producer is the list of the
  messages it took, newest last, and the parameter lib says which message it refuses.
\<close>

subsection \<open>The codec\<close>

type_synonym schema = "(string \<times> avro_type) list"

text \<open>trade_codec(version): the schemas directory of the repository holds trade.v1.avsc only.\<close>

definition trade_codec :: "string \<Rightarrow> int \<Rightarrow> schema res" where
  "trade_codec schema_dir version =
     (let path = schema_dir @ ''/trade.v'' @ int_str version @ ''.avsc''
      in if version = 1 then Inr trade_v1
         else Inl (Exn FileNotFoundError
           (''no trade schema for version '' @ int_str version @ '': '' @ path)))"

text \<open>What a schemaless reader can answer: a record or something else, with its type's repr.\<close>

datatype avro_datum = Record "(string, avro) dict" | NoRecord string

type_synonym avro_writer = "schema \<Rightarrow> (string, avro) dict \<Rightarrow> string res"
type_synonym avro_reader = "schema \<Rightarrow> string \<Rightarrow> avro_datum res"

definition codec_encode :: "avro_writer \<Rightarrow> schema \<Rightarrow> (string, avro) dict \<Rightarrow> string res" where
  "codec_encode write_avro sch record = write_avro sch record"

definition codec_decode :: "avro_reader \<Rightarrow> schema \<Rightarrow> string \<Rightarrow> (string, avro) dict res" where
  "codec_decode read_avro sch data = rbind (read_avro sch data) (\<lambda>result. case result of
     Record d \<Rightarrow> Inr d
   | NoRecord ty \<Rightarrow> Inl (Exn TypeError (''expected a record (dict), got '' @ ty)))"

subsection \<open>The configuration\<close>

datatype conf = CText string | CInt int | CBool bool

definition base_config :: "string \<Rightarrow> (string, conf) dict" where
  "base_config servers =
     [(''bootstrap.servers'', CText servers), (''acks'', CText ''all''),
      (''enable.idempotence'', CBool True), (''compression.type'', CText ''zstd''),
      (''linger.ms'', CInt 20), (''batch.size'', CInt 262144),
      (''max.in.flight.requests.per.connection'', CInt 5), (''retries'', CInt 10000000),
      (''delivery.timeout.ms'', CInt 300000)]"

text \<open>config |= other.\<close>

definition dict_update :: "('k, 'v) dict \<Rightarrow> ('k, 'v) dict \<Rightarrow> ('k, 'v) dict" where
  "dict_update d e = foldl (\<lambda>acc kv. dict_set (fst kv) (snd kv) acc) d e"

fun text_true :: "string option \<Rightarrow> bool" where
  "text_true None = False"
| "text_true (Some s) = (s \<noteq> [])"

definition build_config :: "string \<Rightarrow> string option \<Rightarrow> string option \<Rightarrow> (string, conf) dict" where
  "build_config servers username password =
     (if text_true username \<and> text_true password
      then dict_update (base_config servers)
        [(''security.protocol'', CText ''SASL_SSL''), (''sasl.mechanisms'', CText ''SCRAM-SHA-512''),
         (''sasl.username'', CText (the username)), (''sasl.password'', CText (the password))]
      else base_config servers)"

subsection \<open>The producer\<close>

record kafka_message =
  m_topic :: string
  m_key :: string
  m_value :: string
  m_headers :: "(string \<times> string) list"

record trade_producer =
  p_config :: "(string, conf) dict"
  p_schema :: schema
  p_handed :: "kafka_message list"

definition new_producer :: "string \<Rightarrow> string \<Rightarrow> string option \<Rightarrow> string option \<Rightarrow> trade_producer res" where
  "new_producer schema_dir servers username password =
     rbind (trade_codec schema_dir trade_schema_version) (\<lambda>sch.
       Inr \<lparr> p_config = build_config servers username password, p_schema = sch, p_handed = [] \<rparr>)"

definition trade_headers :: "trade \<Rightarrow> (string \<times> string) list" where
  "trade_headers t =
     [(''schema_version'', int_str trade_schema_version), (''venue'', t_venue t),
      (''is_backfill'', if t_is_backfill t then ''true'' else ''false''),
      (''source'', source_str (t_source t))]"

text \<open>
  What the library's produce raises (a BufferError when its local queue is full), or None when it
  takes the message, given the messages it took before.
\<close>

type_synonym kafka_lib = "kafka_message list \<Rightarrow> kafka_message \<Rightarrow> exn option"

definition producer_produce ::
  "kafka_lib \<Rightarrow> avro_writer \<Rightarrow> trade_producer \<Rightarrow> string \<Rightarrow> trade \<Rightarrow> trade_producer res" where
  "producer_produce lib write_avro p topic t =
     rbind (codec_encode write_avro (p_schema p) (to_avro t)) (\<lambda>value.
       (let msg = \<lparr> m_topic = topic, m_key = kafka_key t, m_value = value, m_headers = trade_headers t \<rparr>
        in case lib (p_handed p) msg of
             Some e \<Rightarrow> Inl e
           | None \<Rightarrow> Inr (p\<lparr>p_handed := p_handed p @ [msg]\<rparr>)))"

text \<open>A library whose local queue never fills.\<close>

definition roomy_lib :: kafka_lib where
  "roomy_lib handed msg = None"

text \<open>poll and flush return what the library's calls return, as an int.\<close>

definition producer_poll :: "(trade_producer \<Rightarrow> int) \<Rightarrow> trade_producer \<Rightarrow> int" where
  "producer_poll poll_lib p = poll_lib p"

definition producer_flush :: "(trade_producer \<Rightarrow> int) \<Rightarrow> trade_producer \<Rightarrow> int" where
  "producer_flush flush_lib p = flush_lib p"

text \<open>A library that keeps records as a list of length-prefixed pieces, for the witness.\<close>

fun avro_piece :: "avro \<Rightarrow> string" where
  "avro_piece (AStr s) = ''s'' @ nat_str (length s) @ '':'' @ s"
| "avro_piece (ALong i) = ''l'' @ int_str i @ '',''"
| "avro_piece (ABool b) = (if b then ''t'' else ''f'')"
| "avro_piece ANull = ''n''"

definition avro_text :: "(string, avro) dict \<Rightarrow> string" where
  "avro_text d = concat (map (\<lambda>kv. avro_piece (AStr (fst kv)) @ avro_piece (snd kv)) d)"

lemma avro_piece_prefix_free: "avro_piece a @ x = avro_piece b @ y \<longleftrightarrow> a = b \<and> x = y"
proof -
  have "CHR '':'' \<notin> set (nat_str k)" for k by (rule nat_str_no_char) simp
  then have "nat_str k @ CHR '':'' # u = nat_str l @ CHR '':'' # v \<longleftrightarrow> k = l \<and> u = v" for k l u v
    by (simp add: sep_append_eq_iff nat_str_inj)
  then show ?thesis
    by (cases a; cases b) (auto simp: int_str_prefix_free append_eq_append_conv)
qed

lemma avro_text_inj: "inj avro_text"
proof -
  have "avro_text d = avro_text e \<Longrightarrow> d = e" for d e
  proof (induction d arbitrary: e)
    case Nil
    then show ?case by (cases e) (auto simp: avro_text_def)
  next
    case (Cons kv d)
    show ?case
    proof (cases e)
      case Nil
      with Cons.prems show ?thesis by (auto simp: avro_text_def)
    next
      case (Cons lw e')
      with Cons.prems have "avro_piece (AStr (fst kv)) @ avro_piece (snd kv) @ avro_text d =
          avro_piece (AStr (fst lw)) @ avro_piece (snd lw) @ avro_text e'"
        by (simp add: avro_text_def)
      then have "fst kv = fst lw" "snd kv = snd lw" "avro_text d = avro_text e'"
        unfolding avro_piece_prefix_free by auto
      with Cons.IH Cons show ?thesis by (simp add: prod_eq_iff)
    qed
  qed
  then show ?thesis by (rule injI)
qed

subsection \<open>Properties\<close>

text \<open>
  Property C26. Every trade can be written with the schema of the repository exactly when its
  three numeric fields fit the 64-bit long of Avro: the field names, their order, the types
  and the enumeration symbols always agree.
\<close>

theorem trade_fits_schema_iff:
  "conforms (to_avro t) trade_v1 \<longleftrightarrow>
     int64 (t_event_ts_us t) \<and> int64 (t_ingest_ts_us t) \<and>
     (case t_sequence t of None \<Rightarrow> True | Some i \<Rightarrow> int64 i)"
  by (simp add: to_avro_conforms_iff split: option.splits)

text \<open>
  The Avro path loses nothing: with a library that reads back every conforming
  record it writes and whose local queue takes the message, decoding the value of a produced message gives the record of the trade
  back, and two conforming trades with the same value are the same trade. The message carries
  the partition key and the four headers of the trade, and goes behind the ones before it.
\<close>

theorem produced_message_roundtrip:
  assumes "\<forall>d. conforms d trade_v1 \<longrightarrow> (\<exists>bs. write_avro trade_v1 d = Inr bs \<and> read_avro trade_v1 bs = Inr (Record d))"
    and "conforms (to_avro t) trade_v1" and "p_schema p = trade_v1" and "\<forall>msg. lib (p_handed p) msg = None"
  shows "\<exists>msg. producer_produce lib write_avro p topic t = Inr (p\<lparr>p_handed := p_handed p @ [msg]\<rparr>) \<and>
    m_topic msg = topic \<and> m_key msg = kafka_key t \<and> m_headers msg = trade_headers t \<and>
    codec_decode read_avro trade_v1 (m_value msg) = Inr (to_avro t) \<and>
    (\<forall>u. conforms (to_avro u) trade_v1 \<and> codec_encode write_avro trade_v1 (to_avro u) = Inr (m_value msg) \<longrightarrow> u = t)"
proof -
  obtain bs where bs: "write_avro trade_v1 (to_avro t) = Inr bs" "read_avro trade_v1 bs = Inr (Record (to_avro t))"
    using assms(1,2) by blast
  have "u = t" if "conforms (to_avro u) trade_v1" "write_avro trade_v1 (to_avro u) = Inr bs" for u
  proof -
    have "read_avro trade_v1 bs = Inr (Record (to_avro u))" using assms(1) that by fastforce
    with bs(2) have "to_avro u = to_avro t" by simp
    then show ?thesis by (rule to_avro_inj)
  qed
  with bs assms(3,4) show ?thesis
    by (intro exI [of _ "\<lparr> m_topic = topic, m_key = kafka_key t, m_value = bs, m_headers = trade_headers t \<rparr>"])
      (simp add: producer_produce_def codec_encode_def codec_decode_def Let_def)
qed

theorem produced_message_roundtrip_witness:
  "\<exists>msg. producer_produce roomy_lib (\<lambda>sch d. Inr (avro_text d))
      \<lparr>p_config = [], p_schema = trade_v1, p_handed = []\<rparr> ''md.trades.v1'' example_trade =
        Inr \<lparr>p_config = [], p_schema = trade_v1, p_handed = [msg]\<rparr> \<and>
    codec_decode (\<lambda>sch bs. Inr (Record (inv avro_text bs))) trade_v1 (m_value msg) = Inr (to_avro example_trade)"
  using produced_message_roundtrip [of "\<lambda>sch d. Inr (avro_text d)" "\<lambda>sch bs. Inr (Record (inv avro_text bs))"
      example_trade "\<lparr>p_config = [], p_schema = trade_v1, p_handed = []\<rparr>" roomy_lib "''md.trades.v1''"]
  by (auto simp: roomy_lib_def to_avro_conforms_iff example_trade_def int64_def inv_f_f avro_text_inj)

text \<open>
  Credentials are all or nothing: without a user name or without a password the
  configuration names no security setting, with both it names SASL over TLS and both of them;
  the delivery settings (acks from all replicas, idempotence) are the same either way.
\<close>

theorem config_credentials_all_or_nothing:
  "map_of (build_config servers username password) ''acks'' = Some (CText ''all'') \<and>
   map_of (build_config servers username password) ''enable.idempotence'' = Some (CBool True) \<and>
   map_of (build_config servers username password) ''bootstrap.servers'' = Some (CText servers) \<and>
   (if text_true username \<and> text_true password
    then map_of (build_config servers username password) ''security.protocol'' = Some (CText ''SASL_SSL'') \<and>
      map_of (build_config servers username password) ''sasl.username'' = map_option CText username \<and>
      map_of (build_config servers username password) ''sasl.password'' = map_option CText password
    else map_of (build_config servers username password) ''security.protocol'' = None \<and>
      map_of (build_config servers username password) ''sasl.username'' = None \<and>
      map_of (build_config servers username password) ''sasl.password'' = None)"
proof (cases "text_true username \<and> text_true password")
  case True
  then obtain u p where up: "username = Some u" "password = Some p"
    by (cases username; cases password) auto
  have "build_config servers username password = base_config servers @
      [(''security.protocol'', CText ''SASL_SSL''), (''sasl.mechanisms'', CText ''SCRAM-SHA-512''),
       (''sasl.username'', CText u), (''sasl.password'', CText p)]"
    using True by (simp add: up build_config_def dict_update_def base_config_def)
  with True show ?thesis by (simp add: up base_config_def)
next
  case False
  then have "build_config servers username password = base_config servers"
    by (simp only: build_config_def if_False)
  with False show ?thesis by (simp only: if_False) (simp add: base_config_def)
qed

end
