(* ===== verification/Sink.thy ===== *)
theory Sink
  imports Producer Complex_Main
begin

text \<open>
  The sinks behind ingest/core/sinks.py: awsnative/sink.py (KinesisSink) in full, and the
  protocol as a locale that KinesisSink and the Kafka TradeProducer of theory Producer
  interpret. The boto3 client is the parameter client: the answer to a put_records request,
  given the requests made before it; jitter k is the k-th draw of random.uniform(0, 1). An
  operation returns what it does at the client (requests with their answers, sleeps) beside
  its state and its result. Backoff delays are exact rationals.
\<close>

record krec =
  k_data :: string
  k_key :: string

text \<open>FailedRecordCount and the ErrorCode of each entry of Records.\<close>

record put_response =
  failed_count :: int
  error_codes :: "string option list"

datatype k_act = Put "krec list" put_response | PutRaised "krec list" exn | Nap rat

type_synonym client = "krec list list \<Rightarrow> krec list \<Rightarrow> put_response res"

record kinesis =
  ks_buffer :: "krec list"
  ks_bytes :: int
  ks_max_batch :: int
  ks_max_bytes :: int
  ks_max_attempts :: nat
  ks_log :: "krec list list"

definition new_kinesis :: "int \<Rightarrow> int \<Rightarrow> nat \<Rightarrow> kinesis" where
  "new_kinesis max_batch max_bytes attempts = \<lparr> ks_buffer = [], ks_bytes = 0, ks_max_batch = max_batch,
     ks_max_bytes = max_bytes, ks_max_attempts = attempts, ks_log = [] \<rparr>"

text \<open>The defaults: 500 records, 4.5 MB and 8 attempts.\<close>

definition default_kinesis :: kinesis where
  "default_kinesis = new_kinesis 500 4500000 8"

definition data_bytes :: "krec list \<Rightarrow> int" where
  "data_bytes rs = sum_list (map (\<lambda>r. int (length (k_data r))) rs)"

definition trade_record :: "trade \<Rightarrow> krec" where
  "trade_record t = \<lparr> k_data = encode_trade t, k_key = kafka_key t \<rparr>"

definition kinesis_produce :: "kinesis \<Rightarrow> string \<Rightarrow> trade \<Rightarrow> kinesis" where
  "kinesis_produce s topic t = s\<lparr> ks_buffer := ks_buffer s @ [trade_record t],
     ks_bytes := ks_bytes s + int (length (k_data (trade_record t))) \<rparr>"

text \<open>The loop of _take_batch: the batch so far, its size, the records left.\<close>

fun take_from :: "int \<Rightarrow> int \<Rightarrow> krec list \<Rightarrow> int \<Rightarrow> krec list \<Rightarrow> krec list \<times> krec list" where
  "take_from mb my batch used [] = (batch, [])"
| "take_from mb my batch used (r # rs) =
     (let n = int (length (k_data r)) in
      if batch \<noteq> [] \<and> (mb \<le> int (length batch) \<or> my < used + n) then (batch, r # rs)
      else take_from mb my (batch @ [r]) (used + n) rs)"

definition take_batch :: "int \<Rightarrow> int \<Rightarrow> krec list \<Rightarrow> krec list \<times> krec list" where
  "take_batch mb my buf = take_from mb my [] 0 buf"

definition is_error :: "string option \<Rightarrow> bool" where
  "is_error code = text_true code"

definition still_failed :: "krec list \<Rightarrow> put_response \<Rightarrow> krec list" where
  "still_failed pending r = map fst (filter (\<lambda>(rec, code). is_error code) (zip pending (error_codes r)))"

definition refuse :: "nat \<Rightarrow> nat \<Rightarrow> exn" where
  "refuse pending attempts = Exn RuntimeError (''kinesis put_records failed for '' @ nat_str pending
     @ '' record(s) after '' @ nat_str attempts @ '' attempts; refusing to drop trades'')"

text \<open>_send_with_retry: attempts left, attempts made, the batch, what is pending of it, the requests so far.\<close>

fun send_loop :: "client \<Rightarrow> (nat \<Rightarrow> rat) \<Rightarrow> nat \<Rightarrow> nat \<Rightarrow> krec list \<Rightarrow> krec list \<Rightarrow> krec list list
    \<Rightarrow> k_act list \<times> krec list list \<times> nat res" where
  "send_loop client jitter 0 made records pending lg = ([], lg, Inl (refuse (length pending) made))"
| "send_loop client jitter (Suc left) made records pending lg =
     (let naps = (if made \<noteq> 0 then [Nap (jitter (length lg) * min 5 (1 / 20 * 2 ^ made))] else []);
          lg' = lg @ [pending]
      in case client lg pending of
           Inl e \<Rightarrow> (naps @ [PutRaised pending e], lg', Inl e)
         | Inr r \<Rightarrow>
             if failed_count r = 0 then (naps @ [Put pending r], lg', Inr (length pending))
             else (let rest = still_failed pending r in
               if rest = [] then (naps @ [Put pending r], lg', Inr (length records))
               else (case send_loop client jitter left (Suc made) records rest lg' of
                 (acts, lg'', res) \<Rightarrow> (naps @ Put pending r # acts, lg'', res))))"

definition send_with_retry :: "client \<Rightarrow> (nat \<Rightarrow> rat) \<Rightarrow> nat \<Rightarrow> krec list \<Rightarrow> krec list list
    \<Rightarrow> k_act list \<times> krec list list \<times> nat res" where
  "send_with_retry client jitter attempts records lg = send_loop client jitter attempts 0 records records lg"

lemma take_from_split: "take_from mb my b n rs = (batch, rest) \<Longrightarrow> batch @ rest = b @ rs"
  by (induction mb my b n rs rule: take_from.induct) (auto simp: Let_def split: if_splits)

lemma take_from_prefix: "take_from mb my b n rs = (batch, rest) \<Longrightarrow> \<exists>c. batch = b @ c"
  by (induction mb my b n rs rule: take_from.induct) (auto simp: Let_def split: if_splits)

lemma take_batch_split: "take_batch mb my buf = (batch, rest) \<Longrightarrow> batch @ rest = buf"
  using take_from_split [of mb my "[]" 0 buf] by (simp add: take_batch_def)

lemma take_batch_nonempty: "take_batch mb my (r # rs) = (batch, rest) \<Longrightarrow> batch \<noteq> []"
  using take_from_prefix [of mb my "[r]" "int (length (k_data r))" rs batch rest]
  by (auto simp: take_batch_def)

text \<open>_send_all: the buffer shrinks by the batch before the batch is sent.\<close>

function ks_send_all :: "client \<Rightarrow> (nat \<Rightarrow> rat) \<Rightarrow> kinesis \<Rightarrow> k_act list \<times> kinesis \<times> nat res" where
  "ks_send_all client jitter s = (if ks_buffer s = [] then ([], s, Inr 0)
     else (let (batch, rest) = take_batch (ks_max_batch s) (ks_max_bytes s) (ks_buffer s);
               (acts, lg, sent) = send_with_retry client jitter (ks_max_attempts s) batch (ks_log s);
               s1 = s\<lparr> ks_buffer := rest, ks_bytes := data_bytes rest, ks_log := lg \<rparr>
           in case sent of
                Inl e \<Rightarrow> (acts, s1, Inl e)
              | Inr n \<Rightarrow> (case ks_send_all client jitter s1 of
                  (acts', s2, r) \<Rightarrow> (acts @ acts', s2, rbind r (\<lambda>k. Inr (n + k))))))"
  by pat_completeness auto
termination
proof (relation "measure (\<lambda>(c, j, s). length (ks_buffer s))", simp, goal_cases)
  case (1 client jitter s p batch rest q acts lg_sent lg sent s1 n)
  then have "take_batch (ks_max_batch s) (ks_max_bytes s) (ks_buffer s) = (batch, rest)" by simp
  moreover obtain r rs where "ks_buffer s = r # rs" using 1(1) by (cases "ks_buffer s") auto
  ultimately have "batch \<noteq> []" and "length batch + length rest = length (ks_buffer s)"
    using take_batch_nonempty take_batch_split by (metis, metis length_append)
  with 1 show ?case by (cases batch) auto
qed

declare ks_send_all.simps [simp del]

definition kinesis_poll :: "client \<Rightarrow> (nat \<Rightarrow> rat) \<Rightarrow> kinesis \<Rightarrow> k_act list \<times> kinesis \<times> nat res" where
  "kinesis_poll client jitter s =
     (if ks_max_batch s \<le> int (length (ks_buffer s)) \<or> ks_max_bytes s \<le> ks_bytes s
      then ks_send_all client jitter s else ([], s, Inr 0))"

definition kinesis_flush :: "client \<Rightarrow> (nat \<Rightarrow> rat) \<Rightarrow> kinesis \<Rightarrow> k_act list \<times> kinesis \<times> nat res" where
  "kinesis_flush client jitter s = (case ks_send_all client jitter s of
     (acts, s', r) \<Rightarrow> (acts, s', rbind r (\<lambda>n. Inr (length (ks_buffer s')))))"

subsection \<open>What a run delivers\<close>

text \<open>The records an answered request was accepted for: all, or those without an error code.\<close>

fun accepted_by :: "k_act \<Rightarrow> krec list" where
  "accepted_by (Put p r) = (if failed_count r = 0 then p
     else map fst (filter (\<lambda>(rec, code). \<not> is_error code) (zip p (error_codes r))))"
| "accepted_by (PutRaised p e) = []"
| "accepted_by (Nap x) = []"

definition accepted :: "k_act list \<Rightarrow> krec list" where
  "accepted acts = concat (map accepted_by acts)"

text \<open>put_records as documented: one entry per record, and the count of those with an error code.\<close>

definition truthful :: "client \<Rightarrow> bool" where
  "truthful client \<longleftrightarrow> (\<forall>lg p r. client lg p = Inr r \<longrightarrow>
     length (error_codes r) = length p \<and> failed_count r = int (length (filter is_error (error_codes r))))"

fun requests :: "k_act list \<Rightarrow> krec list list" where
  "requests [] = []"
| "requests (Put p r # acts) = p # requests acts"
| "requests (PutRaised p e # acts) = p # requests acts"
| "requests (Nap x # acts) = requests acts"

lemma accepted_simps [simp]:
  "accepted [] = []" "accepted (a # acts) = accepted_by a @ accepted acts"
  "accepted (as @ bs) = accepted as @ accepted bs"
  by (simp_all add: accepted_def)

lemma requests_append [simp]: "requests (as @ bs) = requests as @ requests bs"
  by (induction as rule: requests.induct) auto

lemma naps_simps [simp]:
  "accepted (if c then [Nap x] else []) = []" "requests (if c then [Nap x] else []) = []"
  by auto

text \<open>An answered request splits what was pending into the accepted and the still failed.\<close>

lemma split_by_code:
  "length codes = length p \<Longrightarrow>
   mset (map fst (filter (\<lambda>(rec, code). \<not> is_error code) (zip p codes))) +
     mset (map fst (filter (\<lambda>(rec, code). is_error code) (zip p codes))) = mset p"
proof (induction p arbitrary: codes)
  case (Cons r p)
  then show ?case by (cases codes) auto
qed simp

lemma no_failed_none:
  assumes "length codes = length p" and "map fst (filter (\<lambda>(rec, code). is_error code) (zip p codes)) = []"
  shows "filter is_error codes = []"
  using assms
proof (induction p arbitrary: codes)
  case (Cons r p)
  then show ?case by (cases codes) (auto split: if_splits)
qed simp

lemma answered_split:
  assumes "truthful client" and "client lg p = Inr r"
  shows "mset (accepted_by (Put p r)) + mset (if failed_count r = 0 then [] else still_failed p r) = mset p"
    and "failed_count r \<noteq> 0 \<Longrightarrow> still_failed p r \<noteq> []"
proof -
  from assms have len: "length (error_codes r) = length p"
    and cnt: "failed_count r = int (length (filter is_error (error_codes r)))"
    by (auto simp: truthful_def)
  from split_by_code [OF len] show "mset (accepted_by (Put p r)) + mset (if failed_count r = 0 then [] else still_failed p r) = mset p"
    by (simp add: still_failed_def)
  show "failed_count r \<noteq> 0 \<Longrightarrow> still_failed p r \<noteq> []"
    using no_failed_none [OF len] cnt by (auto simp: still_failed_def)
qed

lemma send_loop_account:
  assumes "truthful client" and "send_loop client jitter left made records pending lg = (acts, lg', res)"
    and "pending \<noteq> []"
  shows "case res of
      Inr n \<Rightarrow> mset (accepted acts) = mset pending
    | Inl e \<Rightarrow> \<exists>lost. lost \<noteq> [] \<and> mset (accepted acts) + mset lost = mset pending"
  using assms(2,3)
proof (induction left arbitrary: made pending lg acts lg' res)
  case 0
  then show ?case by auto
next
  case (Suc left)
  show ?case
  proof (cases "client lg pending")
    case (Inl e)
    with Suc.prems show ?thesis by (auto simp: Let_def)
  next
    case (Inr r)
    note split = answered_split [OF assms(1) Inr]
    show ?thesis
    proof (cases "failed_count r = 0")
      case True
      with Inr Suc.prems split(1) show ?thesis by (auto simp: Let_def)
    next
      case False
      with split(2) have rest: "still_failed pending r \<noteq> []" by simp
      obtain as l2 where step: "send_loop client jitter left (Suc made) records (still_failed pending r) (lg @ [pending]) = (as, l2, res)"
        and acts: "accepted acts = accepted_by (Put pending r) @ accepted as"
        using Suc.prems(1) Inr False rest by (auto simp: Let_def split: prod.splits)
      from Suc.IH [OF step rest] show ?thesis
      proof (cases res)
        case (Inl e)
        with Suc.IH [OF step rest] obtain lost where lost: "lost \<noteq> []"
          "mset (accepted as) + mset lost = mset (still_failed pending r)" by auto
        have "mset (accepted acts) + mset lost = mset (accepted_by (Put pending r)) + (mset (accepted as) + mset lost)"
          by (simp only: acts mset_append add.assoc)
        also have "\<dots> = mset pending" using split(1) False by (simp only: lost(2) if_False)
        finally show ?thesis using Inl lost(1) by auto
      next
        case (Inr n)
        with Suc.IH [OF step rest] split(1) False acts show ?thesis by (auto simp: ac_simps)
      qed
    qed
  qed
qed

lemma ks_send_all_empty: "ks_buffer s = [] \<Longrightarrow> ks_send_all client jitter s = ([], s, Inr 0)"
  by (simp add: ks_send_all.simps)

text \<open>One turn of the loop of _send_all.\<close>

lemma ks_send_all_step:
  assumes "ks_buffer s \<noteq> []"
  obtains batch rest acts lg sent where
    "take_batch (ks_max_batch s) (ks_max_bytes s) (ks_buffer s) = (batch, rest)"
    "send_with_retry client jitter (ks_max_attempts s) batch (ks_log s) = (acts, lg, sent)"
    "batch \<noteq> []" "batch @ rest = ks_buffer s"
    "ks_send_all client jitter s = (case sent of
       Inl e \<Rightarrow> (acts, s\<lparr> ks_buffer := rest, ks_bytes := data_bytes rest, ks_log := lg \<rparr>, Inl e)
     | Inr n \<Rightarrow> (case ks_send_all client jitter (s\<lparr> ks_buffer := rest, ks_bytes := data_bytes rest, ks_log := lg \<rparr>) of
         (acts', s2, r) \<Rightarrow> (acts @ acts', s2, rbind r (\<lambda>k. Inr (n + k)))))"
proof -
  obtain batch rest where b: "take_batch (ks_max_batch s) (ks_max_bytes s) (ks_buffer s) = (batch, rest)"
    by fastforce
  obtain acts lg sent where a: "send_with_retry client jitter (ks_max_attempts s) batch (ks_log s) = (acts, lg, sent)"
    by (metis prod_cases3)
  have "batch \<noteq> []" using b assms take_batch_nonempty by (metis list.exhaust)
  moreover have "batch @ rest = ks_buffer s" using b by (rule take_batch_split)
  moreover note b a assms
  ultimately show thesis
    by (intro that [OF b a]) (auto simp: ks_send_all.simps [of _ _ s] Let_def)
qed

lemma ks_send_all_account:
  assumes "truthful client"
  shows "ks_send_all client jitter s = (acts, s', res) \<Longrightarrow> case res of
      Inr n \<Rightarrow> mset (accepted acts) = mset (ks_buffer s) \<and> ks_buffer s' = []
    | Inl e \<Rightarrow> \<exists>lost. lost \<noteq> [] \<and> mset (accepted acts) + mset lost + mset (ks_buffer s') = mset (ks_buffer s)"
proof (induction "length (ks_buffer s)" arbitrary: s acts s' res rule: less_induct)
  case less
  show ?case
  proof (cases "ks_buffer s = []")
    case True
    with less.prems show ?thesis by (auto simp: ks_send_all_empty)
  next
    case False
    then show ?thesis
    proof (rule ks_send_all_step [of s client jitter])
      fix batch rest as lg sent
      let ?s1 = "s\<lparr> ks_buffer := rest, ks_bytes := data_bytes rest, ks_log := lg \<rparr>"
      assume a: "send_with_retry client jitter (ks_max_attempts s) batch (ks_log s) = (as, lg, sent)"
        and ne: "batch \<noteq> []" and buf: "batch @ rest = ks_buffer s"
        and eq: "ks_send_all client jitter s = (case sent of
           Inl e \<Rightarrow> (as, ?s1, Inl e)
         | Inr n \<Rightarrow> (case ks_send_all client jitter ?s1 of
             (acts', s2, r) \<Rightarrow> (as @ acts', s2, rbind r (\<lambda>k. Inr (n + k)))))"
      note one = send_loop_account [OF assms a [unfolded send_with_retry_def] ne]
      have m: "mset (ks_buffer s) = mset batch + mset rest" by (simp flip: buf)
      show ?thesis
      proof (cases sent)
        case (Inl e)
        with eq less.prems one m show ?thesis by (auto intro!: exI)
      next
        case (Inr n)
        obtain bs s2 r where rec: "ks_send_all client jitter ?s1 = (bs, s2, r)" by (metis prod_cases3)
        have "length (ks_buffer ?s1) < length (ks_buffer s)" using ne by (simp flip: buf)
        from less.hyps [OF this rec] Inr rec eq less.prems one m show ?thesis
          by (cases r) (auto simp: ac_simps)
      qed
    qed
  qed
qed

subsection \<open>The requests\<close>

text \<open>
  One call of _send_with_retry: it first sends what is pending, sleeps at most the bound of
  the attempt between requests, and each retry asks for exactly the records the answer before
  it reported as failed.
\<close>

fun retry_ok :: "nat \<Rightarrow> krec list \<Rightarrow> k_act list \<Rightarrow> bool" where
  "retry_ok made p [] = True"
| "retry_ok made p (Nap x # acts) = (0 < made \<and> 0 \<le> x \<and> x \<le> min 5 (1 / 20 * 2 ^ made) \<and> retry_ok made p acts)"
| "retry_ok made p (PutRaised q e # acts) = (q = p \<and> acts = [])"
| "retry_ok made p (Put q r # acts) = (q = p \<and>
     (acts = [] \<or> (failed_count r \<noteq> 0 \<and> still_failed p r \<noteq> [] \<and> retry_ok (Suc made) (still_failed p r) acts)))"

lemma send_loop_retry:
  assumes "\<And>k. 0 \<le> jitter k \<and> jitter k \<le> 1"
  shows "send_loop client jitter left made records pending lg = (acts, lg', res) \<Longrightarrow>
    retry_ok made pending acts \<and> length (requests acts) \<le> left \<and> lg' = lg @ requests acts"
proof (induction left arbitrary: made pending lg acts lg' res)
  case (Suc left)
  let ?naps = "if made \<noteq> 0 then [Nap (jitter (length lg) * min 5 (1 / 20 * 2 ^ made))] else []"
  have "0 \<le> min 5 (1 / 20 * 2 ^ made :: rat)" by simp
  then have "0 \<le> jitter (length lg) * min 5 (1 / 20 * 2 ^ made) \<and>
      jitter (length lg) * min 5 (1 / 20 * 2 ^ made) \<le> min 5 (1 / 20 * 2 ^ made)"
    using assms [of "length lg"] by (intro conjI mult_nonneg_nonneg mult_left_le_one_le) auto
  then have nap: "retry_ok made pending (?naps @ as) \<longleftrightarrow> retry_ok made pending as" for as
    by (cases "made = 0") (simp_all del: min_less_iff_conj min.bounded_iff)
  show ?case
  proof (cases "client lg pending")
    case (Inl e)
    with Suc.prems have "acts = ?naps @ [PutRaised pending e]" "lg' = lg @ [pending]"
      by (simp_all only: send_loop.simps Let_def sum.case prod.inject)
    then show ?thesis by (simp only: nap requests_append naps_simps) simp
  next
    case (Inr r)
    show ?thesis
    proof (cases "failed_count r = 0 \<or> still_failed pending r = []")
      case True
      with Inr Suc.prems have "acts = ?naps @ [Put pending r]" "lg' = lg @ [pending]"
        by (auto simp: Let_def split: if_splits)
      then show ?thesis by (simp only: nap requests_append naps_simps) simp
    next
      case False
      then obtain as l2 where step: "send_loop client jitter left (Suc made) records (still_failed pending r) (lg @ [pending]) = (as, l2, res)"
        and acts: "acts = ?naps @ Put pending r # as" "lg' = l2"
        using Suc.prems Inr by (auto simp: Let_def split: prod.splits)
      from Suc.IH [OF step] False show ?thesis unfolding acts nap by auto
    qed
  qed
qed simp

lemma data_bytes_nonneg [simp]: "0 \<le> data_bytes rs"
  by (simp add: data_bytes_def) (rule sum_list_nonneg, auto)

lemma data_bytes_Cons [simp]: "data_bytes (r # rs) = int (length (k_data r)) + data_bytes rs"
  by (simp add: data_bytes_def)

lemma still_failed_sub:
  "length (still_failed p r) \<le> length p" "data_bytes (still_failed p r) \<le> data_bytes p"
proof -
  have "length (map fst (filter Q (zip p cs))) \<le> length p \<and> data_bytes (map fst (filter Q (zip p cs))) \<le> data_bytes p"
    for Q :: "krec \<times> string option \<Rightarrow> bool" and cs
  proof (induction p arbitrary: cs)
    case (Cons a p)
    have "data_bytes [] \<le> int (length (k_data a)) + data_bytes p" by (simp add: data_bytes_def [of "[]"])
    with Cons show ?case by (cases cs) (auto intro: le_SucI add_increasing)
  qed (simp add: data_bytes_def)
  then show "length (still_failed p r) \<le> length p" "data_bytes (still_failed p r) \<le> data_bytes p"
    by (simp_all add: still_failed_def)
qed

text \<open>A request of the code respects both caps, a single oversized record apart.\<close>

definition within_caps :: "int \<Rightarrow> int \<Rightarrow> krec list \<Rightarrow> bool" where
  "within_caps mb my p \<longleftrightarrow> p \<noteq> [] \<and> (length p = 1 \<or> (int (length p) \<le> mb \<and> data_bytes p \<le> my))"

lemma within_caps_still_failed:
  "within_caps mb my p \<Longrightarrow> still_failed p r \<noteq> [] \<Longrightarrow> within_caps mb my (still_failed p r)"
  using still_failed_sub [of p r] by (cases "still_failed p r") (auto simp: within_caps_def)

lemma retry_ok_within_caps:
  "retry_ok made p acts \<Longrightarrow> within_caps mb my p \<Longrightarrow> q \<in> set (requests acts) \<Longrightarrow> within_caps mb my q"
  by (induction made p acts rule: retry_ok.induct) (auto intro: within_caps_still_failed)

lemma take_from_caps:
  "take_from mb my b n rs = (batch, rest) \<Longrightarrow> n = data_bytes b \<Longrightarrow> b \<noteq> [] \<Longrightarrow> within_caps mb my b \<Longrightarrow>
   within_caps mb my batch"
proof (induction mb my b n rs rule: take_from.induct)
  case (2 mb my b n r rs)
  show ?case
  proof (cases "mb \<le> int (length b) \<or> my < n + int (length (k_data r))")
    case True
    with 2 show ?thesis by (auto simp: Let_def)
  next
    case False
    then have go: "\<not> (b \<noteq> [] \<and> (mb \<le> int (length b) \<or> my < n + int (length (k_data r))))" by simp
    with "2.prems"(1) have "take_from mb my (b @ [r]) (n + int (length (k_data r))) rs = (batch, rest)"
      by (simp only: take_from.simps Let_def if_False)
    moreover have "within_caps mb my (b @ [r])"
      using False "2.prems" by (auto simp: within_caps_def data_bytes_def)
    moreover have "n + int (length (k_data r)) = data_bytes (b @ [r])"
      using "2.prems"(2) by (simp add: data_bytes_def)
    ultimately show ?thesis using "2.IH" [OF refl go] by simp
  qed
qed auto

lemma take_batch_caps: "take_batch mb my (r # rs) = (batch, rest) \<Longrightarrow> within_caps mb my batch"
  by (rule take_from_caps [of mb my "[r]" "int (length (k_data r))" rs batch rest])
    (simp_all add: take_batch_def within_caps_def data_bytes_def)

lemma ks_send_all_caps:
  assumes "\<And>k. 0 \<le> jitter k \<and> jitter k \<le> 1"
  shows "ks_send_all client jitter s = (acts, s', res) \<Longrightarrow>
    (\<forall>q\<in>set (requests acts). within_caps (ks_max_batch s) (ks_max_bytes s) q) \<and>
    (s' = s \<or> ks_bytes s' = data_bytes (ks_buffer s')) \<and> ks_log s' = ks_log s @ requests acts \<and>
    ks_max_batch s' = ks_max_batch s \<and> ks_max_bytes s' = ks_max_bytes s"
proof (induction "length (ks_buffer s)" arbitrary: s acts s' res rule: less_induct)
  case less
  show ?case
  proof (cases "ks_buffer s = []")
    case True
    with less.prems show ?thesis by (auto simp: ks_send_all_empty)
  next
    case False
    then show ?thesis
    proof (rule ks_send_all_step [of s client jitter])
      fix batch rest as lg sent
      let ?s1 = "s\<lparr> ks_buffer := rest, ks_bytes := data_bytes rest, ks_log := lg \<rparr>"
      assume b: "take_batch (ks_max_batch s) (ks_max_bytes s) (ks_buffer s) = (batch, rest)"
        and a: "send_with_retry client jitter (ks_max_attempts s) batch (ks_log s) = (as, lg, sent)"
        and ne: "batch \<noteq> []" and buf: "batch @ rest = ks_buffer s"
        and eq: "ks_send_all client jitter s = (case sent of
           Inl e \<Rightarrow> (as, ?s1, Inl e)
         | Inr n \<Rightarrow> (case ks_send_all client jitter ?s1 of
             (acts', s2, r) \<Rightarrow> (as @ acts', s2, rbind r (\<lambda>k. Inr (n + k)))))"
      have "within_caps (ks_max_batch s) (ks_max_bytes s) batch"
        using b False take_batch_caps by (metis list.exhaust)
      with send_loop_retry [OF assms a [unfolded send_with_retry_def]]
      have one: "\<forall>q\<in>set (requests as). within_caps (ks_max_batch s) (ks_max_bytes s) q" "lg = ks_log s @ requests as"
        using retry_ok_within_caps by blast+
      show ?thesis
      proof (cases sent)
        case (Inl e)
        with eq less.prems one show ?thesis by auto
      next
        case (Inr n)
        obtain bs s2 r where rec: "ks_send_all client jitter ?s1 = (bs, s2, r)" by (metis prod_cases3)
        have "length (ks_buffer ?s1) < length (ks_buffer s)" using ne by (simp flip: buf)
        from less.hyps [OF this rec] Inr rec eq less.prems one show ?thesis by auto
      qed
    qed
  qed
qed

text \<open>The byte counter of the sink is the size of its buffer.\<close>

definition bytes_ok :: "kinesis \<Rightarrow> bool" where
  "bytes_ok s \<longleftrightarrow> ks_bytes s = data_bytes (ks_buffer s)"

lemma new_kinesis_bytes [simp]: "bytes_ok (new_kinesis mb my n)"
  by (simp add: bytes_ok_def new_kinesis_def data_bytes_def)

lemma kinesis_produce_bytes: "bytes_ok s \<Longrightarrow> bytes_ok (kinesis_produce s topic t)"
  by (simp add: bytes_ok_def kinesis_produce_def data_bytes_def)

lemma ks_send_all_bytes: "ks_send_all client jitter s = (acts, s', res) \<Longrightarrow> bytes_ok s \<Longrightarrow> bytes_ok s'"
proof (induction "length (ks_buffer s)" arbitrary: s acts s' res rule: less_induct)
  case less
  show ?case
  proof (cases "ks_buffer s = []")
    case True
    with less.prems show ?thesis by (auto simp: ks_send_all_empty)
  next
    case False
    then show ?thesis
    proof (rule ks_send_all_step [of s client jitter])
      fix batch rest as lg sent
      let ?s1 = "s\<lparr> ks_buffer := rest, ks_bytes := data_bytes rest, ks_log := lg \<rparr>"
      assume ne: "batch \<noteq> []" and buf: "batch @ rest = ks_buffer s"
        and eq: "ks_send_all client jitter s = (case sent of
           Inl e \<Rightarrow> (as, ?s1, Inl e)
         | Inr n \<Rightarrow> (case ks_send_all client jitter ?s1 of
             (acts', s2, r) \<Rightarrow> (as @ acts', s2, rbind r (\<lambda>k. Inr (n + k)))))"
      obtain bs s2 r where rec: "ks_send_all client jitter ?s1 = (bs, s2, r)" by (metis prod_cases3)
      have "length (ks_buffer ?s1) < length (ks_buffer s)" using ne by (simp flip: buf)
      from less.hyps [OF this rec] have "bytes_ok s2" by (simp add: bytes_ok_def)
      with rec eq less.prems show ?thesis
        by (auto simp: bytes_ok_def split: sum.splits)
    qed
  qed
qed

subsection \<open>The protocol\<close>

text \<open>
  A sink as the drain loop of ingest/runner.py uses it. An operation hands messages over to
  the transport, keeps the others, and is None where the code raises.
\<close>

fun publish :: "('s \<Rightarrow> trade \<Rightarrow> ('m list \<times> 's) option) \<Rightarrow> ('s \<Rightarrow> ('m list \<times> 's) option) \<Rightarrow> ('s \<Rightarrow> ('m list \<times> 's) option)
    \<Rightarrow> 's \<Rightarrow> trade list \<Rightarrow> ('m list \<times> 's) option" where
  "publish produce poll flush s [] = flush s"
| "publish produce poll flush s (t # ts) = (case produce s t of None \<Rightarrow> None
   | Some (out, s1) \<Rightarrow> (case poll s1 of None \<Rightarrow> None
     | Some (out', s2) \<Rightarrow> map_option (\<lambda>(rest, s3). (out @ out' @ rest, s3)) (publish produce poll flush s2 ts)))"

locale sink =
  fixes ok :: "'s \<Rightarrow> bool" and held :: "'s \<Rightarrow> 'm list" and enc :: "trade \<Rightarrow> 'm"
    and produce :: "'s \<Rightarrow> trade \<Rightarrow> ('m list \<times> 's) option"
    and poll :: "'s \<Rightarrow> ('m list \<times> 's) option" and flush :: "'s \<Rightarrow> ('m list \<times> 's) option"
  assumes produce_account: "ok s \<Longrightarrow> produce s t = Some (out, s') \<Longrightarrow>
      ok s' \<and> mset out + mset (held s') = mset (held s) + {#enc t#}"
    and poll_account: "ok s \<Longrightarrow> poll s = Some (out, s') \<Longrightarrow> ok s' \<and> mset out + mset (held s') = mset (held s)"
    and flush_account: "ok s \<Longrightarrow> flush s = Some (out, s') \<Longrightarrow> ok s' \<and> mset out = mset (held s) \<and> held s' = []"
begin

lemma publish_account:
  "ok s \<Longrightarrow> publish produce poll flush s ts = Some (out, s') \<Longrightarrow>
   mset out = mset (held s) + mset (map enc ts) \<and> held s' = []"
proof (induction ts arbitrary: s out)
  case Nil
  then show ?case using flush_account by auto
next
  case (Cons t ts)
  from Cons.prems(2) obtain o1 s1 o2 s2 o3 where
    p: "produce s t = Some (o1, s1)" "poll s1 = Some (o2, s2)" "publish produce poll flush s2 ts = Some (o3, s')"
    and out: "out = o1 @ o2 @ o3"
    by (auto split: option.splits)
  from produce_account [OF Cons.prems(1) p(1)] have a: "ok s1" "mset o1 + mset (held s1) = mset (held s) + {#enc t#}" by auto
  from poll_account [OF a(1) p(2)] have b: "ok s2" "mset o2 + mset (held s2) = mset (held s1)" by auto
  from Cons.IH [OF b(1) p(3)] have c: "mset o3 = mset (held s2) + mset (map enc ts)" "held s' = []" by auto
  have "mset out = mset o1 + (mset o2 + mset (held s2)) + mset (map enc ts)" by (simp add: out c(1) ac_simps)
  also have "\<dots> = mset (held s) + mset (map enc (t # ts))" by (simp add: a(2) b(2))
  finally show ?case using c(2) by blast
qed

end

definition ks_op :: "k_act list \<times> kinesis \<times> nat res \<Rightarrow> (krec list \<times> kinesis) option" where
  "ks_op r = (case r of (acts, s, Inr n) \<Rightarrow> Some (accepted acts, s) | (acts, s, Inl e) \<Rightarrow> None)"

interpretation kinesis: sink "\<lambda>s. truthful client" ks_buffer trade_record
  "\<lambda>s t. Some ([], kinesis_produce s topic t)" "\<lambda>s. ks_op (kinesis_poll client jitter s)"
  "\<lambda>s. ks_op (kinesis_flush client jitter s)" for client topic jitter
proof
  fix s s' :: kinesis and t out
  show "Some ([], kinesis_produce s topic t) = Some (out, s') \<Longrightarrow>
      truthful client \<and> mset out + mset (ks_buffer s') = mset (ks_buffer s) + {#trade_record t#}"
    if "truthful client" using that by (auto simp: kinesis_produce_def)
  obtain acts s1 res where all: "ks_send_all client jitter s = (acts, s1, res)" by (metis prod_cases3)
  show "truthful client \<and> mset out + mset (ks_buffer s') = mset (ks_buffer s)"
    if "truthful client" "ks_op (kinesis_poll client jitter s) = Some (out, s')"
    using that ks_send_all_account [OF that(1) all]
    by (auto simp: ks_op_def kinesis_poll_def all split: if_splits sum.splits)
  show "truthful client \<and> mset out = mset (ks_buffer s) \<and> ks_buffer s' = []"
    if "truthful client" "ks_op (kinesis_flush client jitter s) = Some (out, s')"
    using that ks_send_all_account [OF that(1) all]
    by (cases res) (auto simp: ks_op_def kinesis_flush_def all)
qed

text \<open>The Kafka producer hands each message to its library at once and never holds one.\<close>

definition kafka_op :: "trade_producer res \<Rightarrow> (kafka_message list \<times> trade_producer) option" where
  "kafka_op r = (case r of Inr p \<Rightarrow> Some ([last (p_handed p)], p) | Inl e \<Rightarrow> None)"

definition kafka_message_of :: "avro_writer \<Rightarrow> schema \<Rightarrow> string \<Rightarrow> trade \<Rightarrow> kafka_message" where
  "kafka_message_of write_avro sch topic t = \<lparr> m_topic = topic, m_key = kafka_key t,
     m_value = (case codec_encode write_avro sch (to_avro t) of Inr v \<Rightarrow> v | Inl e \<Rightarrow> []), m_headers = trade_headers t \<rparr>"

interpretation kafka: sink "\<lambda>p. p_schema p = sch" "\<lambda>p. []" "kafka_message_of write_avro sch topic"
  "\<lambda>p t. kafka_op (producer_produce lib write_avro p topic t)" "\<lambda>p. Some ([], p)" "\<lambda>p. Some ([], p)"
  for sch lib write_avro topic
  by standard (auto simp: kafka_op_def producer_produce_def kafka_message_of_def Let_def split: sum.splits option.splits simp: res_simps)

text \<open>A stream that accepts everything, one that throttles everything, and what they answer.\<close>

definition ok_client :: client where
  "ok_client lg p = Inr \<lparr> failed_count = 0, error_codes = map (\<lambda>r. None) p \<rparr>"

definition throttled_client :: client where
  "throttled_client lg p = Inr \<lparr> failed_count = int (length p),
     error_codes = map (\<lambda>r. Some ''ProvisionedThroughputExceededException'') p \<rparr>"

lemma client_truthful: "truthful ok_client" "truthful throttled_client"
  by (auto simp: truthful_def ok_client_def throttled_client_def is_error_def filter_map o_def)

lemma ok_client_returns:
  "0 < ks_max_attempts s \<Longrightarrow> \<exists>acts s' n. ks_send_all ok_client jitter s = (acts, s', Inr n) \<and>
     ks_max_attempts s' = ks_max_attempts s"
proof (induction "length (ks_buffer s)" arbitrary: s rule: less_induct)
  case less
  show ?case
  proof (cases "ks_buffer s = []")
    case True
    then show ?thesis by (simp add: ks_send_all_empty)
  next
    case False
    then show ?thesis
    proof (rule ks_send_all_step [of s ok_client jitter])
      fix batch rest as lg sent
      let ?s1 = "s\<lparr> ks_buffer := rest, ks_bytes := data_bytes rest, ks_log := lg \<rparr>"
      assume a: "send_with_retry ok_client jitter (ks_max_attempts s) batch (ks_log s) = (as, lg, sent)"
        and ne: "batch \<noteq> []" and buf: "batch @ rest = ks_buffer s"
        and eq: "ks_send_all ok_client jitter s = (case sent of
           Inl e \<Rightarrow> (as, ?s1, Inl e)
         | Inr n \<Rightarrow> (case ks_send_all ok_client jitter ?s1 of
             (acts', s2, r) \<Rightarrow> (as @ acts', s2, rbind r (\<lambda>k. Inr (n + k)))))"
      have "\<exists>n. sent = Inr n"
        using a less.prems by (cases "ks_max_attempts s") (auto simp: send_with_retry_def ok_client_def Let_def)
      moreover have "length (ks_buffer ?s1) < length (ks_buffer s)" using ne by (simp flip: buf)
      with less.hyps [OF this] less.prems have "\<exists>acts s' n. ks_send_all ok_client jitter ?s1 = (acts, s', Inr n) \<and>
          ks_max_attempts s' = ks_max_attempts ?s1" by simp
      ultimately show ?thesis using eq by auto
    qed
  qed
qed

lemma ok_client_publishes:
  "0 < ks_max_attempts s \<Longrightarrow> \<exists>out s'. publish (\<lambda>s t. Some ([], kinesis_produce s topic t))
     (\<lambda>s. ks_op (kinesis_poll ok_client jitter s)) (\<lambda>s. ks_op (kinesis_flush ok_client jitter s)) s ts = Some (out, s')"
proof (induction ts arbitrary: s)
  case Nil
  with ok_client_returns [of s jitter] show ?case by (auto simp: ks_op_def kinesis_flush_def)
next
  case (Cons t ts)
  let ?s1 = "kinesis_produce s topic t"
  have "0 < ks_max_attempts ?s1" using Cons.prems by (simp add: kinesis_produce_def)
  with ok_client_returns [of ?s1 jitter]
  obtain o2 s2 where p: "ks_op (kinesis_poll ok_client jitter ?s1) = Some (o2, s2)" "0 < ks_max_attempts s2"
    by (cases "ks_max_batch ?s1 \<le> int (length (ks_buffer ?s1)) \<or> ks_max_bytes ?s1 \<le> ks_bytes ?s1")
      (auto simp: ks_op_def kinesis_poll_def)
  with Cons.IH [OF p(2)] show ?case by auto
qed

definition example_record :: krec where
  "example_record = \<lparr> k_data = ''{}'', k_key = ''binance|BTCUSDT'' \<rparr>"

definition one_attempt :: kinesis where
  "one_attempt = \<lparr> ks_buffer = [example_record], ks_bytes = 2, ks_max_batch = 500, ks_max_bytes = 4500000,
     ks_max_attempts = 1, ks_log = [] \<rparr>"

lemma throttled_flush: "kinesis_flush throttled_client jitter one_attempt =
   ([Put [example_record] \<lparr> failed_count = 1, error_codes = [Some ''ProvisionedThroughputExceededException''] \<rparr>],
    \<lparr> ks_buffer = [], ks_bytes = 0, ks_max_batch = 500, ks_max_bytes = 4500000, ks_max_attempts = 1,
      ks_log = [[example_record]] \<rparr>, Inl (refuse 1 1))"
  by (simp add: kinesis_flush_def ks_send_all.simps one_attempt_def take_batch_def Let_def send_with_retry_def
      throttled_client_def still_failed_def is_error_def data_bytes_def)

subsection \<open>Properties\<close>

text \<open>
  Property C3. Draining trades into Kinesis publishes each of them exactly once: when every
  produce, poll and the final flush return, under a client that reports failures record by
  record as put_records documents, the records accepted by the stream are those that were
  buffered plus one per trade, and nothing stays behind.
\<close>

theorem kinesis_publishes_each_trade_once:
  assumes "truthful client"
    and "publish (\<lambda>s t. Some ([], kinesis_produce s topic t)) (\<lambda>s. ks_op (kinesis_poll client jitter s))
      (\<lambda>s. ks_op (kinesis_flush client jitter s)) s ts = Some (out, s')"
  shows "mset out = mset (ks_buffer s) + mset (map trade_record ts) \<and> ks_buffer s' = []"
  using kinesis.publish_account [OF assms] .

theorem kinesis_publishes_each_trade_once_witness:
  "\<exists>out s'. publish (\<lambda>s t. Some ([], kinesis_produce s ''md.trades.v1'' t)) (\<lambda>s. ks_op (kinesis_poll ok_client (\<lambda>k. 0) s))
      (\<lambda>s. ks_op (kinesis_flush ok_client (\<lambda>k. 0) s)) default_kinesis [example_trade, example_trade] = Some (out, s') \<and>
    mset out = {#trade_record example_trade, trade_record example_trade#}"
proof -
  have "0 < ks_max_attempts default_kinesis" by (simp add: default_kinesis_def new_kinesis_def)
  then obtain out s' where run: "publish (\<lambda>s t. Some ([], kinesis_produce s ''md.trades.v1'' t)) (\<lambda>s. ks_op (kinesis_poll ok_client (\<lambda>k. 0) s))
      (\<lambda>s. ks_op (kinesis_flush ok_client (\<lambda>k. 0) s)) default_kinesis [example_trade, example_trade] = Some (out, s')"
    using ok_client_publishes by blast
  with kinesis_publishes_each_trade_once [OF client_truthful(1) run] show ?thesis
    by (simp add: default_kinesis_def new_kinesis_def)
qed

text \<open>
  When a flush raises, trades are gone: whatever the exception (retries exhausted
  or the client's own), at least one record that was buffered is neither accepted by the
  stream nor in the buffer any more, so a later flush does not send it. The failing batch
  leaves the buffer before it is sent.
\<close>

theorem kinesis_failure_loses_records:
  assumes "truthful client" and "kinesis_flush client jitter s = (acts, s', Inl e)"
  shows "\<exists>lost. lost \<noteq> [] \<and> mset (accepted acts) + mset lost + mset (ks_buffer s') = mset (ks_buffer s)"
proof -
  obtain as s1 r where all: "ks_send_all client jitter s = (as, s1, r)" by (metis prod_cases3)
  with assms(2) have "r = Inl e" "as = acts" "s1 = s'"
    by (auto simp: kinesis_flush_def res_simps)
  with ks_send_all_account [OF assms(1) all] show ?thesis by simp
qed

theorem kinesis_failure_loses_records_witness:
  "\<exists>acts s' e lost. kinesis_flush throttled_client (\<lambda>k. 0) one_attempt = (acts, s', Inl e) \<and> lost \<noteq> [] \<and>
    mset (accepted acts) + mset lost + mset (ks_buffer s') = {#example_record#}"
  using kinesis_failure_loses_records [OF client_truthful(2) throttled_flush] throttled_flush [of "\<lambda>k. 0"]
  by (auto simp: one_attempt_def)

text \<open>
  Every request the sink makes, retries included, respects the limits of
  put_records: it is not empty, and it has at most max_batch records and max_bytes bytes
  unless it is a single record; this holds whatever the client answers.
\<close>

theorem kinesis_requests_within_caps:
  assumes "kinesis_flush client jitter s = (acts, s', res)" and "\<forall>k. 0 \<le> jitter k \<and> jitter k \<le> 1"
    and "p \<in> set (requests acts)"
  shows "p \<noteq> [] \<and> (length p = 1 \<or> (int (length p) \<le> ks_max_batch s \<and> data_bytes p \<le> ks_max_bytes s))"
proof -
  obtain as s1 r where all: "ks_send_all client jitter s = (as, s1, r)" by (metis prod_cases3)
  with assms(1) have "as = acts" by (auto simp: kinesis_flush_def)
  with ks_send_all_caps [of jitter, OF _ all] assms show ?thesis by (simp add: within_caps_def)
qed

theorem kinesis_requests_within_caps_witness:
  "data_bytes [example_record] \<le> 4500000"
  using kinesis_requests_within_caps [OF throttled_flush, of "\<lambda>k. 0" "[example_record]"]
  by (auto simp: one_attempt_def example_record_def data_bytes_def)

text \<open>
  A retry resends only what failed: within one call of _send_with_retry the
  first request is the batch, each further one holds exactly the records the previous answer
  marked, at most max_attempts requests are made, and the k-th retry sleeps at most
  min(5, 0.05 * 2 ^ k) seconds.
\<close>

theorem kinesis_retries_only_failed:
  assumes "send_with_retry client jitter attempts batch lg = (acts, lg', res)"
    and "\<forall>k. 0 \<le> jitter k \<and> jitter k \<le> 1"
  shows "retry_ok 0 batch acts \<and> length (requests acts) \<le> attempts"
  using send_loop_retry [of jitter client attempts 0 batch batch lg] assms by (simp add: send_with_retry_def)

theorem kinesis_retries_only_failed_witness:
  "\<exists>acts lg res. send_with_retry throttled_client (\<lambda>k. 0) 8 [example_record] [] = (acts, lg, res) \<and>
     retry_ok 0 [example_record] acts \<and> length (requests acts) \<le> 8"
proof -
  obtain acts lg res where "send_with_retry throttled_client (\<lambda>k. 0) 8 [example_record] [] = (acts, lg, res)"
    by (metis prod_cases3)
  with kinesis_retries_only_failed [OF this] show ?thesis by auto
qed

text \<open>
  The byte counter never drifts: every produce, poll and flush, a raising one
  included, keeps it equal to the total size of the buffered records, so the byte threshold of
  poll fires on what is really buffered.
\<close>

theorem kinesis_byte_counter_exact:
  assumes "ks_bytes s = data_bytes (ks_buffer s)"
  shows "ks_bytes (kinesis_produce s topic t) = data_bytes (ks_buffer (kinesis_produce s topic t)) \<and>
    (\<forall>acts s' res. kinesis_poll client jitter s = (acts, s', res) \<longrightarrow> ks_bytes s' = data_bytes (ks_buffer s')) \<and>
    (\<forall>acts s' res. kinesis_flush client jitter s = (acts, s', res) \<longrightarrow> ks_bytes s' = data_bytes (ks_buffer s'))"
proof -
  have s: "bytes_ok s" using assms by (simp add: bytes_ok_def)
  note send = ks_send_all_bytes [OF _ s]
  show ?thesis
    using kinesis_produce_bytes [OF s, of topic t] s
    by (auto simp: kinesis_poll_def kinesis_flush_def bytes_ok_def [symmetric] split: if_splits prod.splits dest: send)
qed

theorem kinesis_byte_counter_exact_witness:
  "ks_bytes (kinesis_produce default_kinesis ''md.trades.v1'' example_trade) =
     data_bytes [trade_record example_trade]"
  using kinesis_byte_counter_exact [of default_kinesis "''md.trades.v1''" example_trade]
  by (simp add: default_kinesis_def new_kinesis_def kinesis_produce_def data_bytes_def)

end
