(* ===== verification/Ws.thy ===== *)
theory Ws
  imports Prelude Complex_Main
begin

text \<open>
  The reconnecting WebSocket of ingest/core/ws.py: the backoff generator, one session and the
  run loop. What the network, the callbacks and the stop event do is the environment: a list
  with one record per turn of the loop. The model returns the trace of what the socket does
  (dials, frames sent, calls of on_reconnect, sleeps and clean ends), so that the theorems are
  about what the venue and the callbacks see.
\<close>

subsection \<open>Backoff\<close>

text \<open>One step of the generator: the value yielded and the next delay.\<close>

definition backoff_step :: "rat \<Rightarrow> rat \<Rightarrow> rat \<Rightarrow> rat \<times> rat" where
  "backoff_step max_backoff delay jitter =
     (min (delay * (1 + jitter)) max_backoff, min (delay * 2) max_backoff)"

text \<open>The generator, as many values as jitter readings are given.\<close>

fun backoff_from :: "rat \<Rightarrow> rat \<Rightarrow> rat list \<Rightarrow> rat list" where
  "backoff_from max_backoff delay [] = []"
| "backoff_from max_backoff delay (j # js) =
     (let (y, d) = backoff_step max_backoff delay j in y # backoff_from max_backoff d js)"

definition backoff_delays :: "rat \<Rightarrow> rat list \<Rightarrow> rat list" where
  "backoff_delays max_backoff js = backoff_from max_backoff 1 js"

subsection \<open>Sessions\<close>

datatype pump_end = PumpReturned | PumpRaised exn

text \<open>
  What happens to one session: connect may raise, the i-th send may raise, on_reconnect may
  raise, and the wait for the pump and the stopper ends with the pump done (and how), with
  only the stopper done, or with neither (the lifetime expired).
\<close>

datatype wait_end = PumpDone pump_end | StopOnly | LifetimeExpired

record session_env =
  se_connect :: "exn option"
  se_send :: "nat \<Rightarrow> exn option"
  se_hook :: "exn option"
  se_wait :: wait_end
  se_stop :: bool         \<comment> \<open>the stop event once the session is over\<close>
  se_jitter :: rat        \<comment> \<open>the jitter of the backoff, if the session failed\<close>
  se_stop_slept :: bool   \<comment> \<open>the stop event once the backoff sleep is over\<close>

datatype ws_act = Dial bool | Send string | Hook | Established | Sleep rat | CleanEnd

record ws =
  ws_subscribe :: "string list"
  ws_has_hook :: bool
  ws_max_backoff :: rat
  ws_last_sent :: "string list"
  ws_has_connected :: bool

text \<open>The subscribe loop: last_sent is appended before the send that may raise.\<close>

fun send_all :: "(nat \<Rightarrow> exn option) \<Rightarrow> nat \<Rightarrow> string list \<Rightarrow> ws_act list \<times> string list \<times> exn option" where
  "send_all fails i [] = ([], [], None)"
| "send_all fails i (p # ps) =
     (case fails i of
        Some e \<Rightarrow> ([], [p], Some e)
      | None \<Rightarrow> (let (acts, sent, r) = send_all fails (Suc i) ps in (Send p # acts, p # sent, r)))"

definition session :: "ws \<Rightarrow> session_env \<Rightarrow> ws_act list \<times> exn option \<times> ws" where
  "session w env = (case se_connect env of
     Some e \<Rightarrow> ([Dial False], Some e, w)
   | None \<Rightarrow>
       (let (acts, sent, r) = send_all (se_send env) 0 (ws_subscribe w);
            w1 = w\<lparr>ws_last_sent := sent\<rparr>
        in case r of
             Some e \<Rightarrow> (Dial True # acts, Some e, w1)
           | None \<Rightarrow>
               (let call = ws_has_connected w \<and> ws_has_hook w;
                    acts1 = Dial True # acts @ (if call then [Hook] else [])
                in if call \<and> se_hook env \<noteq> None then (acts1, se_hook env, w1)
                   else (let w2 = w1\<lparr>ws_has_connected := True\<rparr>
                         in case se_wait env of
                              PumpDone (PumpRaised e) \<Rightarrow> (acts1 @ [Established], Some e, w2)
                            | _ \<Rightarrow> (acts1 @ [Established], None, w2)))))"

text \<open>
  The run loop: the generator's next delay is threaded, a clean end starts a new generator.
  The run ends when the stop event is set (or when the environment given is used up).
\<close>

fun ws_run :: "ws \<Rightarrow> rat \<Rightarrow> bool \<Rightarrow> session_env list \<Rightarrow> ws_act list \<times> ws" where
  "ws_run w delay stop [] = ([], w)"
| "ws_run w delay stop (env # envs) =
     (if stop then ([], w)
      else (let (acts, r, w1) = session w env
            in case r of
                 None \<Rightarrow> (let (rest, w2) = ws_run w1 1 (se_stop env) envs
                         in (acts @ CleanEnd # rest, w2))
               | Some e \<Rightarrow>
                   if se_stop env then (acts, w1)
                   else (let (y, d) = backoff_step (ws_max_backoff w) delay (se_jitter env);
                             (rest, w2) = ws_run w1 d (se_stop_slept env) envs
                         in (acts @ Sleep y # rest, w2))))"

subsection \<open>The backoff sequence\<close>

lemma backoff_from_nth:
  assumes "1 \<le> m" and "0 < d" and "i < length js"
  shows "backoff_from m d js ! i = min (min (d * 2 ^ i) m * (1 + js ! i)) m \<or>
    (i = 0 \<and> backoff_from m d js ! i = min (d * (1 + js ! i)) m)"
  using assms(2,3)
proof (induction js arbitrary: d i)
  case (Cons j js)
  show ?case
  proof (cases i)
    case 0
    then show ?thesis by (simp add: backoff_step_def)
  next
    case (Suc k)
    have pos: "0 < min (d * 2) m" using Cons.prems assms(1) by auto
    have pow: "min (min (d * 2) m * 2 ^ k) m = min (d * 2 ^ Suc k) m"
    proof (cases "d * 2 \<le> m")
      case False
      then have "m \<le> d * 2" by simp
      moreover have one: "(1::rat) \<le> 2 ^ k" by simp
      ultimately have "m * 1 \<le> m * 2 ^ k" and "m * 1 \<le> d * 2 * 2 ^ k"
        using assms(1) by (intro mult_mono; simp)+
      with False show ?thesis by (simp add: min_def mult.assoc)
    qed (simp add: mult.assoc)
    have k: "k < length js" using Suc Cons.prems by simp
    from Cons.IH [OF pos k] have
      "backoff_from m (min (d * 2) m) js ! k = min (min (min (d * 2) m * 2 ^ k) m * (1 + js ! k)) m"
      by (cases "k = 0") (auto simp: min_def)
    with Suc pow show ?thesis by (simp add: backoff_step_def)
  qed
qed simp

lemma backoff_from_length [simp]: "length (backoff_from m d js) = length js"
  by (induction js arbitrary: d) (auto simp: backoff_step_def)

lemma backoff_delays_nth:
  "1 \<le> m \<Longrightarrow> i < length js \<Longrightarrow> backoff_delays m js ! i = min (min (2 ^ i) m * (1 + js ! i)) m"
  using backoff_from_nth [of m 1 i js] by (auto simp: backoff_delays_def min_def)

subsection \<open>What a session does\<close>

lemma send_all_acts: "a \<in> set (fst (send_all fails i ps)) \<Longrightarrow> \<exists>p. a = Send p"
  by (induction ps arbitrary: i) (auto split: option.splits prod.splits, metis fst_conv)

lemma send_all_ok: "(\<And>i. fails i = None) \<Longrightarrow> send_all fails i ps = (map Send ps, ps, None)"
  by (induction ps arbitrary: i) auto

lemma session_no_sleep: "Sleep y \<notin> set (fst (session w env))"
  using send_all_acts [of "Sleep y" "se_send env" 0 "ws_subscribe w"]
  by (auto simp: session_def Let_def split: option.splits prod.splits wait_end.splits pump_end.splits)

lemma session_frame:
  "session w env = (acts, r, w') \<Longrightarrow>
   ws_subscribe w' = ws_subscribe w \<and> ws_has_hook w' = ws_has_hook w \<and> ws_max_backoff w' = ws_max_backoff w"
  by (auto simp: session_def Let_def split: option.splits prod.splits wait_end.splits pump_end.splits if_splits)

text \<open>
  The discipline of on_reconnect, read off a trace: it is called only on a connection that has
  been established before (the flag c), and a session is established either as the first one,
  without the call, or right after the call of its own connection (the flag p).
\<close>

fun hooks_ok :: "bool \<Rightarrow> bool \<Rightarrow> ws_act list \<Rightarrow> bool" where
  "hooks_ok c p [] = True"
| "hooks_ok c p (Hook # as) = (c \<and> \<not> p \<and> hooks_ok c True as)"
| "hooks_ok c p (Established # as) = (p = c \<and> hooks_ok True False as)"
| "hooks_ok c p (Dial b # as) = hooks_ok c False as"
| "hooks_ok c p (Send x # as) = hooks_ok c p as"
| "hooks_ok c p (Sleep y # as) = hooks_ok c p as"
| "hooks_ok c p (CleanEnd # as) = hooks_ok c p as"

lemma hooks_ok_sends:
  "(\<And>a. a \<in> set acts \<Longrightarrow> \<exists>q. a = Send q) \<Longrightarrow> hooks_ok c p (acts @ as) = hooks_ok c p as"
proof (induction acts)
  case (Cons a acts)
  from Cons.prems [of a] obtain q where "a = Send q" by auto
  with Cons show ?case by simp
qed simp

lemma hooks_ok_new_dial: "as = [] \<or> (\<exists>b bs. as = Dial b # bs) \<Longrightarrow> hooks_ok c p as = hooks_ok c q as"
  by auto

lemma session_hooks:
  assumes "session w env = (acts, r, w')" and "ws_has_hook w"
    and rest: "rest = [] \<or> (\<exists>b bs. rest = Dial b # bs)"
    and "hooks_ok (ws_has_connected w') False rest"
    and mid: "mid = [] \<or> mid = [CleanEnd] \<or> (\<exists>y. mid = [Sleep y])"
  shows "hooks_ok (ws_has_connected w) p (acts @ mid @ rest)"
proof -
  let ?s = "send_all (se_send env) 0 (ws_subscribe w)"
  have sends: "\<And>c p as. hooks_ok c p (fst ?s @ as) = hooks_ok c p as"
    by (rule hooks_ok_sends) (rule send_all_acts)
  have mids: "\<And>c p. hooks_ok c p (mid @ rest) = hooks_ok c False rest"
    using mid rest by (cases "rest = []") auto
  from assms(1,2,4) show ?thesis
    by (cases ?s) (use sends in \<open>auto simp: session_def Let_def mids
        split: option.splits wait_end.splits pump_end.splits if_splits\<close>)
qed

lemma session_starts_with_dial: "\<exists>b as. fst (session w env) = Dial b # as"
  by (auto simp: session_def Let_def split: option.splits prod.splits wait_end.splits pump_end.splits)

lemma ws_run_starts_with_dial:
  "fst (ws_run w d stop envs) = [] \<or> (\<exists>b as. fst (ws_run w d stop envs) = Dial b # as)"
proof (cases envs)
  case (Cons env envs')
  obtain b as where "fst (session w env) = Dial b # as" using session_starts_with_dial by blast
  with Cons show ?thesis by (auto split: prod.splits option.splits)
qed simp

lemma ws_run_hooks: "ws_has_hook w \<Longrightarrow> hooks_ok (ws_has_connected w) p (fst (ws_run w d stop envs))"
proof (induction envs arbitrary: w d stop p)
  case (Cons env envs)
  obtain acts r w1 where s: "session w env = (acts, r, w1)" by (cases "session w env")
  note rest = ws_run_starts_with_dial
  from session_frame [OF s] Cons.prems have h: "ws_has_hook w1" by simp
  note hook = session_hooks [OF s Cons.prems rest Cons.IH [OF h]]
  show ?case
  proof (cases "stop \<or> r \<noteq> None \<and> se_stop env")
    case True
    have "hooks_ok (ws_has_connected w) p (acts @ [] @ [])"
      by (rule session_hooks [OF s Cons.prems]) auto
    with True s show ?thesis by auto
  next
    case False
    show ?thesis
    proof (cases r)
      case None
      have "hooks_ok (ws_has_connected w) p
          (acts @ [CleanEnd] @ fst (ws_run w1 1 (se_stop env) envs))" by (rule hook) simp
      with None s False show ?thesis by (auto split: prod.splits)
    next
      case (Some e)
      let ?y = "backoff_step (ws_max_backoff w) d (se_jitter env)"
      have "hooks_ok (ws_has_connected w) p
          (acts @ [Sleep (fst ?y)] @ fst (ws_run w1 (snd ?y) (se_stop_slept env) envs))"
        by (rule hook) simp
      with Some s False show ?thesis by (auto split: prod.splits)
    qed
  qed
qed simp

lemma ws_run_sleeps:
  "1 \<le> ws_max_backoff w \<Longrightarrow> 1 \<le> d \<Longrightarrow> (\<And>env. env \<in> set envs \<Longrightarrow> 0 \<le> se_jitter env) \<Longrightarrow>
   Sleep y \<in> set (fst (ws_run w d stop envs)) \<Longrightarrow> 1 \<le> y \<and> y \<le> ws_max_backoff w"
proof (induction envs arbitrary: w d stop)
  case (Cons env envs)
  obtain acts r w1 where s: "session w env = (acts, r, w1)" by (cases "session w env")
  from session_frame [OF s] have m: "ws_max_backoff w1 = ws_max_backoff w" by simp
  have ns: "Sleep y \<notin> set acts" using session_no_sleep [of y w env] s by simp
  obtain y1 d1 where st: "backoff_step (ws_max_backoff w) d (se_jitter env) = (y1, d1)"
    by (cases "backoff_step (ws_max_backoff w) d (se_jitter env)")
  have j: "0 \<le> se_jitter env" using Cons.prems(3) by simp
  have "1 * 1 \<le> d * (1 + se_jitter env)" using Cons.prems(2) j by (intro mult_mono) auto
  with st Cons.prems(1,2) have y1: "1 \<le> y1 \<and> y1 \<le> ws_max_backoff w" and d1: "1 \<le> d1"
    by (auto simp: backoff_step_def)
  have env: "\<And>e. e \<in> set envs \<Longrightarrow> 0 \<le> se_jitter e" using Cons.prems(3) by simp
  have IH: "1 \<le> d' \<Longrightarrow> Sleep y \<in> set (fst (ws_run w1 d' stop' envs)) \<Longrightarrow> 1 \<le> y \<and> y \<le> ws_max_backoff w"
    for d' stop'
    using Cons.IH [of w1 d' stop'] m env Cons.prems(1) by simp
  show ?case
  proof (cases r)
    case None
    with Cons.prems(4) s ns have "Sleep y \<in> set (fst (ws_run w1 1 (se_stop env) envs))"
      by (auto split: if_splits prod.splits)
    then show ?thesis by (rule IH [OF order_refl])
  next
    case (Some e)
    with Cons.prems(4) s ns st have "y = y1 \<or> Sleep y \<in> set (fst (ws_run w1 d1 (se_stop_slept env) envs))"
      by (auto split: if_splits prod.splits)
    with IH [OF d1] y1 show ?thesis by blast
  qed
qed simp

subsection \<open>Outages and clean closes\<close>

text \<open>The environment of an outage: every dial fails, with the given jitters.\<close>

definition dead_env :: "exn \<Rightarrow> rat \<Rightarrow> session_env" where
  "dead_env e j = \<lparr>se_connect = Some e, se_send = (\<lambda>_. None), se_hook = None,
     se_wait = LifetimeExpired, se_stop = False, se_jitter = j, se_stop_slept = False\<rparr>"

text \<open>A server that accepts the connection and closes it at once, without an error.\<close>

definition closing_env :: session_env where
  "closing_env = \<lparr>se_connect = None, se_send = (\<lambda>_. None), se_hook = None,
     se_wait = PumpDone PumpReturned, se_stop = False, se_jitter = 0, se_stop_slept = False\<rparr>"

lemma ws_run_outage: "fst (ws_run w d False (map (dead_env e) js)) =
   concat (map (\<lambda>y. [Dial False, Sleep y]) (backoff_from (ws_max_backoff w) d js))"
proof (induction js arbitrary: d)
  case (Cons j js)
  let ?d = "min (d * 2) (ws_max_backoff w)"
  have "session w (dead_env e j) = ([Dial False], Some e, w)" by (simp add: session_def dead_env_def)
  then show ?case using Cons.IH [of ?d]
    by (auto simp: dead_env_def backoff_step_def split: prod.splits)
qed simp

lemma ws_run_closing:
  "fst (ws_run (w\<lparr>ws_last_sent := l\<rparr>) d False (replicate n closing_env)) = trace \<Longrightarrow>
   Sleep y \<notin> set trace \<and> count_list trace (Dial True) = n"
proof (induction n arbitrary: w l d trace)
  case (Suc n)
  let ?w = "w\<lparr>ws_last_sent := l\<rparr>"
  obtain acts r w1 where s: "session ?w closing_env = (acts, r, w1)" by (cases "session ?w closing_env")
  have w1: "w1 = (w\<lparr>ws_has_connected := True\<rparr>)\<lparr>ws_last_sent := ws_subscribe w\<rparr>" and r: "r = None"
    and acts: "acts = Dial True # map Send (ws_subscribe w) @
        (if ws_has_connected w \<and> ws_has_hook w then [Hook] else []) @ [Established]"
    using s by (auto simp: session_def closing_env_def send_all_ok split: prod.splits if_splits)
  have "count_list (map Send ps) (Dial True) = 0" for ps by (induction ps) auto
  moreover from Suc.prems s r w1 have "trace = acts @ CleanEnd #
      fst (ws_run ((w\<lparr>ws_has_connected := True\<rparr>)\<lparr>ws_last_sent := ws_subscribe w\<rparr>) 1 False (replicate n closing_env))"
    by (auto simp: closing_env_def split: prod.splits)
  ultimately show ?case
    using Suc.IH [where w = "w\<lparr>ws_has_connected := True\<rparr>" and l = "ws_subscribe w" and d = 1, OF refl] acts by auto
qed auto

subsection \<open>Properties\<close>

text \<open>
  The backoff sequence: with a cap of at least one second, the i-th delay of an
  outage is 2 to the i, capped, times one plus the jitter, capped again, and that is exactly
  what the run loop sleeps between failed dials.
\<close>

theorem outage_backoff_is_exponential:
  assumes "1 \<le> ws_max_backoff w" and "i < length js"
  shows "fst (ws_run w 1 False (map (dead_env e) js)) =
      concat (map (\<lambda>y. [Dial False, Sleep y]) (backoff_delays (ws_max_backoff w) js)) \<and>
    backoff_delays (ws_max_backoff w) js ! i =
      min (min (2 ^ i) (ws_max_backoff w) * (1 + js ! i)) (ws_max_backoff w)"
  using ws_run_outage [of w 1 e js] backoff_delays_nth [OF assms] by (simp add: backoff_delays_def)

definition example_ws :: ws where
  "example_ws = \<lparr>ws_subscribe = [''sub''], ws_has_hook = True, ws_max_backoff = 60,
     ws_last_sent = [], ws_has_connected = False\<rparr>"

theorem outage_backoff_is_exponential_witness:
  "backoff_delays 60 [0, 0, 1 / 10] ! 2 = 22 / 5"
  using outage_backoff_is_exponential [of example_ws 2 "[0, 0, 1 / 10]" "Exn OtherError []"]
  by (simp add: example_ws_def)

text \<open>
  on_reconnect is called once per re-established connection and only then: in
  every run, whatever fails, the first session to be established is not preceded by a call,
  every later one is preceded by exactly one call on its own connection, and a failed dial or
  a failed subscribe never makes the next connection look like a reconnect.
\<close>

theorem on_reconnect_discipline:
  assumes "ws_has_hook w" and "\<not> ws_has_connected w"
  shows "hooks_ok False False (fst (ws_run w 1 stop envs))"
  using ws_run_hooks [OF assms(1), of False 1 stop envs] assms(2) by simp

theorem on_reconnect_discipline_witness:
  "hooks_ok False False (fst (ws_run example_ws 1 False [dead_env (Exn OtherError []) 0, closing_env, closing_env]))"
  by (rule on_reconnect_discipline) (simp_all add: example_ws_def)

text \<open>
  Every backoff sleep is at least one second and at most the cap, in every run
  with non-negative jitter, whatever mix of failures and clean ends precedes it.
\<close>

theorem backoff_sleeps_bounded:
  assumes "1 \<le> ws_max_backoff w" and "\<forall>env\<in>set envs. 0 \<le> se_jitter env"
    and "Sleep y \<in> set (fst (ws_run w 1 stop envs))"
  shows "1 \<le> y \<and> y \<le> ws_max_backoff w"
  using ws_run_sleeps [OF assms(1) order_refl _ assms(3)] assms(2) by blast

theorem backoff_sleeps_bounded_witness:
  "(1::rat) \<le> 2 \<and> 2 \<le> ws_max_backoff example_ws"
  by (rule backoff_sleeps_bounded [of example_ws
        "[dead_env (Exn OtherError []) 0, dead_env (Exn OtherError []) 0]" 2 False])
    (simp_all add: example_ws_def dead_env_def session_def backoff_step_def)

text \<open>
  A server that accepts every connection and closes it cleanly at once is redialled
  without any delay: n such sessions are n dials and no sleep, since run takes every clean end
  for a requested or proactive one.
\<close>

theorem clean_close_reconnects_without_backoff:
  "Sleep y \<notin> set (fst (ws_run w d False (replicate n closing_env))) \<and>
   count_list (fst (ws_run w d False (replicate n closing_env))) (Dial True) = n"
  using ws_run_closing [where w = w and l = "ws_last_sent w" and d = d and n = n and y = y, OF refl] by simp

end
