(* ===== verification/Calendar.thy ===== *)
theory Calendar
  imports Prelude
begin

text \<open>
  Python's datetime.date as the sources use it: a year from 1 to 9999, a month and a day of
  the proleptic Gregorian calendar, compared field by field; the successor of a day, which
  raises OverflowError past 9999-12-31; and the two loops of awsnative/backfill/tiers.py that
  enumerate the days and the calendar months of an interval.
\<close>

datatype date = Date (dyear: nat) (dmonth: nat) (dday: nat)

instantiation date :: linorder
begin

definition less_eq_date :: "date \<Rightarrow> date \<Rightarrow> bool" where
  "less_eq_date a b \<longleftrightarrow> dyear a < dyear b \<or> (dyear a = dyear b \<and> (dmonth a < dmonth b \<or>
     (dmonth a = dmonth b \<and> dday a \<le> dday b)))"

definition less_date :: "date \<Rightarrow> date \<Rightarrow> bool" where
  "less_date a b \<longleftrightarrow> dyear a < dyear b \<or> (dyear a = dyear b \<and> (dmonth a < dmonth b \<or>
     (dmonth a = dmonth b \<and> dday a < dday b)))"

instance
  by standard (auto simp: less_eq_date_def less_date_def date.expand)

end

definition leap :: "nat \<Rightarrow> bool" where
  "leap y \<longleftrightarrow> y mod 4 = 0 \<and> (y mod 100 \<noteq> 0 \<or> y mod 400 = 0)"

text \<open>calendar.monthrange(y, m)[1].\<close>

definition month_len :: "nat \<Rightarrow> nat \<Rightarrow> nat" where
  "month_len y m = (if m = 2 then (if leap y then 29 else 28)
     else if m \<in> {4, 6, 9, 11} then 30 else 31)"

definition valid_date :: "date \<Rightarrow> bool" where
  "valid_date d \<longleftrightarrow> 1 \<le> dyear d \<and> dyear d \<le> 9999 \<and> 1 \<le> dmonth d \<and> dmonth d \<le> 12 \<and>
     1 \<le> dday d \<and> dday d \<le> month_len (dyear d) (dmonth d)"

definition date_overflow :: exn where
  "date_overflow = Exn OverflowError ''date value out of range''"

text \<open>d + timedelta(days=1), and d + timedelta(days=n).\<close>

fun next_day :: "date \<Rightarrow> date res" where
  "next_day (Date y m d) =
     (if d < month_len y m then Inr (Date y m (Suc d))
      else if m < 12 then Inr (Date y (Suc m) 1)
      else if y < 9999 then Inr (Date (Suc y) 1 1)
      else Inl date_overflow)"

fun plus_days :: "date \<Rightarrow> nat \<Rightarrow> date res" where
  "plus_days d 0 = Inr d"
| "plus_days d (Suc n) = rbind (next_day d) (\<lambda>d'. plus_days d' n)"

text \<open>d.replace(day=1), and d.replace(day=monthrange(d.year, d.month)[1]).\<close>

definition first_of :: "date \<Rightarrow> date" where
  "first_of d = Date (dyear d) (dmonth d) 1"

definition last_of :: "date \<Rightarrow> date" where
  "last_of d = Date (dyear d) (dmonth d) (month_len (dyear d) (dmonth d))"

text \<open>_days_between and the loop of _months_between, drained; the exception of the last step is kept.\<close>

lemma month_len_bounds: "28 \<le> month_len y m" "month_len y m \<le> 31"
  by (auto simp: month_len_def)

function days_between :: "date \<Rightarrow> date \<Rightarrow> date list res" where
  "days_between cur stop = (if cur \<le> stop
     then rbind (next_day cur) (\<lambda>nxt. rbind (days_between nxt stop) (\<lambda>ds. Inr (cur # ds)))
     else Inr [])"
  by pat_completeness auto
termination
proof (relation "measures [\<lambda>(c, s). 9999 - dyear c, \<lambda>(c, s). 12 - dmonth c, \<lambda>(c, s). 31 - dday c]",
    simp, goal_cases)
  case (1 cur stop nxt)
  obtain y m d where c: "cur = Date y m d" by (cases cur)
  with 1 month_len_bounds [of y m] show ?case by (auto split: if_splits)
qed

function months_from :: "date \<Rightarrow> date \<Rightarrow> (date \<times> date) list res" where
  "months_from cur stop = (if cur \<le> stop
     then rbind (next_day (last_of cur)) (\<lambda>nxt.
       rbind (months_from nxt stop) (\<lambda>ms. Inr ((cur, last_of cur) # ms)))
     else Inr [])"
  by pat_completeness auto
termination
proof (relation "measures [\<lambda>(c, s). 9999 - dyear c, \<lambda>(c, s). 12 - dmonth c]", simp, goal_cases)
  case (1 cur stop nxt)
  obtain y m d where c: "cur = Date y m d" by (cases cur)
  with 1 show ?case by (auto simp: last_of_def split: if_splits)
qed

declare days_between.simps [simp del] months_from.simps [simp del]

definition months_between :: "date \<Rightarrow> date \<Rightarrow> (date \<times> date) list res" where
  "months_between start stop = months_from (first_of start) stop"

text \<open>The equations as conditional rewrite rules, for evaluation on concrete dates.\<close>

lemma days_between_eval:
  "next_day cur = Inr nxt \<Longrightarrow> cur \<le> stop \<Longrightarrow>
     days_between cur stop = rbind (days_between nxt stop) (\<lambda>ds. Inr (cur # ds))"
  "\<not> cur \<le> stop \<Longrightarrow> days_between cur stop = Inr []"
  by (simp_all add: days_between.simps [of cur])

lemma months_from_eval:
  "next_day (last_of cur) = Inr nxt \<Longrightarrow> cur \<le> stop \<Longrightarrow>
     months_from cur stop = rbind (months_from nxt stop) (\<lambda>ms. Inr ((cur, last_of cur) # ms))"
  "\<not> cur \<le> stop \<Longrightarrow> months_from cur stop = Inr []"
  by (simp_all add: months_from.simps [of cur])

lemma plus_days_numeral:
  "plus_days d (numeral k) = rbind (next_day d) (\<lambda>d'. plus_days d' (pred_numeral k))"
  by (simp add: numeral_eq_Suc)

lemmas calendar_eval = plus_days_numeral days_between_eval months_from_eval months_between_def first_of_def last_of_def
  month_len_def leap_def valid_date_def

subsection \<open>Order and successor\<close>

lemma month_len_pos [simp]: "Suc 0 \<le> month_len y m"
  using month_len_bounds(1) [of y m] by linarith

lemma date_less_simps [simp]:
  "Date y m d < Date y' m' d' \<longleftrightarrow> y < y' \<or> (y = y' \<and> (m < m' \<or> (m = m' \<and> d < d')))"
  "Date y m d \<le> Date y' m' d' \<longleftrightarrow> y < y' \<or> (y = y' \<and> (m < m' \<or> (m = m' \<and> d \<le> d')))"
  by (auto simp: less_date_def less_eq_date_def)

lemma next_day_valid: "next_day d = Inr d' \<Longrightarrow> valid_date d \<Longrightarrow> valid_date d'"
  by (cases d) (auto simp: valid_date_def split: if_splits)

lemma next_day_gap:
  "next_day a = Inr b \<Longrightarrow> valid_date a \<Longrightarrow> valid_date d \<Longrightarrow> a < d \<longleftrightarrow> b \<le> d"
  by (cases a; cases d; cases b)
    (auto simp: valid_date_def split: if_splits)

lemma next_day_overflow:
  "valid_date d \<Longrightarrow> next_day d = Inl e \<longleftrightarrow> d = Date 9999 12 31 \<and> e = date_overflow"
  by (cases d) (auto simp: valid_date_def month_len_def split: if_splits)

lemma plus_days_in_month: "d + n \<le> 28 \<Longrightarrow> plus_days (Date y m d) n = Inr (Date y m (d + n))"
proof (induction n arbitrary: d)
  case (Suc n)
  then have "d < month_len y m" using month_len_bounds(1) [of y m] by linarith
  with Suc show ?case by simp
qed simp

lemma plus_days_from_last:
  assumes "last_of c < Date 9999 12 1" and "n < 28"
  shows "\<exists>d. plus_days (last_of c) (Suc n) = Inr d"
  using assms plus_days_in_month [of 1 n] month_len_bounds(1) [of 9999 12] by (auto simp: last_of_def)

lemma last_before_overflow:
  assumes "first_of f = f" and "f \<le> s" and "s < Date 9999 12 1"
  shows "last_of f < Date 9999 12 1"
proof -
  have "f < Date 9999 12 1" using assms by simp
  with assms(1) show ?thesis by (cases f) (auto simp: first_of_def last_of_def)
qed

lemma valid_last [simp]: "valid_date (last_of d) \<longleftrightarrow> valid_date (first_of d)"
  using month_len_bounds [of "dyear d" "dmonth d"]
  by (auto simp: valid_date_def last_of_def first_of_def)

lemma valid_first: "valid_date d \<Longrightarrow> valid_date (first_of d)"
  using month_len_bounds [of "dyear d" "dmonth d"]
  by (auto simp: valid_date_def first_of_def)

lemma first_of_first [simp]: "first_of (first_of d) = first_of d"
  by (simp add: first_of_def)

lemma first_le: "valid_date d \<Longrightarrow> first_of d \<le> d" and last_ge: "valid_date d \<Longrightarrow> d \<le> last_of d"
  by (cases d; simp add: valid_date_def first_of_def last_of_def)+

text \<open>Two days are of the same calendar month.\<close>

definition same_month :: "date \<Rightarrow> date \<Rightarrow> bool" where
  "same_month a b \<longleftrightarrow> dyear a = dyear b \<and> dmonth a = dmonth b"

lemma same_month_range:
  "valid_date d \<Longrightarrow> same_month c d \<longleftrightarrow> first_of c \<le> d \<and> d \<le> last_of c"
  by (cases c; cases d) (auto simp: same_month_def valid_date_def first_of_def last_of_def)

subsection \<open>The two enumerations\<close>

lemma days_between_set:
  assumes "days_between a b = Inr ds" and "valid_date a" and "valid_date b" and "valid_date d"
  shows "count_list ds d = (if a \<le> d \<and> d \<le> b then 1 else 0)"
  using assms
proof (induction a b arbitrary: ds rule: days_between.induct)
  case (1 a b)
  show ?case
  proof (cases "a \<le> b")
    case True
    with "1.prems" obtain n es where n: "next_day a = Inr n" "days_between n b = Inr es" "ds = a # es"
      by (subst (asm) days_between.simps) (auto simp: res_simps)
    with "1.IH" [OF True n(1)] "1.prems" have "count_list es d = (if n \<le> d \<and> d \<le> b then 1 else 0)"
      by (simp add: next_day_valid)
    with n True next_day_gap [OF n(1) "1.prems"(2,4)] show ?thesis by auto
  next
    case False
    with "1.prems" show ?thesis by (subst (asm) days_between.simps) auto
  qed
qed

lemma days_between_valid:
  "days_between a b = Inr ds \<Longrightarrow> valid_date a \<Longrightarrow> d \<in> set ds \<Longrightarrow> valid_date d \<and> a \<le> d \<and> d \<le> b"
proof (induction a b arbitrary: ds rule: days_between.induct)
  case (1 a b)
  show ?case
  proof (cases "a \<le> b")
    case True
    with "1.prems" obtain n es where n: "next_day a = Inr n" "days_between n b = Inr es" "ds = a # es"
      by (subst (asm) days_between.simps) (auto simp: res_simps)
    have v: "valid_date n" using n(1) "1.prems"(2) by (rule next_day_valid)
    show ?thesis
    proof (cases "d = a")
      case False
      with n "1.prems" have "d \<in> set es" by simp
      with "1.IH" [OF True n(1)] n v have h: "valid_date d \<and> n \<le> d \<and> d \<le> b" by blast
      with next_day_gap [OF n(1) "1.prems"(2)] have "a < d" by blast
      with h show ?thesis by simp
    qed (use "1.prems" True in simp)
  next
    case False
    with "1.prems" show ?thesis by (subst (asm) days_between.simps) auto
  qed
qed

lemma days_between_returns:
  "valid_date a \<Longrightarrow> valid_date b \<Longrightarrow> b < Date 9999 12 31 \<Longrightarrow> \<exists>ds. days_between a b = Inr ds"
proof (induction a b rule: days_between.induct)
  case (1 a b)
  show ?case
  proof (cases "a \<le> b")
    case True
    with "1.prems" have "a \<noteq> Date 9999 12 31" by auto
    with "1.prems" obtain n where n: "next_day a = Inr n"
      using next_day_overflow by (cases "next_day a") auto
    with "1.IH" [OF True n] "1.prems" obtain ds where "days_between n b = Inr ds"
      using next_day_valid by blast
    with n True show ?thesis by (subst days_between.simps) auto
  next
    case False
    then show ?thesis by (subst days_between.simps) auto
  qed
qed

text \<open>
  The months of an interval: each is a whole calendar month that touches it, and each day of
  the interval belongs to exactly one of them.
\<close>

lemma next_month:
  "next_day (last_of c) = Inr n \<Longrightarrow> valid_date (first_of c) \<Longrightarrow> valid_date n \<and> first_of n = n"
proof -
  assume n: "next_day (last_of c) = Inr n" and "valid_date (first_of c)"
  then have "valid_date n" using next_day_valid valid_last by blast
  with n show ?thesis by (auto simp: last_of_def first_of_def split: if_splits)
qed

lemma months_from_members:
  "months_from c b = Inr ms \<Longrightarrow> valid_date c \<Longrightarrow> first_of c = c \<Longrightarrow> (f, l) \<in> set ms \<Longrightarrow>
   valid_date f \<and> first_of f = f \<and> l = last_of f \<and> c \<le> f \<and> f \<le> b"
proof (induction c b arbitrary: ms rule: months_from.induct)
  case (1 c b)
  show ?case
  proof (cases "c \<le> b")
    case True
    with "1.prems" obtain n es where n: "next_day (last_of c) = Inr n" "months_from n b = Inr es"
      "ms = (c, last_of c) # es"
      by (subst (asm) months_from.simps) (auto simp: res_simps)
    have v: "valid_date n" "first_of n = n" using next_month [OF n(1)] "1.prems" by auto
    have "last_of c < n" using next_day_gap [OF n(1), of n] v "1.prems" by simp
    with last_ge "1.prems" have "c < n" by force
    with n "1.prems" True "1.IH" [OF True n(1) n(2) v] show ?thesis by auto
  next
    case False
    with "1.prems" show ?thesis by (subst (asm) months_from.simps) auto
  qed
qed

lemma months_from_cover:
  assumes "months_from c b = Inr ms" and "valid_date c" and "first_of c = c"
    and "valid_date d" and "d \<le> b"
  shows "length (filter (\<lambda>(f, l). f \<le> d \<and> d \<le> l) ms) = (if c \<le> d then 1 else 0)"
  using assms
proof (induction c b arbitrary: ms rule: months_from.induct)
  case (1 c b)
  show ?case
  proof (cases "c \<le> b")
    case True
    with "1.prems" obtain n es where n: "next_day (last_of c) = Inr n" "months_from n b = Inr es"
      "ms = (c, last_of c) # es"
      by (subst (asm) months_from.simps) (auto simp: res_simps)
    have v: "valid_date n" "first_of n = n" using next_month [OF n(1)] "1.prems" by auto
    from "1.IH" [OF True n(1) n(2) v] "1.prems"
    have ih: "length (filter (\<lambda>(f, l). f \<le> d \<and> d \<le> l) es) = (if n \<le> d then 1 else 0)" by simp
    have g: "last_of c < d \<longleftrightarrow> n \<le> d"
      using next_day_gap [OF n(1)] "1.prems" by simp
    moreover have "c \<le> last_of c" using last_ge "1.prems" by blast
    ultimately show ?thesis using ih n(3) by auto
  next
    case False
    with "1.prems" show ?thesis by (subst (asm) months_from.simps) auto
  qed
qed

lemma months_from_returns:
  assumes "valid_date c" and "first_of c = c" and "valid_date b"
  shows "(\<exists>ms. months_from c b = Inr ms) \<longleftrightarrow> \<not> (c \<le> b \<and> Date 9999 12 1 \<le> b)"
  using assms
proof (induction c b rule: months_from.induct)
  case (1 c b)
  show ?case
  proof (cases "c \<le> b")
    case True
    obtain y m where c: "c = Date y m 1" using "1.prems"(2) by (cases c) (simp add: first_of_def)
    show ?thesis
    proof (cases "next_day (last_of c)")
      case (Inl e)
      then have "last_of c = Date 9999 12 31"
        using next_day_overflow [of "last_of c" e] "1.prems" by simp
      with c have "c = Date 9999 12 1" by (simp add: last_of_def)
      with True Inl show ?thesis by (subst months_from.simps) simp
    next
      case (Inr n)
      have v: "valid_date n" "first_of n = n" using next_month [OF Inr] "1.prems" by auto
      have "n \<le> b \<or> \<not> Date 9999 12 1 \<le> b"
        using Inr c v "1.prems" True
        by (cases b) (auto simp: last_of_def valid_date_def split: if_splits)
      moreover have "(\<exists>ms. months_from c b = Inr ms) \<longleftrightarrow> (\<exists>ms. months_from n b = Inr ms)"
        using Inr True by (subst months_from.simps) (auto simp: res_simps)
      ultimately show ?thesis using "1.IH" [OF True Inr v "1.prems"(3)] True by auto
    qed
  next
    case False
    then show ?thesis by (subst months_from.simps) auto
  qed
qed

end
