(* ===== verification/Tiers.thy ===== *)
theory Tiers
  imports Calendar
begin

text \<open>
  awsnative/backfill/tiers.py: which archive files a backfill window needs, and their keys.
\<close>

datatype tier = DEEP | HOT

datatype granularity = MONTHLY | DAILY

fun tier_str :: "tier \<Rightarrow> string" where
  "tier_str DEEP = ''DEEP''"
| "tier_str HOT = ''HOT''"

fun gran_str :: "granularity \<Rightarrow> string" where
  "gran_str MONTHLY = ''monthly''"
| "gran_str DAILY = ''daily''"

definition archive_venue :: string where
  "archive_venue = ''binance''"

definition archive_base_url :: string where
  "archive_base_url = ''https://data.binance.vision''"

definition publication_lag_days :: nat where
  "publication_lag_days = 7"

record tier_layout =
  dataset :: string
  interval_segment :: string
  name_infix :: string

fun layout :: "tier \<Rightarrow> tier_layout" where
  "layout DEEP = \<lparr> dataset = ''klines'', interval_segment = ''1m/'', name_infix = ''1m'' \<rparr>"
| "layout HOT = \<lparr> dataset = ''aggTrades'', interval_segment = [], name_infix = ''aggTrades'' \<rparr>"

record archive_file =
  f_tier :: tier
  f_instrument_id :: string
  f_venue_symbol :: string
  f_granularity :: granularity
  f_period :: string
  f_dt :: date

definition filename :: "archive_file \<Rightarrow> string" where
  "filename f = f_venue_symbol f @ ''-'' @ name_infix (layout (f_tier f)) @ ''-'' @ f_period f @ ''.zip''"

definition archive_key :: "archive_file \<Rightarrow> string" where
  "archive_key f = ''data/spot/'' @ gran_str (f_granularity f) @ ''/'' @ dataset (layout (f_tier f)) @ ''/''
     @ f_venue_symbol f @ ''/'' @ interval_segment (layout (f_tier f)) @ filename f"

definition archive_url :: "archive_file \<Rightarrow> string" where
  "archive_url f = archive_base_url @ ''/'' @ archive_key f"

definition checksum_url :: "archive_file \<Rightarrow> string" where
  "checksum_url f = archive_url f @ ''.CHECKSUM''"

text \<open>The format specs %Y-%m and %Y-%m-%d; %Y prints the year without padding (as glibc does).\<close>

definition month_period :: "date \<Rightarrow> string" where
  "month_period d = nat_str (dyear d) @ ''-'' @ pad 2 (dmonth d)"

definition day_period :: "date \<Rightarrow> string" where
  "day_period d = nat_str (dyear d) @ ''-'' @ pad 2 (dmonth d) @ ''-'' @ pad 2 (dday d)"

definition monthly_file :: "tier \<Rightarrow> string \<times> string \<Rightarrow> date \<Rightarrow> archive_file" where
  "monthly_file t p first = \<lparr> f_tier = t, f_instrument_id = fst p, f_venue_symbol = snd p,
     f_granularity = MONTHLY, f_period = month_period first, f_dt = first \<rparr>"

definition daily_file :: "tier \<Rightarrow> string \<times> string \<Rightarrow> date \<Rightarrow> archive_file" where
  "daily_file t p day = \<lparr> f_tier = t, f_instrument_id = fst p, f_venue_symbol = snd p,
     f_granularity = DAILY, f_period = day_period day, f_dt = day \<rparr>"

text \<open>The body of the loop over one month, and the loops over the months and the pairs.\<close>

definition month_files ::
  "tier \<Rightarrow> date \<Rightarrow> date \<Rightarrow> date \<Rightarrow> string \<times> string \<Rightarrow> date \<times> date \<Rightarrow> archive_file list res" where
  "month_files t start stop today p m = (case m of (fst_day, lst_day) \<Rightarrow>
     rbind (plus_days lst_day publication_lag_days) (\<lambda>published.
       if (start \<le> fst_day \<and> lst_day \<le> stop) \<and> published \<le> today
       then Inr [monthly_file t p fst_day]
       else rbind (days_between (max fst_day start) (min lst_day stop)) (\<lambda>days.
         Inr (map (daily_file t p) days))))"

definition pair_files ::
  "tier \<Rightarrow> date \<Rightarrow> date \<Rightarrow> date \<Rightarrow> string \<times> string \<Rightarrow> archive_file list res" where
  "pair_files t start stop today p = rbind (months_between start stop) (\<lambda>ms.
     rbind (rmap (month_files t start stop today p) ms) (\<lambda>fss. Inr (concat fss)))"

definition file_order :: "archive_file \<Rightarrow> string \<times> date \<times> string" where
  "file_order f = (f_instrument_id f, f_dt f, gran_str (f_granularity f))"

definition files_for_window ::
  "(string \<times> string) list \<Rightarrow> tier \<Rightarrow> date \<Rightarrow> date \<Rightarrow> date \<Rightarrow> archive_file list res" where
  "files_for_window pairs t start stop today =
     (if stop < start then Inr []
      else rbind (rmap (pair_files t start stop today) pairs) (\<lambda>fss.
        Inr (sort_key file_order (concat fss))))"

text \<open>What a file holds: the days of its month, or its day.\<close>

definition covers :: "archive_file \<Rightarrow> date \<Rightarrow> bool" where
  "covers f d = (case f_granularity f of MONTHLY \<Rightarrow> same_month (f_dt f) d | DAILY \<Rightarrow> f_dt f = d)"

definition file_pair :: "archive_file \<Rightarrow> string \<times> string" where
  "file_pair f = (f_instrument_id f, f_venue_symbol f)"

subsection \<open>Facts\<close>

lemma monthly_file_simps [simp]:
  "file_pair (monthly_file t p d) = p" "f_granularity (monthly_file t p d) = MONTHLY"
  "f_dt (monthly_file t p d) = d" "f_tier (monthly_file t p d) = t"
  "f_period (monthly_file t p d) = month_period d" "f_venue_symbol (monthly_file t p d) = snd p"
  by (simp_all add: monthly_file_def file_pair_def)

lemma daily_file_simps [simp]:
  "file_pair (daily_file t p d) = p" "f_granularity (daily_file t p d) = DAILY"
  "f_dt (daily_file t p d) = d" "f_tier (daily_file t p d) = t"
  "f_period (daily_file t p d) = day_period d" "f_venue_symbol (daily_file t p d) = snd p"
  by (simp_all add: daily_file_def file_pair_def)

lemma valid_max_min [intro]:
  "valid_date a \<Longrightarrow> valid_date b \<Longrightarrow> valid_date (max a b)"
  "valid_date a \<Longrightarrow> valid_date b \<Longrightarrow> valid_date (min a b)"
  by (simp_all add: max_def min_def)

lemma month_files_cover:
  assumes "month_files t start stop today p (f, l) = Inr fs"
    and "valid_date start" "valid_date stop" "valid_date d"
    and "valid_date f" "first_of f = f" "l = last_of f"
  shows "length (filter (\<lambda>x. file_pair x = q \<and> covers x d) fs) =
    (if p = q \<and> (start \<le> d \<and> d \<le> stop) \<and> f \<le> d \<and> d \<le> l then 1 else 0)"
proof -
  have vl: "valid_date l" using assms by simp
  from assms(1) obtain n where n: "plus_days l publication_lag_days = Inr n"
    by (auto simp: month_files_def res_simps)
  show ?thesis
  proof (cases "(start \<le> f \<and> l \<le> stop) \<and> n \<le> today")
    case True
    with n assms(1) have "fs = [monthly_file t p f]" by (simp add: month_files_def)
    moreover have "same_month f d \<longleftrightarrow> f \<le> d \<and> d \<le> l"
      using same_month_range [OF assms(4), of f] assms(6,7) by simp
    ultimately show ?thesis using True by (auto simp: covers_def)
  next
    case False
    with n assms(1) obtain ds where ds: "days_between (max f start) (min l stop) = Inr ds"
      "fs = map (daily_file t p) ds"
      by (auto simp: month_files_def res_simps)
    have "length (filter (\<lambda>x. file_pair x = q \<and> covers x d) fs) = (if p = q then count_list ds d else 0)"
      by (simp add: ds(2) filter_map o_def covers_def length_filter_eq_count)
    also have "\<dots> = (if p = q \<and> max f start \<le> d \<and> d \<le> min l stop then 1 else 0)"
      by (simp add: days_between_set [OF ds(1) valid_max_min(1) valid_max_min(2)] assms vl)
    finally show ?thesis by (auto simp: max_def min_def split: if_splits)
  qed
qed

lemma months_between_members:
  "months_between a b = Inr ms \<Longrightarrow> valid_date a \<Longrightarrow> (f, l) \<in> set ms \<Longrightarrow>
   valid_date f \<and> first_of f = f \<and> l = last_of f \<and> f \<le> b"
  unfolding months_between_def
  by (drule months_from_members) (auto simp: valid_first)

lemma months_between_cover:
  assumes "months_between a b = Inr ms" and "valid_date a" and "valid_date d" and "d \<le> b"
  shows "length (filter (\<lambda>(f, l). f \<le> d \<and> d \<le> l) ms) = (if first_of a \<le> d then 1 else 0)"
  using assms unfolding months_between_def
  by (intro months_from_cover) (auto simp: valid_first)

lemma pair_files_cover:
  assumes "pair_files t start stop today p = Inr fs"
    and "valid_date start" "valid_date stop" "valid_date d"
  shows "length (filter (\<lambda>x. file_pair x = q \<and> covers x d) fs) =
    (if p = q \<and> start \<le> d \<and> d \<le> stop then 1 else 0)"
proof -
  from assms(1) obtain ms fss where ms: "months_between start stop = Inr ms"
    "rmap (month_files t start stop today p) ms = Inr fss" "fs = concat fss"
    by (auto simp: pair_files_def res_simps)
  have "length (filter (\<lambda>x. file_pair x = q \<and> covers x d) fs) =
      length (filter (\<lambda>m. p = q \<and> (start \<le> d \<and> d \<le> stop) \<and> fst m \<le> d \<and> d \<le> snd m) ms)"
    unfolding ms(3)
  proof (rule rmap_concat_count [OF ms(2)])
    fix m gs
    assume m: "m \<in> set ms" "month_files t start stop today p m = Inr gs"
    obtain f l where fl: "m = (f, l)" by (cases m)
    with m(1) have f: "valid_date f" "first_of f = f" "l = last_of f"
      using months_between_members [OF ms(1) assms(2)] by auto
    show "length (filter (\<lambda>x. file_pair x = q \<and> covers x d) gs) =
        (if p = q \<and> (start \<le> d \<and> d \<le> stop) \<and> fst m \<le> d \<and> d \<le> snd m then 1 else 0)"
      using month_files_cover [OF m(2) [unfolded fl] assms(2-4) f] by (simp add: fl)
  qed
  also have "\<dots> = (if p = q \<and> start \<le> d \<and> d \<le> stop then 1 else 0)"
  proof (cases "p = q \<and> start \<le> d \<and> d \<le> stop")
    case True
    have "first_of start \<le> d" using True first_le [OF assms(2)] by auto
    with True months_between_cover [OF ms(1) assms(2,4)]
    have "length (filter (\<lambda>(f, l). f \<le> d \<and> d \<le> l) ms) = 1" by simp
    moreover have "(\<lambda>(f, l). f \<le> d \<and> d \<le> l) = (\<lambda>m. fst m \<le> d \<and> d \<le> snd m)" by auto
    ultimately show ?thesis using True by simp
  next
    case False
    then have "(\<lambda>m. p = q \<and> (start \<le> d \<and> d \<le> stop) \<and> fst m \<le> d \<and> d \<le> snd m) = (\<lambda>m. False)"
      by auto
    with False show ?thesis by auto
  qed
  finally show ?thesis .
qed

lemma pair_files_returns:
  assumes "valid_date start" "valid_date stop" "start \<le> stop"
  shows "(\<exists>fs. pair_files t start stop today p = Inr fs) \<longleftrightarrow> stop < Date 9999 12 1"
proof -
  have le: "first_of start \<le> stop" using first_le [OF assms(1)] assms(3) by simp
  have "(\<exists>ms. months_between start stop = Inr ms) \<longleftrightarrow> stop < Date 9999 12 1"
    using months_from_returns [of "first_of start" stop] assms le
    by (auto simp: months_between_def valid_first not_le)
  moreover have month: "\<exists>gs. month_files t start stop today p m = Inr gs"
    if ms: "months_between start stop = Inr ms" and m: "m \<in> set ms" and lt: "stop < Date 9999 12 1" for ms m
  proof -
    obtain f where f: "m = (f, last_of f)" "valid_date f" "first_of f = f" "f \<le> stop"
      using months_between_members [OF ms assms(1), of "fst m" "snd m"] m
      by (metis prod.collapse)
    have "last_of f < Date 9999 12 1" by (rule last_before_overflow [OF f(3,4) lt])
    then obtain n where n: "plus_days (last_of f) publication_lag_days = Inr n"
      using plus_days_from_last [of f 6] by (auto simp: publication_lag_days_def)
    have "min (last_of f) stop < Date 9999 12 31" using lt
      by (rule min_less_iff_disj [THEN iffD2, OF disjI2, OF order.strict_trans2]) simp
    moreover have "valid_date (max f start)" "valid_date (min (last_of f) stop)"
      using f assms by (intro valid_max_min; simp)+
    ultimately obtain ds where "days_between (max f start) (min (last_of f) stop) = Inr ds"
      using days_between_returns by blast
    with n f show ?thesis by (auto simp: month_files_def)
  qed
  moreover have "\<exists>fss. rmap (month_files t start stop today p) ms = Inr fss"
    if "months_between start stop = Inr ms" and "stop < Date 9999 12 1" for ms
    using month that by (simp add: rmap_Inr_exists)
  ultimately show ?thesis
    by (auto simp: pair_files_def res_simps)
qed

lemma files_for_window_Inr:
  "files_for_window pairs t start stop today = Inr fs \<Longrightarrow> start \<le> stop \<Longrightarrow>
   \<exists>fss. rmap (pair_files t start stop today) pairs = Inr fss \<and> fs = sort_key file_order (concat fss)"
  by (auto simp: files_for_window_def res_simps split: if_splits)

lemma pair_files_members:
  assumes "pair_files t start stop today p = Inr fs" and "valid_date start" "valid_date stop" and "x \<in> set fs"
  shows "(\<exists>d. valid_date d \<and> start \<le> d \<and> d \<le> stop \<and> x = daily_file t p d) \<or>
    (\<exists>f n. valid_date f \<and> first_of f = f \<and> start \<le> f \<and> last_of f \<le> stop \<and>
       plus_days (last_of f) publication_lag_days = Inr n \<and> n \<le> today \<and> x = monthly_file t p f)"
proof -
  from assms(1) obtain ms fss where ms: "months_between start stop = Inr ms"
    "rmap (month_files t start stop today p) ms = Inr fss" "fs = concat fss"
    by (auto simp: pair_files_def res_simps)
  with assms(4) obtain gs where gs: "gs \<in> set fss" "x \<in> set gs" by auto
  from rmap_set [OF ms(2) gs(1)] obtain f l where fl: "(f, l) \<in> set ms"
    "month_files t start stop today p (f, l) = Inr gs" by force
  have f: "valid_date f" "first_of f = f" "l = last_of f"
    using months_between_members [OF ms(1) assms(2) fl(1)] by auto
  show ?thesis
  proof (rule rbind_Inr_iff [THEN iffD1, OF fl(2) [unfolded month_files_def prod.case], THEN exE])
    fix n
    assume n: "plus_days l publication_lag_days = Inr n \<and>
      (if (start \<le> f \<and> l \<le> stop) \<and> n \<le> today then Inr [monthly_file t p f]
       else rbind (days_between (max f start) (min l stop)) (\<lambda>days. Inr (map (daily_file t p) days))) = Inr gs"
    show ?thesis
    proof (cases "(start \<le> f \<and> l \<le> stop) \<and> n \<le> today")
      case True
      with n gs f show ?thesis by auto
    next
      case False
      with n obtain ds where ds: "days_between (max f start) (min l stop) = Inr ds"
        "gs = map (daily_file t p) ds"
        by (auto simp: res_simps)
      with gs(2) obtain d where d: "d \<in> set ds" "x = daily_file t p d" by auto
      have "valid_date d \<and> max f start \<le> d \<and> d \<le> min l stop"
        using days_between_valid [OF ds(1) _ d(1)] f assms by blast
      with d show ?thesis by auto
    qed
  qed
qed

lemma plan_members:
  assumes "files_for_window pairs t start stop today = Inr fs"
    and "valid_date start" "valid_date stop" and "x \<in> set fs"
  shows "\<exists>p\<in>set pairs. (\<exists>d. valid_date d \<and> start \<le> d \<and> d \<le> stop \<and> x = daily_file t p d) \<or>
    (\<exists>f n. valid_date f \<and> first_of f = f \<and> start \<le> f \<and> last_of f \<le> stop \<and>
       plus_days (last_of f) publication_lag_days = Inr n \<and> n \<le> today \<and> x = monthly_file t p f)"
proof -
  have "start \<le> stop" using assms(1,4) by (auto simp: files_for_window_def split: if_splits)
  with files_for_window_Inr [OF assms(1)] obtain fss where
    fss: "rmap (pair_files t start stop today) pairs = Inr fss" "fs = sort_key file_order (concat fss)"
    by blast
  with assms(4) obtain gs where gs: "gs \<in> set fss" "x \<in> set gs" by auto
  with rmap_set [OF fss(1)] obtain p where "p \<in> set pairs" "pair_files t start stop today p = Inr gs" by blast
  with pair_files_members [OF _ assms(2,3)] gs show ?thesis by blast
qed

lemma files_cover:
  assumes "files_for_window pairs t start stop today = Inr fs"
    and "valid_date start" "valid_date stop" "valid_date d"
  shows "length (filter (\<lambda>f. file_pair f = q \<and> covers f d) fs) =
    (if start \<le> d \<and> d \<le> stop then count_list pairs q else 0)"
proof (cases "start \<le> stop")
  case True
  with files_for_window_Inr [OF assms(1)] obtain fss where
    fss: "rmap (pair_files t start stop today) pairs = Inr fss" "fs = sort_key file_order (concat fss)"
    by blast
  have "length (filter (\<lambda>f. file_pair f = q \<and> covers f d) fs) =
      length (filter (\<lambda>f. file_pair f = q \<and> covers f d) (concat fss))"
    by (simp add: fss(2) filter_sort)
  also have "\<dots> = length (filter (\<lambda>p. p = q \<and> start \<le> d \<and> d \<le> stop) pairs)"
    by (rule rmap_concat_count [OF fss(1)]) (rule pair_files_cover [OF _ assms(2-4)])
  also have "\<dots> = (if start \<le> d \<and> d \<le> stop then count_list pairs q else 0)"
    by (auto simp: length_filter_eq_count)
  finally show ?thesis .
next
  case False
  with assms(1) have "fs = []" by (simp add: files_for_window_def split: if_splits)
  with False show ?thesis by auto
qed

text \<open>The archive keys determine the files.\<close>

lemma month_period_inj:
  "month_period d = month_period e \<longleftrightarrow> dyear d = dyear e \<and> dmonth d = dmonth e"
proof -
  have "CHR ''-'' \<notin> set (nat_str n)" for n by (rule nat_str_no_char) simp
  then show ?thesis by (simp add: month_period_def sep_append_eq_iff nat_str_inj pad_inj)
qed

lemma month_period_first:
  assumes "first_of d = d" and "first_of e = e" and "month_period d = month_period e"
  shows "d = e"
proof -
  from assms(3) have "first_of d = first_of e" by (simp add: month_period_inj first_of_def)
  with assms(1,2) show ?thesis by metis
qed

lemma day_period_inj: "day_period d = day_period e \<longleftrightarrow> d = e"
proof -
  have "CHR ''-'' \<notin> set (nat_str n)" "CHR ''-'' \<notin> set (pad 2 n)" for n
    by (rule nat_str_no_char, simp) (rule pad_no_char, simp)
  then show ?thesis
    by (auto simp: day_period_def sep_append_eq_iff nat_str_inj pad_inj intro: date.expand)
qed

lemma gran_str_simps [simp]:
  "CHR ''/'' \<notin> set (gran_str g)" "gran_str g = gran_str h \<longleftrightarrow> g = h"
  by (cases g; simp) (cases g; cases h; simp)

lemma archive_key_inj:
  assumes "archive_key f = archive_key g" and "f_tier f = f_tier g"
    and "CHR ''/'' \<notin> set (f_venue_symbol f)" and "CHR ''/'' \<notin> set (f_venue_symbol g)"
  shows "f_granularity f = f_granularity g \<and> f_venue_symbol f = f_venue_symbol g \<and> f_period f = f_period g"
proof -
  have "f_granularity f = f_granularity g" and s: "f_venue_symbol f @ CHR ''/'' # interval_segment (layout (f_tier f)) @ filename f =
      f_venue_symbol g @ CHR ''/'' # interval_segment (layout (f_tier g)) @ filename g"
    using assms(1,2) by (simp_all add: archive_key_def sep_append_eq_iff)
  moreover from s have "f_venue_symbol f = f_venue_symbol g \<and> filename f = filename g"
    using assms(2-4) by (simp add: sep_append_eq_iff)
  ultimately show ?thesis using assms(2) by (simp add: filename_def)
qed

lemma covers_own_day: "covers f (f_dt f)"
  by (cases "f_granularity f") (simp_all add: covers_def same_month_def)

lemma plan_day_unique:
  assumes "files_for_window pairs t start stop today = Inr fs"
    and "valid_date start" "valid_date stop" "distinct pairs"
  shows "distinct (map (\<lambda>f. (file_pair f, f_dt f)) fs)"
proof (rule distinct_map_by_count)
  fix k
  show "length (filter (\<lambda>f. (file_pair f, f_dt f) = k) fs) \<le> 1"
  proof (cases "valid_date (snd k)")
    case True
    have "length (filter (\<lambda>f. (file_pair f, f_dt f) = k) fs) \<le>
        length (filter (\<lambda>f. file_pair f = fst k \<and> covers f (snd k)) fs)"
      by (rule length_filter_mono) (auto simp: covers_own_day)
    moreover have "count_list pairs (fst k) \<le> 1"
      using assms(4) by (rule count_list_distinct)
    ultimately show ?thesis
      using files_cover [OF assms(1-3) True, of "fst k"] by (auto split: if_splits)
  next
    case False
    then have "filter (\<lambda>f. (file_pair f, f_dt f) = k) fs = []"
      using plan_members [OF assms(1-3)] by (fastforce simp: filter_empty_conv)
    then show ?thesis by simp
  qed
qed

text \<open>A window from the end of January to the start of March 2024, planned in April.\<close>

definition example_pair :: "string \<times> string" where
  "example_pair = (''BTC-USD'', ''BTCUSDT'')"

definition example_plan :: "archive_file list" where
  "example_plan =
     [daily_file DEEP example_pair (Date 2024 1 30), daily_file DEEP example_pair (Date 2024 1 31),
      monthly_file DEEP example_pair (Date 2024 2 1), daily_file DEEP example_pair (Date 2024 3 1)]"

lemma example_window:
  "files_for_window [example_pair] DEEP (Date 2024 1 30) (Date 2024 3 1) (Date 2024 4 1) = Inr example_plan"
  by (simp add: files_for_window_def pair_files_def calendar_eval month_files_def example_plan_def
      publication_lag_days_def file_order_def less_eq_prod_def less_prod_def max_def min_def
      monthly_file_def daily_file_def numeral_2_eq_2 numeral_3_eq_3)

lemma example_dates: "valid_date (Date 2024 1 30)" "valid_date (Date 2024 3 1)" "valid_date (Date 2024 2 29)"
  by (simp_all add: calendar_eval)

subsection \<open>Properties\<close>

text \<open>
  Property C4. A backfill plan covers the window and nothing else: for every instrument, each
  day is held by exactly as many files of the plan as the instrument was asked for (once, when
  the pairs are distinct) when the day is inside the window, and by none when it is outside.
\<close>

theorem plan_covers_each_day_once:
  assumes "files_for_window pairs t start stop today = Inr fs"
    and "valid_date start" "valid_date stop" "valid_date d"
  shows "length (filter (\<lambda>f. file_pair f = q \<and> covers f d) fs) =
    (if start \<le> d \<and> d \<le> stop then count_list pairs q else 0)"
  using assms by (rule files_cover)

theorem plan_covers_each_day_once_witness:
  "length (filter (\<lambda>f. file_pair f = example_pair \<and> covers f (Date 2024 2 29)) example_plan) = 1"
  using plan_covers_each_day_once [OF example_window example_dates, of example_pair] by simp

text \<open>
  A monthly file is only asked for when the window holds its whole month and the
  month ended at least seven days before today; a daily file only for a day of the window.
\<close>

theorem monthly_only_when_covered_and_published:
  assumes "files_for_window pairs t start stop today = Inr fs"
    and "valid_date start" "valid_date stop" and "f \<in> set fs"
  shows "(case f_granularity f of
      MONTHLY \<Rightarrow> f_dt f = first_of (f_dt f) \<and> f_period f = month_period (f_dt f) \<and>
        start \<le> f_dt f \<and> last_of (f_dt f) \<le> stop \<and>
        (\<exists>n. plus_days (last_of (f_dt f)) 7 = Inr n \<and> n \<le> today)
    | DAILY \<Rightarrow> f_period f = day_period (f_dt f) \<and> start \<le> f_dt f \<and> f_dt f \<le> stop)"
  using plan_members [OF assms] by (auto simp: publication_lag_days_def)

theorem monthly_only_when_covered_and_published_witness:
  "Date 2024 1 30 \<le> Date 2024 2 1 \<and> last_of (Date 2024 2 1) \<le> Date 2024 3 1"
  using monthly_only_when_covered_and_published [OF example_window example_dates(1,2),
    of "monthly_file DEEP example_pair (Date 2024 2 1)"]
  by (simp add: example_plan_def)

text \<open>
  Planning fails only at the end of the calendar: with a window that is not
  empty, the plan exists exactly when the window ends before December 9999 (the successor of
  9999-12-31 overflows) or no instrument is asked for.
\<close>

theorem plan_returns_iff:
  assumes "valid_date start" "valid_date stop" "start \<le> stop"
  shows "(\<exists>fs. files_for_window pairs t start stop today = Inr fs) \<longleftrightarrow> pairs = [] \<or> stop < Date 9999 12 1"
proof -
  have "(\<exists>fs. files_for_window pairs t start stop today = Inr fs) \<longleftrightarrow>
      (\<exists>fss. rmap (pair_files t start stop today) pairs = Inr fss)"
    using assms(3) by (auto simp: files_for_window_def res_simps)
  then show ?thesis
    using pair_files_returns [OF assms] by (simp add: rmap_Inr_exists) (cases pairs, auto)
qed

theorem plan_returns_iff_witness:
  "\<exists>fs. files_for_window [example_pair] HOT (Date 2024 1 30) (Date 2024 3 1) (Date 2024 4 1) = Inr fs"
  using plan_returns_iff [OF example_dates(1,2)] by simp

text \<open>
  The plan is listed instrument by instrument in the order of the days (and is
  therefore the same list whenever it is computed); no two of its files start on the same day
  for the same instrument, so a monthly file and a daily file never collide in the manifest;
  and no two of them are the same object of the archive.
\<close>

theorem plan_ordered_without_collisions:
  assumes "files_for_window pairs t start stop today = Inr fs"
    and "valid_date start" "valid_date stop" "distinct (map snd pairs)"
    and "\<forall>p\<in>set pairs. CHR ''/'' \<notin> set (snd p)"
  shows "sorted (map file_order fs) \<and> distinct (map (\<lambda>f. (file_pair f, f_dt f)) fs) \<and>
    distinct (map archive_key fs)"
proof (intro conjI)
  show "sorted (map file_order fs)"
    using assms(1) by (auto simp: files_for_window_def res_simps split: if_splits)
  have "distinct pairs" using assms(4) by (simp add: distinct_map)
  from plan_day_unique [OF assms(1-3) this]
  show days: "distinct (map (\<lambda>f. (file_pair f, f_dt f)) fs)" .
  have "x = y" if "x \<in> set fs" "y \<in> set fs" "archive_key x = archive_key y" for x y
  proof -
    from plan_members [OF assms(1-3) that(1)] plan_members [OF assms(1-3) that(2)]
    obtain p q d e where x: "p \<in> set pairs" "x = daily_file t p d \<or> (x = monthly_file t p d \<and> first_of d = d)"
      and y: "q \<in> set pairs" "y = daily_file t q e \<or> (y = monthly_file t q e \<and> first_of e = e)"
      by blast
    from x y have "f_tier x = f_tier y" "f_venue_symbol x = snd p" "f_venue_symbol y = snd q" by auto
    with archive_key_inj [OF that(3)] assms(5) x(1) y(1)
    have same: "f_granularity x = f_granularity y \<and> snd p = snd q \<and> f_period x = f_period y" by metis
    then have "p = q" using x(1) y(1) assms(4) by (simp add: distinct_map inj_on_def)
    with same x(2) y(2) show ?thesis
      by (auto simp: day_period_inj dest: month_period_first)
  qed
  moreover have "distinct fs" using days by (simp add: distinct_map)
  ultimately show "distinct (map archive_key fs)" by (simp add: distinct_map inj_on_def)
qed

theorem plan_ordered_without_collisions_witness:
  "sorted (map file_order example_plan) \<and> distinct (map archive_key example_plan)"
  using plan_ordered_without_collisions [OF example_window example_dates(1,2)]
  by (simp add: example_pair_def)

end
