(* ===== verification/Manifest.thy ===== *)
theory Manifest
  imports Tiers Json
begin

text \<open>
  awsnative/backfill/manifest.py: the work items of a backfill run, their outcomes, the flat
  JSON both cross the Lambda boundary as, the staging keys and the plan that leaves out what
  is DONE.
\<close>

fun staging_prefix :: "tier \<Rightarrow> string" where
  "staging_prefix DEEP = ''archive_staging_klines''"
| "staging_prefix HOT = ''archive_staging_trades''"

datatype status = PENDING | RUNNING | DONE | FAILED | SKIPPED_NO_DATA

fun status_str :: "status \<Rightarrow> string" where
  "status_str PENDING = ''PENDING''"
| "status_str RUNNING = ''RUNNING''"
| "status_str DONE = ''DONE''"
| "status_str FAILED = ''FAILED''"
| "status_str SKIPPED_NO_DATA = ''SKIPPED_NO_DATA''"

text \<open>Tier(text) and Granularity(text).\<close>

definition tier_of :: "string \<Rightarrow> tier res" where
  "tier_of s = (if s = ''DEEP'' then Inr DEEP else if s = ''HOT'' then Inr HOT
     else Inl (Exn ValueError (py_repr s @ '' is not a valid Tier'')))"

definition gran_of :: "string \<Rightarrow> granularity res" where
  "gran_of s = (if s = ''monthly'' then Inr MONTHLY else if s = ''daily'' then Inr DAILY
     else Inl (Exn ValueError (py_repr s @ '' is not a valid Granularity'')))"

record work_item =
  w_tier :: tier
  w_venue :: string
  w_instrument_id :: string
  w_venue_symbol :: string
  w_granularity :: granularity
  w_period :: string
  w_dt :: string
  w_archive_key :: string
  w_staging_key :: string

definition item_url :: "work_item \<Rightarrow> string" where
  "item_url w = archive_base_url @ ''/'' @ w_archive_key w"

definition item_checksum_url :: "work_item \<Rightarrow> string" where
  "item_checksum_url w = item_url w @ ''.CHECKSUM''"

definition item_filename :: "work_item \<Rightarrow> string" where
  "item_filename w = after_last (CHR ''/'') (w_archive_key w)"

definition item_to_json :: "work_item \<Rightarrow> (string, string) dict" where
  "item_to_json w =
     [(''tier'', tier_str (w_tier w)), (''venue'', w_venue w), (''instrument_id'', w_instrument_id w),
      (''venue_symbol'', w_venue_symbol w), (''granularity'', gran_str (w_granularity w)),
      (''period'', w_period w), (''dt'', w_dt w), (''archive_key'', w_archive_key w),
      (''staging_key'', w_staging_key w)]"

definition item_from_json :: "(string, string) dict \<Rightarrow> work_item res" where
  "item_from_json d =
     rbind (dict_item d ''tier'') (\<lambda>t0. rbind (tier_of t0) (\<lambda>t.
     rbind (dict_item d ''venue'') (\<lambda>v.
     rbind (dict_item d ''instrument_id'') (\<lambda>i.
     rbind (dict_item d ''venue_symbol'') (\<lambda>s.
     rbind (dict_item d ''granularity'') (\<lambda>g0. rbind (gran_of g0) (\<lambda>g.
     rbind (dict_item d ''period'') (\<lambda>p.
     rbind (dict_item d ''dt'') (\<lambda>dt.
     rbind (dict_item d ''archive_key'') (\<lambda>ak.
     rbind (dict_item d ''staging_key'') (\<lambda>sk.
       Inr \<lparr> w_tier = t, w_venue = v, w_instrument_id = i, w_venue_symbol = s, w_granularity = g,
         w_period = p, w_dt = dt, w_archive_key = ak, w_staging_key = sk \<rparr>)))))))))))"

record outcome =
  oc_archive_key :: string
  oc_status :: status
  oc_sha256_actual :: string
  oc_row_count :: nat
  oc_error :: string

definition outcome_done :: "string \<Rightarrow> string \<Rightarrow> nat \<Rightarrow> outcome" where
  "outcome_done key sha n = \<lparr> oc_archive_key = key, oc_status = DONE, oc_sha256_actual = sha, oc_row_count = n, oc_error = [] \<rparr>"

definition outcome_skipped :: "string \<Rightarrow> string \<Rightarrow> outcome" where
  "outcome_skipped key reason = \<lparr> oc_archive_key = key, oc_status = SKIPPED_NO_DATA, oc_sha256_actual = [],
     oc_row_count = 0, oc_error = reason \<rparr>"

definition outcome_failed :: "string \<Rightarrow> string \<Rightarrow> outcome" where
  "outcome_failed key reason = \<lparr> oc_archive_key = key, oc_status = FAILED, oc_sha256_actual = [],
     oc_row_count = 0, oc_error = reason \<rparr>"

definition outcome_to_json :: "outcome \<Rightarrow> (string, string) dict" where
  "outcome_to_json oc =
     [(''archive_key'', oc_archive_key oc), (''status'', status_str (oc_status oc)),
      (''sha256_actual'', oc_sha256_actual oc), (''row_count'', nat_str (oc_row_count oc)), (''error'', oc_error oc)]"

definition staging_key_for :: "tier \<Rightarrow> string \<Rightarrow> string \<Rightarrow> string" where
  "staging_key_for t instrument_id period = staging_prefix t @ ''/'' @ instrument_id @ ''-'' @ period @ ''.csv.gz''"

text \<open>date.isoformat().\<close>

definition isoformat :: "date \<Rightarrow> string" where
  "isoformat d = pad 4 (dyear d) @ ''-'' @ pad 2 (dmonth d) @ ''-'' @ pad 2 (dday d)"

definition item_of :: "archive_file \<Rightarrow> work_item" where
  "item_of f = \<lparr> w_tier = f_tier f, w_venue = archive_venue, w_instrument_id = f_instrument_id f,
     w_venue_symbol = f_venue_symbol f, w_granularity = f_granularity f, w_period = f_period f,
     w_dt = isoformat (f_dt f), w_archive_key = archive_key f,
     w_staging_key = staging_key_for (f_tier f) (f_instrument_id f) (f_period f) \<rparr>"

definition plan :: "archive_file list \<Rightarrow> string list \<Rightarrow> work_item list" where
  "plan files already_done = map item_of (filter (\<lambda>f. archive_key f \<notin> set already_done) files)"

subsection \<open>Facts\<close>

lemma tier_of_str [simp]: "tier_of (tier_str t) = Inr t"
  by (cases t) (auto simp: tier_of_def)

lemma gran_of_str [simp]: "gran_of (gran_str g) = Inr g"
  by (cases g) (auto simp: gran_of_def)

text \<open>The name of a planned file is the last segment of its key.\<close>

lemma period_no_slash: "CHR ''/'' \<notin> set (month_period d)" "CHR ''/'' \<notin> set (day_period d)"
proof -
  have "CHR ''/'' \<notin> set (nat_str n)" "CHR ''/'' \<notin> set (pad 2 n)" for n
    by (rule nat_str_no_char, simp) (rule pad_no_char, simp)
  then show "CHR ''/'' \<notin> set (month_period d)" "CHR ''/'' \<notin> set (day_period d)"
    by (auto simp: month_period_def day_period_def)
qed

lemma item_filename_of:
  assumes "CHR ''/'' \<notin> set (f_venue_symbol f)" and "CHR ''/'' \<notin> set (f_period f)"
  shows "item_filename (item_of f) = filename f"
proof -
  have no: "CHR ''/'' \<notin> set (filename f)"
    using assms by (cases "f_tier f") (auto simp: filename_def)
  have "archive_key f = (''data/spot/'' @ gran_str (f_granularity f) @ ''/'' @ dataset (layout (f_tier f)) @ ''/''
      @ f_venue_symbol f @ ''/1m'') @ CHR ''/'' # filename f \<or>
    archive_key f = (''data/spot/'' @ gran_str (f_granularity f) @ ''/'' @ dataset (layout (f_tier f)) @ ''/''
      @ f_venue_symbol f) @ CHR ''/'' # filename f"
    by (cases "f_tier f") (simp_all add: archive_key_def)
  then have "\<exists>pre. archive_key f = pre @ CHR ''/'' # filename f" by blast
  then obtain pre where "archive_key f = pre @ CHR ''/'' # filename f" by blast
  then have "after_last (CHR ''/'') (archive_key f) = filename f"
    using after_last_append [OF no, of pre] by (simp only:)
  then show ?thesis by (simp add: item_filename_def item_of_def)
qed

text \<open>A text without digits in front of a period is read back uniquely.\<close>

definition digit_free :: "string \<Rightarrow> bool" where
  "digit_free s \<longleftrightarrow> (\<forall>ch\<in>set s. (of_char ch :: nat) < 48 \<or> 57 < (of_char ch :: nat))"

definition starts_with_digit :: "string \<Rightarrow> bool" where
  "starts_with_digit s \<longleftrightarrow> (\<exists>d cs. d < 10 \<and> s = digit_chr d # cs)"

lemma digit_boundary:
  assumes "digit_free s" "digit_free t" "starts_with_digit x" "starts_with_digit y" and "s @ x = t @ y"
  shows "s = t \<and> x = y"
proof -
  let ?P = "\<lambda>ch. (of_char ch :: nat) < 48 \<or> 57 < (of_char ch :: nat)"
  have "takeWhile ?P (u @ z) = u" if "digit_free u" "starts_with_digit z" for u z
    using that by (auto simp: digit_free_def starts_with_digit_def takeWhile_append of_char_digit_chr)
  with assms have "s = t" by metis
  with assms(5) show ?thesis by simp
qed

lemma period_starts: "starts_with_digit (month_period d @ z)" "starts_with_digit (day_period d @ z)"
proof -
  obtain e cs where "e < 10" "nat_str (dyear d) = digit_chr e # cs" using nat_str_hd by blast
  then show "starts_with_digit (month_period d @ z)" "starts_with_digit (day_period d @ z)"
    by (auto simp: starts_with_digit_def month_period_def day_period_def)
qed

lemma month_not_day: "month_period d \<noteq> day_period e"
proof
  assume "month_period d = day_period e"
  then have "filter (\<lambda>ch. ch = CHR ''-'') (month_period d) = filter (\<lambda>ch. ch = CHR ''-'') (day_period e)" by simp
  moreover have "filter (\<lambda>ch. ch = CHR ''-'') (nat_str n) = []" "filter (\<lambda>ch. ch = CHR ''-'') (pad 2 n) = []" for n
    using nat_str_no_char [of "CHR ''-''" n] pad_no_char [of "CHR ''-''" 2 n] by (auto simp: filter_empty_conv)
  ultimately show False by (simp add: month_period_def day_period_def)
qed

lemma staging_key_inj:
  assumes "staging_key_for t i p = staging_key_for t j q" and "digit_free i" "digit_free j"
    and "starts_with_digit p" "starts_with_digit q"
  shows "i = j \<and> p = q"
proof -
  from assms(1) have "(i @ ''-'') @ p = (j @ ''-'') @ q" by (simp add: staging_key_for_def)
  moreover have "digit_free (i @ ''-'')" "digit_free (j @ ''-'')" using assms(2,3) by (auto simp: digit_free_def)
  ultimately show ?thesis using digit_boundary assms(4,5) by (metis append1_eq_conv)
qed

subsection \<open>Properties\<close>

text \<open>
  A work item survives the Lambda boundary: reading its JSON gives the same item
  back, and the fields the handler puts around it (the bucket, the action, the outcome's) do
  not disturb the reading as long as they come after the item's own.
\<close>

theorem work_item_roundtrip: "item_from_json (item_to_json w @ extra) = Inr w"
  by (simp add: item_from_json_def item_to_json_def dict_item_def)

text \<open>
  A plan resumes: its items are the files whose archive key is not recorded DONE,
  in the order of the files, each under the key, the file name and the URL of its file; when
  everything is DONE the plan is empty.
\<close>

theorem plan_is_what_remains:
  "map w_archive_key (plan files already_done) = filter (\<lambda>k. k \<notin> set already_done) (map archive_key files) \<and>
   map item_url (plan files already_done) = map archive_url (filter (\<lambda>f. archive_key f \<notin> set already_done) files) \<and>
   plan files (map archive_key files) = []"
  by (auto simp: plan_def item_of_def filter_map o_def item_url_def archive_url_def filter_empty_conv)

text \<open>
  No two files of a run are staged under the same key, so no worker of the map
  overwrites another's rows: for instruments with distinct ids without digits, the staging keys
  of a planned window are pairwise distinct.
\<close>

theorem staging_keys_distinct:
  assumes "files_for_window pairs t start stop today = Inr fs"
    and "valid_date start" "valid_date stop" "distinct (map fst pairs)"
    and "\<forall>p\<in>set pairs. digit_free (fst p)"
  shows "distinct (map w_staging_key (plan fs already_done))"
proof -
  have "distinct pairs" using assms(4) by (simp add: distinct_map)
  from plan_day_unique [OF assms(1-3) this]
  have days: "distinct (map (\<lambda>f. (file_pair f, f_dt f)) fs)" .
  have inj: "x = y" if "x \<in> set fs" "y \<in> set fs" "w_staging_key (item_of x) = w_staging_key (item_of y)" for x y
  proof -
    from plan_members [OF assms(1-3) that(1)] plan_members [OF assms(1-3) that(2)]
    obtain p q d e where x: "p \<in> set pairs" "x = daily_file t p d \<or> (x = monthly_file t p d \<and> first_of d = d)"
      and y: "q \<in> set pairs" "y = daily_file t q e \<or> (y = monthly_file t q e \<and> first_of e = e)"
      by blast
    have i: "f_instrument_id x = fst p" "f_instrument_id y = fst q" "f_tier x = t" "f_tier y = t"
      using x y by (auto simp: daily_file_def monthly_file_def)
    have s: "starts_with_digit (f_period x)" "starts_with_digit (f_period y)"
      using x y period_starts [of _ "[]"] by auto
    have "fst p = fst q \<and> f_period x = f_period y"
      using staging_key_inj [of t "fst p" "f_period x" "fst q" "f_period y"] that(3) assms(5) x(1) y(1) s
      by (simp add: item_of_def i)
    moreover from this have "p = q" using x(1) y(1) assms(4) by (simp add: distinct_map inj_on_def)
    ultimately show ?thesis
      using x(2) y(2) month_not_day month_not_day [symmetric]
      by (auto simp: day_period_inj dest: month_period_first)
  qed
  have "distinct fs" using days by (simp add: distinct_map)
  then have "distinct (map (w_staging_key \<circ> item_of) fs)"
    using inj by (simp add: distinct_map inj_on_def)
  then have "distinct (map (w_staging_key \<circ> item_of) (filter (\<lambda>f. archive_key f \<notin> set already_done) fs))"
    by (rule distinct_map_filter)
  then show ?thesis by (simp add: plan_def o_def)
qed

theorem staging_keys_distinct_witness:
  "distinct (map w_staging_key (plan example_plan []))"
  by (rule staging_keys_distinct [OF example_window example_dates(1,2)])
    (simp_all add: example_pair_def digit_free_def)

end
