(* ===== verification/Athena.thy ===== *)
theory Athena
  imports Prelude Complex_Main
begin

text \<open>
  awsnative/athena.py: the statement splitter and the synchronous client. The boto3 client is
  the record athena_client: the answer to start_query_execution, the status the k-th
  get_query_execution of a run reports, and the rows of get_query_results. Waiting is counted
  in exact rationals. The polling loop is a partial function, None where it never returns.
\<close>

subsection \<open>Splitting statements\<close>

definition quote_chr :: char where "quote_chr = char_of (39::nat)"

definition newline :: char where "newline = char_of (10::nat)"

text \<open>The loop: statements and current (reversed), the two flags, the characters left.\<close>

fun split_loop :: "string list \<Rightarrow> string \<Rightarrow> bool \<Rightarrow> bool \<Rightarrow> string \<Rightarrow> string list" where
  "split_loop acc cur in_quote in_comment [] = rev (rev cur # acc)"
| "split_loop acc cur in_quote in_comment (ch # rest) =
     (if in_comment then
        (if ch = newline then split_loop acc (ch # cur) in_quote False rest
         else split_loop acc cur in_quote True rest)
      else if in_quote then
        (if ch = quote_chr then split_loop acc (ch # cur) False in_comment rest
         else split_loop acc (ch # cur) True in_comment rest)
      else if ch = quote_chr then split_loop acc (ch # cur) True in_comment rest
      else if ch = CHR ''-'' \<and> take 1 rest = ''-'' then split_loop acc cur in_quote True rest
      else if ch = CHR '';'' then split_loop (rev cur # acc) [] in_quote in_comment rest
      else split_loop acc (ch # cur) in_quote in_comment rest)"

definition split_statements :: "string \<Rightarrow> string list" where
  "split_statements text = filter (\<lambda>s. s \<noteq> []) (map strip (split_loop [] [] False False text))"

subsection \<open>Running a query\<close>

record exec_status =
  x_state :: string
  x_scanned :: "int option"
  x_elapsed :: "int option"
  x_reason :: "string option"

record athena_client =
  c_start :: "string \<Rightarrow> string \<Rightarrow> string \<Rightarrow> string res"
  c_status :: "string \<Rightarrow> nat \<Rightarrow> exec_status res"
  c_results :: "string \<Rightarrow> int \<Rightarrow> string option list list res"

record athena =
  a_database :: string
  a_workgroup :: string
  a_client :: athena_client
  a_poll_interval :: rat
  a_timeout :: rat

record query_outcome =
  o_query_id :: string
  o_state :: string
  o_scanned_bytes :: int
  o_elapsed_ms :: int
  o_reason :: "string option"

definition outcome_ok :: "query_outcome \<Rightarrow> bool" where
  "outcome_ok q \<longleftrightarrow> o_state q = ''SUCCEEDED''"

definition terminal :: "string \<Rightarrow> bool" where
  "terminal s \<longleftrightarrow> s \<in> {''SUCCEEDED'', ''FAILED'', ''CANCELLED''}"

definition or_zero :: "int option \<Rightarrow> int" where
  "or_zero x = (case x of Some i \<Rightarrow> i | None \<Rightarrow> 0)"

text \<open>The format spec .0f of a timeout: rounded half to even, as an integer.\<close>

definition round_even :: "rat \<Rightarrow> int" where
  "round_even q = (let f = \<lfloor>q\<rfloor>; r = q - of_int f in
     if r < 1 / 2 then f else if 1 / 2 < r then f + 1 else if even f then f else f + 1)"

definition still_running :: "string \<Rightarrow> string \<Rightarrow> rat \<Rightarrow> exn" where
  "still_running qid state timeout = Exn AthenaError (''query '' @ qid @ '' still '' @ state
     @ '' after '' @ int_str (round_even timeout) @ ''s'')"

text \<open>The loop: k polls made, the time waited; the number of sleeps is returned beside the result.\<close>

partial_function (option) poll_loop :: "athena \<Rightarrow> string \<Rightarrow> nat \<Rightarrow> rat \<Rightarrow> (nat \<times> query_outcome res) option" where
  "poll_loop a qid k waited = (case c_status (a_client a) qid k of
     Inl e \<Rightarrow> Some (k, Inl e)
   | Inr x \<Rightarrow>
       if terminal (x_state x)
       then Some (k, Inr \<lparr> o_query_id = qid, o_state = x_state x, o_scanned_bytes = or_zero (x_scanned x),
         o_elapsed_ms = or_zero (x_elapsed x), o_reason = x_reason x \<rparr>)
       else if a_timeout a \<le> waited then Some (k, Inl (still_running qid (x_state x) (a_timeout a)))
       else poll_loop a qid (Suc k) (waited + a_poll_interval a))"

definition query_text :: "string \<Rightarrow> string" where
  "query_text sql = rstrip (\<lambda>ch. ch = CHR '';'') (rstrip is_space sql)"

definition start_and_wait :: "athena \<Rightarrow> string \<Rightarrow> (nat \<times> query_outcome res) option" where
  "start_and_wait a sql = (case c_start (a_client a) (query_text sql) (a_database a) (a_workgroup a) of
     Inl e \<Rightarrow> Some (0, Inl e)
   | Inr qid \<Rightarrow> poll_loop a qid 0 0)"

definition opt_str :: "string option \<Rightarrow> string" where
  "opt_str x = (case x of Some s \<Rightarrow> s | None \<Rightarrow> ''None'')"

definition execute :: "athena \<Rightarrow> string \<Rightarrow> query_outcome res option" where
  "execute a sql = map_option (\<lambda>(k, r). rbind r (\<lambda>q. if outcome_ok q then Inr q
     else Inl (Exn AthenaError (''query '' @ o_query_id q @ '' ended '' @ o_state q @ '': '' @ opt_str (o_reason q)))))
     (start_and_wait a sql)"

text \<open>The first page of results; a cell without a value is the empty text.\<close>

definition cell_text :: "string option \<Rightarrow> string" where
  "cell_text x = (case x of Some s \<Rightarrow> s | None \<Rightarrow> [])"

definition row_dict :: "string list \<Rightarrow> string list \<Rightarrow> (string, string) dict" where
  "row_dict header cells = foldl (\<lambda>d kv. dict_set (fst kv) (snd kv) d) [] (zip header cells)"

definition fetch_rows :: "athena \<Rightarrow> string \<Rightarrow> int \<Rightarrow> (string, string) dict list res" where
  "fetch_rows a qid max_rows =
     rbind (c_results (a_client a) qid (min (max_rows + 1) 1000)) (\<lambda>rows. case rows of
       [] \<Rightarrow> Inr []
     | h # rs \<Rightarrow> Inr (map (\<lambda>r. row_dict (map cell_text h) (map cell_text r)) rs))"

subsection \<open>The polling loop ends\<close>

lemma poll_loop_returns:
  assumes "0 < a_poll_interval a"
  shows "waited = of_nat k * a_poll_interval a \<Longrightarrow> \<exists>n r. poll_loop a qid k waited = Some (n, r) \<and>
    k \<le> n \<and> (n = k \<or> of_nat (n - 1) * a_poll_interval a < a_timeout a) \<and>
    (\<forall>q. r = Inr q \<longrightarrow> terminal (o_state q))"
proof (induction "nat \<lceil>(a_timeout a - waited) / a_poll_interval a\<rceil>" arbitrary: k waited rule: less_induct)
  case less
  show ?case
  proof (cases "\<exists>x. c_status (a_client a) qid k = Inr x \<and> \<not> terminal (x_state x) \<and> waited < a_timeout a")
    case False
    then show ?thesis by (subst poll_loop.simps) (auto split: sum.splits)
  next
    case True
    then have step: "poll_loop a qid k waited = poll_loop a qid (Suc k) (waited + a_poll_interval a)"
      and lt: "waited < a_timeout a"
      by (subst poll_loop.simps, auto)
    let ?d = "(a_timeout a - waited) / a_poll_interval a"
    have "0 < ?d" using lt assms by simp
    then have "\<lceil>?d - 1\<rceil> < \<lceil>?d\<rceil>" "0 < \<lceil>?d\<rceil>" by simp_all
    moreover have "(a_timeout a - (waited + a_poll_interval a)) / a_poll_interval a = ?d - 1"
      using assms by (simp add: field_simps)
    ultimately have "nat \<lceil>(a_timeout a - (waited + a_poll_interval a)) / a_poll_interval a\<rceil> < nat \<lceil>?d\<rceil>" by simp
    moreover have "waited + a_poll_interval a = of_nat (Suc k) * a_poll_interval a"
      using less.prems by (simp add: field_simps)
    ultimately obtain n r where n: "poll_loop a qid (Suc k) (waited + a_poll_interval a) = Some (n, r)" "Suc k \<le> n"
      "n = Suc k \<or> of_nat (n - 1) * a_poll_interval a < a_timeout a" "\<forall>q. r = Inr q \<longrightarrow> terminal (o_state q)"
      using less.hyps by blast
    with step lt less.prems show ?thesis by auto
  qed
qed

subsection \<open>A SQL file as its author reads it\<close>

text \<open>
  The pieces of a statement: an ordinary character, a quoted literal, a comment up to the end
  of its line, a single dash with the character after it. The text of a piece, and what is
  sent of it.
\<close>

datatype piece = Plain char | Quoted string | Comment string | Dash char

definition plain_chr :: "char \<Rightarrow> bool" where
  "plain_chr ch \<longleftrightarrow> ch \<noteq> quote_chr \<and> ch \<noteq> CHR '';'' \<and> ch \<noteq> CHR ''-''"

fun piece_ok :: "piece \<Rightarrow> bool" where
  "piece_ok (Plain ch) = plain_chr ch"
| "piece_ok (Quoted s) = (quote_chr \<notin> set s)"
| "piece_ok (Comment s) = (newline \<notin> set s)"
| "piece_ok (Dash ch) = plain_chr ch"

fun piece_text :: "piece \<Rightarrow> string" where
  "piece_text (Plain ch) = [ch]"
| "piece_text (Quoted s) = quote_chr # s @ [quote_chr]"
| "piece_text (Comment s) = ''--'' @ s @ [newline]"
| "piece_text (Dash ch) = [CHR ''-'', ch]"

fun piece_sent :: "piece \<Rightarrow> string" where
  "piece_sent (Plain ch) = [ch]"
| "piece_sent (Quoted s) = quote_chr # s @ [quote_chr]"
| "piece_sent (Comment s) = [newline]"
| "piece_sent (Dash ch) = [CHR ''-'', ch]"

definition statement_text :: "piece list \<Rightarrow> string" where
  "statement_text ps = concat (map piece_text ps)"

definition statement_sent :: "piece list \<Rightarrow> string" where
  "statement_sent ps = strip (concat (map piece_sent ps))"

lemma split_loop_quoted:
  "quote_chr \<notin> set s \<Longrightarrow> split_loop acc cur True False (s @ quote_chr # rest) =
     split_loop acc (quote_chr # rev s @ cur) False False rest"
  by (induction s arbitrary: cur) auto

lemma split_loop_comment:
  "newline \<notin> set s \<Longrightarrow> split_loop acc cur False True (s @ newline # rest) =
     split_loop acc (newline # cur) False False rest"
  by (induction s) auto

lemma quote_neq: "quote_chr \<noteq> CHR '';''" "quote_chr \<noteq> CHR ''-''" "newline \<noteq> CHR ''-''" "CHR ''-'' \<noteq> newline"
  by (simp_all add: quote_chr_def newline_def char_of_def)

lemma split_loop_piece:
  "piece_ok p \<Longrightarrow> split_loop acc cur False False (piece_text p @ rest) =
     split_loop acc (rev (piece_sent p) @ cur) False False rest"
  using quote_neq by (cases p) (auto simp: plain_chr_def split_loop_quoted split_loop_comment)

lemma split_loop_statement:
  "\<forall>p\<in>set ps. piece_ok p \<Longrightarrow> split_loop acc cur False False (statement_text ps @ rest) =
     split_loop acc (rev (concat (map piece_sent ps)) @ cur) False False rest"
  by (induction ps arbitrary: cur) (auto simp: statement_text_def split_loop_piece)

lemma split_loop_file:
  "pss \<noteq> [] \<Longrightarrow> \<forall>ps\<in>set pss. \<forall>p\<in>set ps. piece_ok p \<Longrightarrow>
   split_loop acc [] False False (join '';'' (map statement_text pss)) =
     rev acc @ map (\<lambda>ps. concat (map piece_sent ps)) pss"
proof (induction pss arbitrary: acc)
  case (Cons ps pss)
  show ?case
  proof (cases "pss = []")
    case True
    with Cons.prems split_loop_statement [of ps acc "[]" "[]"] show ?thesis by simp
  next
    case False
    then have "join '';'' (map statement_text (ps # pss)) =
        statement_text ps @ CHR '';'' # join '';'' (map statement_text pss)"
      by (simp add: join_cons)
    with Cons.prems Cons.IH [OF False] split_loop_statement [of ps acc "[]"] quote_neq show ?thesis
      by (simp add: quote_neq [symmetric])
  qed
qed simp

text \<open>A client whose queries never end, and one with a long result.\<close>

definition running_athena :: athena where
  "running_athena = \<lparr> a_database = ''d'', a_workgroup = ''w'',
     a_client = \<lparr> c_start = (\<lambda>q d w. Inr ''id''), c_status = (\<lambda>i k. Inr \<lparr> x_state = ''RUNNING'', x_scanned = None,
       x_elapsed = None, x_reason = None \<rparr>), c_results = (\<lambda>i n. Inr []) \<rparr>,
     a_poll_interval = 2, a_timeout = 900 \<rparr>"

definition paged_athena :: athena where
  "paged_athena = running_athena\<lparr> a_client := (a_client running_athena)\<lparr> c_results :=
     (\<lambda>i n. Inr (take (nat n) ([Some ''archive_key''] # replicate 5840 [Some ''k'']))) \<rparr> \<rparr>"

text \<open>A client whose queries succeed at once and whose manifest has 5840 DONE files.\<close>

definition finished_athena :: athena where
  "finished_athena = paged_athena\<lparr> a_client := (a_client paged_athena)\<lparr> c_status :=
     (\<lambda>i k. Inr \<lparr> x_state = ''SUCCEEDED'', x_scanned = None, x_elapsed = None, x_reason = None \<rparr>) \<rparr> \<rparr>"


lemma finished_execute: "execute finished_athena sql = Some (Inr \<lparr> o_query_id = ''id'', o_state = ''SUCCEEDED'',
    o_scanned_bytes = 0, o_elapsed_ms = 0, o_reason = None \<rparr>)"
  by (simp add: execute_def start_and_wait_def poll_loop.simps finished_athena_def paged_athena_def running_athena_def
      terminal_def or_zero_def outcome_ok_def)

lemma finished_fetch: "\<exists>rows. fetch_rows finished_athena qid n = Inr rows"
  by (auto simp: fetch_rows_def finished_athena_def paged_athena_def split: list.splits)

lemma fetched_rows_bound:
  assumes "\<forall>qid n rows. c_results (a_client a) qid n = Inr rows \<longrightarrow> int (length rows) \<le> max n 0"
    and "fetch_rows a qid max_rows = Inr rows"
  shows "length rows \<le> 999 \<and> (0 \<le> max_rows \<longrightarrow> int (length rows) \<le> max_rows)"
proof -
  obtain page where res: "c_results (a_client a) qid (min (max_rows + 1) 1000) = Inr page"
    and rest: "(case page of [] \<Rightarrow> Inr [] | h # rs \<Rightarrow> Inr (map (\<lambda>r. row_dict (map cell_text h) (map cell_text r)) rs)) = (Inr rows :: (string, string) dict list res)"
    using assms(2) [unfolded fetch_rows_def rbind_Inr_iff] by (elim exE conjE) (rule that)
  have "length rows = length page - 1"
  proof (cases page)
    case (Cons h rs)
    with rest have "map (\<lambda>r. row_dict (map cell_text h) (map cell_text r)) rs = rows"
      by (simp only: list.case sum.inject)
    then have "length rows = length rs" by (rule subst) simp
    with Cons show ?thesis by simp
  qed (use rest in simp)
  with res have page: "c_results (a_client a) qid (min (max_rows + 1) 1000) = Inr page"
    "length rows = length page - 1" by simp_all
  with assms(1) have "int (length page) \<le> max (min (max_rows + 1) 1000) 0" by blast
  with page(2) show ?thesis by (auto simp: max_def min_def split: if_splits)
qed

lemma execute_total:
  assumes "0 < a_poll_interval a"
  shows "\<exists>r. execute a sql = Some r \<and> (\<forall>q. r = Inr q \<longrightarrow> o_state q = ''SUCCEEDED'')"
proof -
  obtain n r where "start_and_wait a sql = Some (n, r)"
  proof (cases "c_start (a_client a) (query_text sql) (a_database a) (a_workgroup a)")
    case (Inl e)
    then show thesis by (intro that) (simp add: start_and_wait_def)
  next
    case (Inr qid)
    with poll_loop_returns [OF assms, of 0 0 qid] show thesis by (auto simp: start_and_wait_def intro: that)
  qed
  then show ?thesis by (auto simp: execute_def res_simps outcome_ok_def split: if_splits)
qed

subsection \<open>Properties\<close>

text \<open>
  Property C19. A SQL file is split where its author ended a statement and nowhere else:
  whatever semicolons and dashes the quoted literals and the comments hold, the statements
  sent are those written, in order, each stripped, with every comment reduced to its line end;
  empty ones are left out.
\<close>

theorem split_statements_respects_quotes_and_comments:
  assumes "\<forall>ps\<in>set pss. \<forall>p\<in>set ps. piece_ok p"
  shows "split_statements (join '';'' (map statement_text pss)) = filter (\<lambda>s. s \<noteq> []) (map statement_sent pss)"
proof (cases "pss = []")
  case False
  with split_loop_file [OF False assms, of "[]"] show ?thesis
    by (simp add: split_statements_def statement_sent_def [abs_def] o_def)
qed (simp add: split_statements_def)

theorem split_statements_respects_quotes_and_comments_witness:
  "split_statements (statement_text [Plain (CHR ''A''), Comment ''x;y'', Quoted '';--'', Plain (CHR ''B'')]) =
     [statement_sent [Plain (CHR ''A''), Comment ''x;y'', Quoted '';--'', Plain (CHR ''B'')]]"
proof -
  have ok: "\<forall>ps\<in>set [[Plain (CHR ''A''), Comment ''x;y'', Quoted '';--'', Plain (CHR ''B'')]]. \<forall>p\<in>set ps. piece_ok p"
    by (simp add: plain_chr_def quote_chr_def newline_def char_of_def)
  have "statement_sent [Plain (CHR ''A''), Comment ''x;y'', Quoted '';--'', Plain (CHR ''B'')] \<noteq> []"
    by (simp add: statement_sent_def strip_def rstrip_def is_space_def Let_def)
  with split_statements_respects_quotes_and_comments [OF ok] show ?thesis by simp
qed

text \<open>
  Waiting for a query always ends: with a positive poll interval start_and_wait
  returns after a bounded number of sleeps (the last one begins before the timeout has
  passed), and it reports an outcome only in a terminal state.
\<close>

theorem query_wait_terminates:
  assumes "0 < a_poll_interval a"
  shows "\<exists>n r. start_and_wait a sql = Some (n, r) \<and>
    (n = 0 \<or> of_nat (n - 1) * a_poll_interval a < a_timeout a) \<and>
    (\<forall>q. r = Inr q \<longrightarrow> o_state q \<in> {''SUCCEEDED'', ''FAILED'', ''CANCELLED''})"
proof (cases "c_start (a_client a) (query_text sql) (a_database a) (a_workgroup a)")
  case (Inl e)
  then show ?thesis by (simp add: start_and_wait_def)
next
  case (Inr qid)
  with poll_loop_returns [OF assms, of 0 0 qid] show ?thesis by (auto simp: start_and_wait_def terminal_def)
qed

theorem query_wait_terminates_witness: "\<exists>n r. start_and_wait running_athena ''SELECT 1'' = Some (n, r)"
  using query_wait_terminates [of running_athena "''SELECT 1''"] by (auto simp: running_athena_def)

text \<open>
  execute never passes a failed query off as a result: with a positive poll
  interval it returns, and it returns an outcome only for a query that succeeded; every other
  end is an exception.
\<close>

theorem execute_only_succeeds:
  assumes "0 < a_poll_interval a"
  shows "\<exists>r. execute a sql = Some r \<and> (\<forall>q. r = Inr q \<longrightarrow> o_state q = ''SUCCEEDED'')"
  using assms by (rule execute_total)

theorem execute_only_succeeds_witness: "\<exists>r. execute running_athena ''SELECT 1'' = Some r"
  using execute_only_succeeds [of running_athena "''SELECT 1''"] by (auto simp: running_athena_def)

text \<open>
  A page of results is one row short of what the caller asked for at the limit:
  the header takes one of at most 1000 rows, so fetch_rows never returns more than 999 rows
  however many the caller allows.
\<close>

theorem fetch_rows_at_most_999:
  assumes "\<forall>qid n rows. c_results (a_client a) qid n = Inr rows \<longrightarrow> int (length rows) \<le> max n 0"
    and "fetch_rows a qid max_rows = Inr rows"
  shows "length rows \<le> 999 \<and> (0 \<le> max_rows \<longrightarrow> int (length rows) \<le> max_rows)"
  using assms by (rule fetched_rows_bound)

theorem fetch_rows_at_most_999_witness:
  "\<exists>rows. fetch_rows paged_athena ''id'' 1000 = Inr rows \<and> length rows \<le> 999"
proof -
  have page: "\<forall>qid n rows. c_results (a_client paged_athena) qid n = Inr rows \<longrightarrow> int (length rows) \<le> max n 0"
    by (auto simp: paged_athena_def)
  obtain rows where rows: "fetch_rows paged_athena ''id'' 1000 = Inr rows"
    by (cases "fetch_rows paged_athena ''id'' 1000")
      (auto simp: fetch_rows_def paged_athena_def res_simps split: list.splits)
  from fetch_rows_at_most_999 [OF page rows] rows show ?thesis by blast
qed

end
