(* ===== verification/Seed.thy ===== *)
theory Seed
  imports Manifest Athena Instruments
begin

text \<open>
  awsnative/backfill/seed.py: the work list of a run as JSON Lines, the query for what is DONE
  and the main program. Its parameters: the parsed command line, date.fromisoformat, today,
  the instrument map read from the universe file, and the Athena client. A run answers its exit
  code, the object it puts to S3 if any, and the number of DONE keys it saw.
\<close>

definition items_key :: "tier \<Rightarrow> string" where
  "items_key t = ''_backfill/items/'' @ lower (tier_str t) @ ''.jsonl''"

definition to_jsonl :: "work_item list \<Rightarrow> string" where
  "to_jsonl items = concat (map (\<lambda>w. dumps (str_obj (item_to_json w)) @ [newline]) items)"

definition done_keys :: "(string, string) dict list \<Rightarrow> string list" where
  "done_keys rows = concat (map (\<lambda>row. case map_of row ''archive_key'' of
     Some k \<Rightarrow> if k \<noteq> [] then [k] else [] | None \<Rightarrow> []) rows)"

definition done_keys_sql :: "string \<Rightarrow> tier \<Rightarrow> string" where
  "done_keys_sql database t = ''SELECT archive_key FROM '' @ database @ ''.backfill_manifest WHERE tier = ''
     @ [quote_chr] @ tier_str t @ [quote_chr] @ '' AND status = '' @ [quote_chr] @ ''DONE'' @ [quote_chr]"

definition instrument_pairs :: "instrument_map \<Rightarrow> (string \<times> string) list res" where
  "instrument_pairs m = rmap (\<lambda>symbol. rbind (canonical m archive_venue symbol) (\<lambda>i. Inr (i, symbol)))
     (symbols_for m archive_venue)"

record seed_args =
  g_tier :: tier
  g_start :: string
  g_end :: string
  g_bucket :: string
  g_fresh :: bool
  g_dry_run :: bool

record seed_result =
  sr_code :: int
  sr_put :: "(string \<times> string \<times> string) option"
  sr_planned :: "work_item list"

definition planned :: "int \<Rightarrow> (string \<times> string \<times> string) option \<Rightarrow> work_item list \<Rightarrow> seed_result" where
  "planned code put items = \<lparr> sr_code = code, sr_put = put, sr_planned = items \<rparr>"

text \<open>What is DONE already: one query, one page of at most 1000 rows. None: the query never ends.\<close>

definition already_done :: "athena \<Rightarrow> tier \<Rightarrow> string list res option" where
  "already_done a t = map_option (\<lambda>r. rbind r (\<lambda>q.
     rbind (fetch_rows a (o_query_id q) 1000) (\<lambda>rows. Inr (done_keys rows))))
     (execute a (done_keys_sql (a_database a) t))"

definition seed_main :: "(string \<Rightarrow> date res) \<Rightarrow> date \<Rightarrow> instrument_map \<Rightarrow> athena \<Rightarrow> seed_args \<Rightarrow> seed_result res option" where
  "seed_main parse_date today m a g =
     (case rbind (parse_date (g_start g)) (\<lambda>start. rbind (parse_date (g_end g)) (\<lambda>stop. Inr (start, stop))) of
        Inl e \<Rightarrow> Some (Inl e)
      | Inr (start, stop) \<Rightarrow>
          if stop < start then Some (Inr (planned 2 None []))
          else (case rbind (instrument_pairs m) (\<lambda>pairs. files_for_window pairs (g_tier g) start stop today) of
              Inl e \<Rightarrow> Some (Inl e)
            | Inr files \<Rightarrow>
                if g_dry_run g then Some (Inr (planned 0 None (plan files [])))
                else map_option (\<lambda>r. rbind r (\<lambda>already.
                    let items = plan files already in
                    if items = [] then Inr (planned 0 None [])
                    else Inr (planned 0 (Some (g_bucket g, items_key (g_tier g), to_jsonl items)) items)))
                  (if g_fresh g then Some (Inr []) else already_done a (g_tier g))))"

subsection \<open>Facts\<close>

lemma canonical_universe:
  "rmap (\<lambda>symbol. rbind (canonical (from_yaml doc) v symbol) (\<lambda>i. Inr (i, symbol))) (symbols_for (from_yaml doc) v) = Inr ps \<Longrightarrow>
   map snd ps = symbols_for (from_yaml doc) v \<and> (\<forall>(i, s)\<in>set ps. canonical (from_yaml doc) v s = Inr i)"
proof -
  have "list_all2 (\<lambda>symbol p. rbind (canonical m v symbol) (\<lambda>i. Inr (i, symbol)) = Inr p) xs ps \<Longrightarrow>
    map snd ps = xs \<and> (\<forall>(i, s)\<in>set ps. canonical m v s = Inr i)" for m xs ps
    by (induction rule: list_all2_induct) (auto simp: res_simps)
  then show "rmap (\<lambda>symbol. rbind (canonical (from_yaml doc) v symbol) (\<lambda>i. Inr (i, symbol))) (symbols_for (from_yaml doc) v) = Inr ps \<Longrightarrow>
      map snd ps = symbols_for (from_yaml doc) v \<and> (\<forall>(i, s)\<in>set ps. canonical (from_yaml doc) v s = Inr i)"
    by (simp add: rmap_Inr_iff)
qed

lemma instrument_pairs_total: "\<exists>ps. instrument_pairs (from_yaml doc) = Inr ps"
  unfolding instrument_pairs_def rmap_Inr_exists
  using symbols_for_mapped by (fastforce simp: res_simps)

lemma length_done_keys: "length (done_keys rows) \<le> length rows"
  by (induction rows) (auto simp: done_keys_def split: option.splits)

lemma quote_no_newline: "newline \<notin> set (json_quote s)"
proof -
  have n: "of_char newline = (10::nat)" by (simp add: newline_def)
  have "newline \<noteq> char_of (34::nat)"
  proof
    assume "newline = char_of (34::nat)"
    then have "(of_char newline :: nat) = of_char (char_of (34::nat) :: char)" by (rule arg_cong)
    also have "\<dots> = 34" by simp
    finally show False using n by simp
  qed
  with json_chr_no_newline [OF n] show ?thesis by (auto simp: json_quote_def)
qed

lemma newline_neq [simp]: "newline \<noteq> CHR ''{''" "newline \<noteq> CHR ''}''" "newline \<noteq> CHR '',''" "newline \<noteq> CHR '':''"
  by (simp_all add: newline_def char_of_def)

lemma str_obj_no_newline: "newline \<notin> set (dumps (str_obj d))"
proof -
  have "newline \<notin> set (join '','' ps)" if "\<forall>p\<in>set ps. newline \<notin> set p" for ps
    using that
  proof (induction ps)
    case (Cons p ps)
    then show ?case by (cases ps) auto
  qed simp
  then show ?thesis
    by (auto simp: str_obj_def quote_no_newline)
qed

lemma finished_done: "\<exists>already. already_done finished_athena HOT = Some (Inr already)"
proof -
  have "\<exists>rows. fetch_rows finished_athena ''id'' 1000 = Inr rows"
    by (rule finished_fetch)
  then show ?thesis by (auto simp: already_done_def finished_execute)
qed

definition example_args :: seed_args where
  "example_args = \<lparr> g_tier = DEEP, g_start = ''s'', g_end = ''e'', g_bucket = ''lake'', g_fresh = True, g_dry_run = False \<rparr>"

definition example_dates_of :: "string \<Rightarrow> date res" where
  "example_dates_of s = (if s = ''s'' then Inr (Date 2024 1 30) else Inr (Date 2024 3 1))"

lemma example_pairs: "instrument_pairs (from_yaml [universe_row ''BTC-USD'' ''BTCUSDT'' ''BTC-USD'']) = Inr [example_pair]"
  by (simp add: instrument_pairs_def from_yaml_def add_entry_def add_symbol_def universe_row_def symbols_for_def
      canonical_def archive_venue_def example_pair_def)

lemma example_seed: "\<exists>r obj. seed_main example_dates_of (Date 2024 4 1)
    (from_yaml [universe_row ''BTC-USD'' ''BTCUSDT'' ''BTC-USD'']) finished_athena example_args = Some (Inr r) \<and> sr_put r = Some obj"
  by (simp add: seed_main_def example_args_def example_dates_of_def example_pairs
      example_window [simplified] Let_def planned_def)
    (simp add: plan_def example_plan_def)

subsection \<open>Properties\<close>

text \<open>
  The work list is well-formed JSON Lines: splitting it at newlines gives one
  document per planned item, in the order of the plan, with nothing after the last newline,
  whatever characters the fields hold.
\<close>

theorem work_list_is_json_lines:
  "split_on newline (to_jsonl items) = map (\<lambda>w. dumps (str_obj (item_to_json w))) items @ [[]]"
proof (induction items)
  case (Cons w items)
  then show ?case using str_obj_no_newline by (simp add: to_jsonl_def split_on_append_sep)
qed (simp add: to_jsonl_def)

text \<open>
  Whatever the run puts to S3 is the plan: a run that writes something exits with
  0 and writes, under the tier's key of the bucket, the work list of a plan that is not empty;
  a dry run or a window that ends before it starts writes nothing.
\<close>

theorem seed_writes_the_plan:
  assumes "seed_main parse_date today m a g = Some (Inr r)" and "sr_put r = Some obj"
  shows "sr_code r = 0 \<and> \<not> g_dry_run g \<and> sr_planned r \<noteq> [] \<and>
    obj = (g_bucket g, items_key (g_tier g), to_jsonl (sr_planned r)) \<and>
    (\<exists>start stop pairs files already. parse_date (g_start g) = Inr start \<and> parse_date (g_end g) = Inr stop \<and>
       start \<le> stop \<and> instrument_pairs m = Inr pairs \<and>
       files_for_window pairs (g_tier g) start stop today = Inr files \<and> sr_planned r = plan files already)"
  using assms
  by (auto simp: seed_main_def planned_def res_simps Let_def not_less
      split: sum.splits if_splits prod.splits)

theorem seed_writes_the_plan_witness:
  "\<exists>r. seed_main example_dates_of (Date 2024 4 1) (from_yaml [universe_row ''BTC-USD'' ''BTCUSDT'' ''BTC-USD''])
     finished_athena example_args = Some (Inr r) \<and> sr_code r = 0 \<and> sr_planned r \<noteq> []"
  using example_seed seed_writes_the_plan by blast

text \<open>
  Property C38. Resumption forgets work: the query for DONE keys is read as one page of at most
  1000 rows, the header included, so a run sees at most 999 DONE keys, and with more files than
  that recorded DONE in the window, files that are DONE are planned and fetched again.
\<close>

theorem resume_sees_at_most_999_done:
  assumes "\<forall>qid n rows. c_results (a_client a) qid n = Inr rows \<longrightarrow> int (length rows) \<le> max n 0"
    and "already_done a t = Some (Inr already)" and "distinct (map archive_key files)"
  shows "length already \<le> 999 \<and> length (plan files already) \<ge> length files - 999"
proof -
  obtain q :: query_outcome and rows where rows: "fetch_rows a (o_query_id q) 1000 = Inr rows" "already = done_keys rows"
    using assms(2) by (auto simp: already_done_def res_simps)
  have "length rows \<le> 999" using fetched_rows_bound [OF assms(1) rows(1)] by simp
  then have n: "length already \<le> 999" using length_done_keys [of rows] rows(2) by simp
  have "length files - length (filter (\<lambda>f. archive_key f \<in> set already) files) = length (plan files already)"
    using sum_length_filter_compl [of "\<lambda>f. archive_key f \<in> set already" files] by (simp add: plan_def)
  moreover have "length (filter (\<lambda>f. archive_key f \<in> set already) files) \<le> length already"
  proof -
    have "distinct (map archive_key (filter (\<lambda>f. archive_key f \<in> set already) files))"
      using assms(3) by (rule distinct_map_filter)
    then have "length (filter (\<lambda>f. archive_key f \<in> set already) files) =
        card (set (map archive_key (filter (\<lambda>f. archive_key f \<in> set already) files)))"
      by (metis distinct_card length_map)
    also have "\<dots> \<le> card (set already)" by (rule card_mono) auto
    also have "\<dots> \<le> length already" by (rule card_length)
    finally show ?thesis .
  qed
  ultimately show ?thesis using n by linarith
qed

theorem resume_sees_at_most_999_done_witness:
  "\<exists>already. already_done finished_athena HOT = Some (Inr already) \<and> length already \<le> 999"
proof -
  have page: "\<forall>qid n rows. c_results (a_client finished_athena) qid n = Inr rows \<longrightarrow> int (length rows) \<le> max n 0"
    by (auto simp: finished_athena_def paged_athena_def)
  obtain already where a: "already_done finished_athena HOT = Some (Inr already)" using finished_done by blast
  from resume_sees_at_most_999_done [OF page a, of "[]"] a show ?thesis by auto
qed

end
