(* ===== verification/Epoch.thy ===== *)
theory Epoch
  imports Prelude
begin

text \<open>
  awsnative/backfill/epoch.py: which unit an archive timestamp is in, by magnitude, and the
  normaliser that holds a whole file to the unit of its first value. The normaliser's state is
  the option of the unit seen so far.
\<close>

definition epoch_floor_s :: int where "epoch_floor_s = 1420070400"

definition epoch_ceil_s :: int where "epoch_ceil_s = 2208988800"

definition millis_range :: "int \<times> int" where
  "millis_range = (epoch_floor_s * 1000, epoch_ceil_s * 1000)"

definition micros_range :: "int \<times> int" where
  "micros_range = (epoch_floor_s * 1000000, epoch_ceil_s * 1000000)"

datatype ts_unit = MILLIS | MICROS

fun unit_str :: "ts_unit \<Rightarrow> string" where
  "unit_str MILLIS = ''ms''"
| "unit_str MICROS = ''us''"

definition pair_repr :: "int \<times> int \<Rightarrow> string" where
  "pair_repr p = ''('' @ int_str (fst p) @ '', '' @ int_str (snd p) @ '')''"

definition unit_of :: "int \<Rightarrow> ts_unit res" where
  "unit_of v =
     (if fst millis_range \<le> v \<and> v < snd millis_range then Inr MILLIS
      else if fst micros_range \<le> v \<and> v < snd micros_range then Inr MICROS
      else Inl (Exn TimestampUnitError (int_str v @ '' is not a plausible instant in milliseconds ''
        @ pair_repr millis_range @ '' or microseconds '' @ pair_repr micros_range)))"

definition to_micros :: "int \<Rightarrow> ts_unit \<Rightarrow> int" where
  "to_micros v u = (if u = MILLIS then v * 1000 else v)"

definition normalise :: "ts_unit option \<Rightarrow> int \<Rightarrow> (int \<times> ts_unit option) res" where
  "normalise st v = rbind (unit_of v) (\<lambda>observed. case st of
     None \<Rightarrow> Inr (to_micros v observed, Some observed)
   | Some u \<Rightarrow> if observed \<noteq> u
       then Inl (Exn TimestampUnitError (int_str v @ '' reads as '' @ unit_str observed
         @ '', but this file disagrees: earlier values read as '' @ unit_str u))
       else Inr (to_micros v observed, Some u))"

lemma unit_of_error: "unit_of v = Inl e \<Longrightarrow> exn_kind e = TimestampUnitError"
  by (auto simp: unit_of_def split: if_splits)

lemma normalise_error: "normalise st v = Inl e \<Longrightarrow> exn_kind e = TimestampUnitError"
  by (auto simp: normalise_def res_simps unit_of_error split: option.splits if_splits)

lemma normalise_Inr_iff: "normalise st v = Inr (x, st') \<longleftrightarrow>
   (\<exists>u. unit_of v = Inr u \<and> (st = None \<or> st = Some u) \<and> x = to_micros v u \<and> st' = Some u)"
  by (cases st) (auto simp: normalise_def res_simps split: if_splits)

subsection \<open>Properties\<close>

text \<open>
  Detection by magnitude is right for every instant of the window the project
  reads: an instant from 2015 up to 2040, given in microseconds or in whole milliseconds, is
  recognised as such and comes back in microseconds; given in seconds or in nanoseconds it is
  refused. No value is ever scaled by the wrong factor.
\<close>

theorem unit_detection_exact:
  assumes "1420070400 * 1000000 \<le> us" and "us < 2208988800 * 1000000"
  shows "unit_of us = Inr MICROS \<and> to_micros us MICROS = us \<and>
    (1000 dvd us \<longrightarrow> unit_of (us div 1000) = Inr MILLIS \<and> to_micros (us div 1000) MILLIS = us) \<and>
    (\<exists>e. unit_of (us div 1000000) = Inl e) \<and> (\<exists>e. unit_of (us * 1000) = Inl e)"
proof -
  have "us div 1000000 < 2208988800" using assms(2) by linarith
  moreover have "1420070400000 \<le> us div 1000" "us div 1000 < 2208988800000" using assms by linarith+
  ultimately show ?thesis
    using assms by (auto simp: unit_of_def to_micros_def millis_range_def micros_range_def
        epoch_floor_s_def epoch_ceil_s_def)
qed

theorem unit_detection_exact_witness:
  "unit_of 1786752000286442 = Inr MICROS \<and> (\<exists>e. unit_of 1786752000 = Inl e)"
  using unit_detection_exact [of 1786752000286442] by simp

text \<open>
  Whatever is accepted is plausible: an accepted value, scaled by the unit that
  was detected, is an instant from 2015 up to 2040.
\<close>

theorem accepted_instants_plausible:
  assumes "unit_of v = Inr u"
  shows "1420070400 * 1000000 \<le> to_micros v u \<and> to_micros v u < 2208988800 * 1000000"
  using assms by (auto simp: unit_of_def to_micros_def millis_range_def micros_range_def
      epoch_floor_s_def epoch_ceil_s_def split: if_splits)

theorem accepted_instants_plausible_witness:
  "1420070400 * 1000000 \<le> to_micros 1686787200000 MILLIS"
proof -
  have "unit_of 1686787200000 = Inr MILLIS"
    by (simp add: unit_of_def millis_range_def epoch_floor_s_def epoch_ceil_s_def)
  from accepted_instants_plausible [OF this] show ?thesis by simp
qed

end
