(* ===== verification/Parsers.thy ===== *)
theory Parsers
  imports Epoch Models
begin

text \<open>
  awsnative/backfill/parsers.py: archive CSV lines to rows. The two generators are drained:
  the list of rows, or the first exception. int() is exact on any number of digits.
\<close>

record agg_trade =
  a_agg_trade_id :: int
  a_price :: string
  a_quantity :: string
  a_first_trade_id :: int
  a_last_trade_id :: int
  a_event_ts_us :: int
  a_side :: side

record kline =
  k_open_time_us :: int
  k_close_time_us :: int
  k_open :: string
  k_high :: string
  k_low :: string
  k_close :: string
  k_volume :: string
  k_quote_volume :: string
  k_trade_count :: int
  k_taker_buy_base_volume :: string
  k_taker_buy_quote_volume :: string

definition csv_fields :: "string \<Rightarrow> nat \<Rightarrow> string \<Rightarrow> string list option res" where
  "csv_fields line expected layout =
     (let stripped = strip line in
      if stripped = [] then Inr None
      else (let fields = split_on (CHR '','') stripped in
        if length fields \<noteq> expected
        then Inl (Exn ValueError (layout @ '' row has '' @ nat_str (length fields) @ '' fields, expected ''
          @ nat_str expected @ '' columns: '' @ py_repr stripped))
        else Inr (Some fields)))"

definition side_from_buyer_maker :: "string \<Rightarrow> side res" where
  "side_from_buyer_maker text =
     (if text = ''True'' then Inr SELL else if text = ''False'' then Inr BUY
      else Inl (Exn ValueError (''is_buyer_maker: expected '' @ py_repr ''True'' @ '' or '' @ py_repr ''False''
        @ '', got '' @ py_repr text @ ''. Binance changed the archive'' @ [char_of (39::nat)] @ ''s boolean format; ''
        @ ''update the parser rather than defaulting, which would invent an aggressor side.'')))"

definition agg_row :: "ts_unit option \<Rightarrow> string list \<Rightarrow> (agg_trade \<times> ts_unit option) res" where
  "agg_row st fs =
     rbind (py_int (fs ! 0)) (\<lambda>aid. rbind (py_int (fs ! 3)) (\<lambda>first. rbind (py_int (fs ! 4)) (\<lambda>lst.
     rbind (py_int (fs ! 5)) (\<lambda>ts. rbind (normalise st ts) (\<lambda>(us, st').
     rbind (side_from_buyer_maker (fs ! 6)) (\<lambda>sd.
       Inr (\<lparr> a_agg_trade_id = aid, a_price = fs ! 1, a_quantity = fs ! 2, a_first_trade_id = first,
         a_last_trade_id = lst, a_event_ts_us = us, a_side = sd \<rparr>, st')))))))"

definition kline_row :: "ts_unit option \<Rightarrow> string list \<Rightarrow> (kline \<times> ts_unit option) res" where
  "kline_row st fs =
     rbind (py_int (fs ! 0)) (\<lambda>ot. rbind (normalise st ot) (\<lambda>(open_us, st1).
     rbind (py_int (fs ! 6)) (\<lambda>ct. rbind (normalise st1 ct) (\<lambda>(close_us, st2).
     rbind (py_int (fs ! 8)) (\<lambda>n.
       Inr (\<lparr> k_open_time_us = open_us, k_close_time_us = close_us, k_open = fs ! 1, k_high = fs ! 2,
         k_low = fs ! 3, k_close = fs ! 4, k_volume = fs ! 5, k_quote_volume = fs ! 7, k_trade_count = n,
         k_taker_buy_base_volume = fs ! 9, k_taker_buy_quote_volume = fs ! 10 \<rparr>, st2))))))"

text \<open>The generator loop, over the row function and the normaliser's state.\<close>

fun parse_rows :: "(ts_unit option \<Rightarrow> string list \<Rightarrow> ('r \<times> ts_unit option) res) \<Rightarrow> nat \<Rightarrow> string
    \<Rightarrow> ts_unit option \<Rightarrow> string list \<Rightarrow> 'r list res" where
  "parse_rows row n layout st [] = Inr []"
| "parse_rows row n layout st (line # lines) =
     rbind (csv_fields line n layout) (\<lambda>fields. case fields of
       None \<Rightarrow> parse_rows row n layout st lines
     | Some fs \<Rightarrow> rbind (row st fs) (\<lambda>(r, st'). rbind (parse_rows row n layout st' lines) (\<lambda>rs. Inr (r # rs))))"

definition parse_agg_trades :: "string list \<Rightarrow> agg_trade list res" where
  "parse_agg_trades lines = parse_rows agg_row 8 ''aggTrades'' None lines"

definition parse_klines :: "string list \<Rightarrow> kline list res" where
  "parse_klines lines = parse_rows kline_row 12 ''klines'' None lines"

subsection \<open>What a row says\<close>

definition blank :: "string \<Rightarrow> bool" where
  "blank line \<longleftrightarrow> strip line = []"

definition columns :: "string \<Rightarrow> string list" where
  "columns line = split_on (CHR '','') (strip line)"

text \<open>A row of a file whose timestamps are in the unit u.\<close>

definition agg_matches :: "ts_unit \<Rightarrow> string \<Rightarrow> agg_trade \<Rightarrow> bool" where
  "agg_matches u line r \<longleftrightarrow> (let fs = columns line in length fs = 8 \<and>
     parse_int (fs ! 0) = Some (a_agg_trade_id r) \<and> a_price r = fs ! 1 \<and> a_quantity r = fs ! 2 \<and>
     parse_int (fs ! 3) = Some (a_first_trade_id r) \<and> parse_int (fs ! 4) = Some (a_last_trade_id r) \<and>
     (\<exists>ts. parse_int (fs ! 5) = Some ts \<and> unit_of ts = Inr u \<and> a_event_ts_us r = to_micros ts u) \<and>
     ((fs ! 6 = ''True'' \<and> a_side r = SELL) \<or> (fs ! 6 = ''False'' \<and> a_side r = BUY)))"

definition kline_matches :: "ts_unit \<Rightarrow> string \<Rightarrow> kline \<Rightarrow> bool" where
  "kline_matches u line r \<longleftrightarrow> (let fs = columns line in length fs = 12 \<and>
     (\<exists>ts. parse_int (fs ! 0) = Some ts \<and> unit_of ts = Inr u \<and> k_open_time_us r = to_micros ts u) \<and>
     (\<exists>ts. parse_int (fs ! 6) = Some ts \<and> unit_of ts = Inr u \<and> k_close_time_us r = to_micros ts u) \<and>
     [k_open r, k_high r, k_low r, k_close r, k_volume r] = take 5 (drop 1 fs) \<and>
     k_quote_volume r = fs ! 7 \<and> parse_int (fs ! 8) = Some (k_trade_count r) \<and>
     k_taker_buy_base_volume r = fs ! 9 \<and> k_taker_buy_quote_volume r = fs ! 10)"

lemma py_int_Inr_iff [res_simps]: "py_int s = Inr i \<longleftrightarrow> parse_int s = Some i"
  by (auto simp: py_int_def split: option.splits)

lemma csv_fields_None: "csv_fields line n layout = Inr None \<longleftrightarrow> blank line"
  by (auto simp: csv_fields_def blank_def Let_def)

lemma csv_fields_Some:
  "csv_fields line n layout = Inr (Some fs) \<longleftrightarrow> \<not> blank line \<and> fs = columns line \<and> length fs = n"
  by (auto simp: csv_fields_def blank_def columns_def Let_def)

lemma csv_fields_error: "csv_fields line n layout = Inl e \<Longrightarrow> exn_kind e = ValueError"
  by (auto simp: csv_fields_def Let_def split: if_splits)

lemma agg_row_Inr:
  assumes "agg_row st fs = Inr (r, st')" and "fs = columns line" and "length fs = 8"
  shows "\<exists>u. (st = None \<or> st = Some u) \<and> st' = Some u \<and> agg_matches u line r"
  using assms
  by (auto simp: agg_row_def res_simps normalise_Inr_iff agg_matches_def side_from_buyer_maker_def Let_def
      split: if_splits)

lemma nth_slice: "length fs = 12 \<Longrightarrow> [fs ! 1, fs ! 2, fs ! 3, fs ! 4, fs ! 5] = take 5 (drop 1 fs)"
  by (rule nth_equalityI) (auto simp: nth_Cons' less_Suc_eq numeral_eq_Suc)

lemma kline_row_Inr:
  assumes "kline_row st fs = Inr (r, st')" and "fs = columns line" and "length fs = 12"
  shows "\<exists>u. (st = None \<or> st = Some u) \<and> st' = Some u \<and> kline_matches u line r"
  using assms nth_slice [OF assms(3)]
  by (auto simp: kline_row_def res_simps normalise_Inr_iff kline_matches_def Let_def)

text \<open>The loop keeps the unit of the first row for the whole file.\<close>

lemma parse_rows_matches:
  assumes row: "\<And>st fs r st' line. row st fs = Inr (r, st') \<Longrightarrow> fs = columns line \<Longrightarrow> length fs = n \<Longrightarrow>
      \<exists>u. (st = None \<or> st = Some u) \<and> st' = Some u \<and> ok u line r"
  shows "parse_rows row n layout st lines = Inr rs \<Longrightarrow>
    (\<exists>u. (st = None \<or> st = Some u) \<and> list_all2 (ok u) (filter (\<lambda>l. \<not> blank l) lines) rs)"
proof (induction lines arbitrary: st rs)
  case Nil
  then show ?case by (cases st) auto
next
  case (Cons line lines)
  show ?case
  proof (cases "blank line")
    case True
    then have "csv_fields line n layout = Inr None" by (simp add: csv_fields_None)
    with Cons True show ?thesis by simp
  next
    case False
    moreover from Cons.prems obtain x where x: "csv_fields line n layout = Inr x" by (auto simp: res_simps)
    ultimately obtain fs where fs: "csv_fields line n layout = Inr (Some fs)"
      by (cases x) (auto simp: csv_fields_None)
    with Cons.prems obtain r st' rs' where
      r: "row st fs = Inr (r, st')" and rs': "parse_rows row n layout st' lines = Inr rs'" "rs = r # rs'"
      by (auto simp: res_simps)
    from row [OF r] fs obtain u where u: "st = None \<or> st = Some u" "st' = Some u" "ok u line r"
      by (auto simp: csv_fields_Some)
    with Cons.IH [OF rs'(1)] rs'(2) False show ?thesis by auto
  qed
qed

lemma agg_rows_match:
  assumes "parse_agg_trades lines = Inr rows"
  shows "\<exists>u. list_all2 (agg_matches u) (filter (\<lambda>l. \<not> blank l) lines) rows"
  using parse_rows_matches [OF _ assms [unfolded parse_agg_trades_def], of agg_matches] agg_row_Inr by blast

lemma kline_rows_match:
  assumes "parse_klines lines = Inr bars"
  shows "\<exists>u. list_all2 (kline_matches u) (filter (\<lambda>l. \<not> blank l) lines) bars"
  using parse_rows_matches [OF _ assms [unfolded parse_klines_def], of kline_matches] kline_row_Inr by blast

lemma parse_rows_error:
  assumes row: "\<And>st fs e. row st fs = Inl e \<Longrightarrow> is_value_error (exn_kind e)"
  shows "parse_rows row n layout st lines = Inl e \<Longrightarrow> is_value_error (exn_kind e)"
proof (induction lines arbitrary: st)
  case (Cons line lines)
  show ?case
  proof (cases "csv_fields line n layout")
    case (Inl e')
    with Cons.prems csv_fields_error [OF Inl] show ?thesis by simp
  next
    case (Inr f)
    with Cons row show ?thesis by (auto simp: res_simps split: option.splits)
  qed
qed simp

lemma value_error_kinds [simp]: "exn_kind e = ValueError \<Longrightarrow> is_value_error (exn_kind e)"
    "exn_kind e = TimestampUnitError \<Longrightarrow> is_value_error (exn_kind e)"
  by simp_all

lemma agg_row_error: "agg_row st fs = Inl e \<Longrightarrow> is_value_error (exn_kind e)"
  by (auto simp: agg_row_def res_simps side_from_buyer_maker_def dest!: py_int_error_kind normalise_error split: if_splits)

lemma kline_row_error: "kline_row st fs = Inl e \<Longrightarrow> is_value_error (exn_kind e)"
  by (auto simp: kline_row_def res_simps dest!: py_int_error_kind normalise_error)

text \<open>One line of each layout, of the microsecond era.\<close>

definition example_agg_line :: string where
  "example_agg_line = ''7,63000.10,0.5,70,71,1786752000286442,True,True''"

definition example_kline_line :: string where
  "example_kline_line = ''1786752000000000,1.0,2.0,0.5,1.5,10,1786752059999999,15,3,4,6,0''"

lemma example_columns:
  "csv_fields example_agg_line 8 ''aggTrades'' =
     Inr (Some [''7'', ''63000.10'', ''0.5'', ''70'', ''71'', ''1786752000286442'', ''True'', ''True''])"
  "csv_fields example_kline_line 12 ''klines'' =
     Inr (Some [''1786752000000000'', ''1.0'', ''2.0'', ''0.5'', ''1.5'', ''10'', ''1786752059999999'', ''15'', ''3'', ''4'', ''6'', ''0''])"
  by code_simp+

lemma example_ints:
  "parse_int ''7'' = Some 7" "parse_int ''70'' = Some 70" "parse_int ''71'' = Some 71" "parse_int ''3'' = Some 3"
  "parse_int ''1786752000286442'' = Some 1786752000286442"
  "parse_int ''1786752000000000'' = Some 1786752000000000" "parse_int ''1786752059999999'' = Some 1786752059999999"
  by (simp_all add: parse_int_def strip_def rstrip_def is_space_def digit_val_def Let_def)

subsection \<open>Properties\<close>

text \<open>
  A parsed aggTrades file is the file: one row per line that is not blank, in
  order, prices and quantities as their source text, SELL exactly when the buyer was the
  maker, and every timestamp read in one and the same unit.
\<close>

theorem parsed_agg_trades_match:
  assumes "parse_agg_trades lines = Inr rows"
  shows "\<exists>u. list_all2 (agg_matches u) (filter (\<lambda>l. \<not> blank l) lines) rows"
  using assms by (rule agg_rows_match)

theorem parsed_agg_trades_match_witness:
  "\<exists>r u. parse_agg_trades [example_agg_line] = Inr [r] \<and> a_side r = SELL \<and> agg_matches u example_agg_line r"
proof -
  obtain r where r: "parse_agg_trades [example_agg_line] = Inr [r]" "a_side r = SELL"
    by (auto simp: parse_agg_trades_def example_columns agg_row_def py_int_def example_ints normalise_def unit_of_def
        millis_range_def micros_range_def epoch_floor_s_def epoch_ceil_s_def side_from_buyer_maker_def)
  with parsed_agg_trades_match [OF r(1)] show ?thesis
    by (auto simp: list_all2_Cons2 split: if_splits)
qed

text \<open>
  The same for a klines file: one bar per line that is not blank, the decimals as
  their source text, and both times of every bar read in one and the same unit, so no bar is a
  thousand times too long.
\<close>

theorem parsed_klines_match:
  assumes "parse_klines lines = Inr bars"
  shows "\<exists>u. list_all2 (kline_matches u) (filter (\<lambda>l. \<not> blank l) lines) bars"
  using assms by (rule kline_rows_match)

theorem parsed_klines_match_witness:
  "\<exists>r u. parse_klines [example_kline_line] = Inr [r] \<and> kline_matches u example_kline_line r"
proof -
  obtain r where r: "parse_klines [example_kline_line] = Inr [r]"
    by (auto simp: parse_klines_def example_columns kline_row_def py_int_def example_ints normalise_def unit_of_def
        millis_range_def micros_range_def epoch_floor_s_def epoch_ceil_s_def)
  with parsed_klines_match [OF r] show ?thesis
    by (auto simp: list_all2_Cons2 split: if_splits)
qed

text \<open>
  A file the parsers do not accept is a data error and nothing else: every
  exception of either parser, on any lines whatever, is a ValueError or a subclass of it, the
  classes the loader turns into a FAILED row.
\<close>

theorem parser_errors_are_value_errors:
  assumes "parse_agg_trades lines = Inl e \<or> parse_klines lines = Inl e"
  shows "is_value_error (exn_kind e)"
  using assms unfolding parse_agg_trades_def parse_klines_def
  by (elim disjE) (erule parse_rows_error [rotated], erule agg_row_error kline_row_error)+

theorem parser_errors_are_value_errors_witness:
  "\<exists>e. parse_agg_trades [''7,1''] = Inl e \<and> is_value_error (exn_kind e)"
proof -
  have "\<exists>e. csv_fields ''7,1'' 8 ''aggTrades'' = Inl e" by (simp add: csv_fields_def strip_def rstrip_def is_space_def Let_def)
  then obtain e where e: "parse_agg_trades [''7,1''] = Inl e" by (auto simp: parse_agg_trades_def)
  with parser_errors_are_value_errors [OF disjI1 [OF e]] show ?thesis by blast
qed

end
