(* ===== verification/Checksum.thy ===== *)
theory Checksum
  imports Prelude
begin

text \<open>
  awsnative/backfill/checksum.py: parsing a sha256sum line and verifying a file against it.
  The digest function of hashlib is the parameter sha, from the bytes to their lowercase hex
  digest.
\<close>

record checksum =
  cs_sha256 :: string
  cs_filename :: string

text \<open>int(text, 16) on a text without whitespace: a sign, an optional 0x and hex digits.\<close>

fun hex_digits :: "string \<Rightarrow> nat option" where
  "hex_digits (z # x # rest) =
     (if z = CHR ''0'' \<and> (x = CHR ''x'' \<or> x = CHR ''X'')
      then (if rest = [] then None else digits_val 16 True 0 rest)
      else digits_val 16 False 0 (z # x # rest))"
| "hex_digits s = digits_val 16 False 0 s"

definition is_hex_int :: "string \<Rightarrow> bool" where
  "is_hex_int s \<longleftrightarrow> signed_val hex_digits s \<noteq> None"

definition checksum_error :: "string \<Rightarrow> 'a res" where
  "checksum_error msg = Inl (Exn ChecksumError msg)"

definition parse_checksum :: "string \<Rightarrow> checksum res" where
  "parse_checksum text = (case words (strip text) of
     [digest, fname] \<Rightarrow>
       if length digest \<noteq> 64
       then checksum_error (''digest is '' @ nat_str (length digest) @ '' chars, expected 64'')
       else if \<not> is_hex_int digest
       then checksum_error (''digest is not hexadecimal: '' @ py_repr digest)
       else Inr \<lparr> cs_sha256 = lower digest, cs_filename = fname \<rparr>
   | _ \<Rightarrow> checksum_error (if strip text \<noteq> [] then ''expected '' @ py_repr ''<sha256>  <filename>'' @ '', got '' @ py_repr (strip text)
       else ''empty .CHECKSUM file''))"

definition verify :: "(string \<Rightarrow> string) \<Rightarrow> string \<Rightarrow> string \<Rightarrow> string \<Rightarrow> string res" where
  "verify sha data text expected_filename =
     rbind (parse_checksum text) (\<lambda>expected.
       if cs_filename expected \<noteq> expected_filename
       then checksum_error (''.CHECKSUM names '' @ py_repr (cs_filename expected) @ '' but this is ''
         @ py_repr expected_filename @ ''; the URL pair is mismatched'')
       else (let actual = sha data in
         if actual \<noteq> cs_sha256 expected
         then checksum_error (''digest mismatch for '' @ expected_filename @ '': expected '' @ cs_sha256 expected
           @ '', got '' @ actual @ '' over '' @ nat_str (length data) @ '' bytes'')
         else Inr actual))"

subsection \<open>Facts\<close>

lemma checksum_error_kind: "checksum_error msg = Inl e \<Longrightarrow> exn_kind e = ChecksumError"
  by (auto simp: checksum_error_def)

lemma checksum_error_Inr [simp]: "checksum_error msg \<noteq> Inr x"
  by (simp add: checksum_error_def)

lemma parse_checksum_error: "parse_checksum text = Inl e \<Longrightarrow> exn_kind e = ChecksumError"
  by (auto simp: parse_checksum_def dest: checksum_error_kind split: list.splits if_splits)

lemma parse_checksum_Inr:
  "parse_checksum text = Inr c \<longleftrightarrow> (\<exists>digest fname. words (strip text) = [digest, fname] \<and>
     length digest = 64 \<and> is_hex_int digest \<and> c = \<lparr> cs_sha256 = lower digest, cs_filename = fname \<rparr>)"
  by (auto simp: parse_checksum_def split: list.splits if_splits)

lemma verify_error: "verify sha data text fname = Inl e \<Longrightarrow> exn_kind e = ChecksumError"
  by (auto simp: verify_def res_simps Let_def dest: parse_checksum_error checksum_error_kind split: if_splits)

lemma verify_Inr:
  "verify sha data text fname = Inr d \<longleftrightarrow> d = sha data \<and>
     (\<exists>digest. words (strip text) = [digest, fname] \<and> length digest = 64 \<and> is_hex_int digest \<and> lower digest = sha data)"
proof -
  have "verify sha data text fname = Inr d \<longleftrightarrow>
      (\<exists>c. parse_checksum text = Inr c \<and> cs_filename c = fname \<and> sha data = cs_sha256 c \<and> d = sha data)"
    by (auto simp: verify_def res_simps Let_def split: if_splits)
  then show ?thesis by (auto simp: parse_checksum_Inr)
qed

text \<open>Hex digits of either case.\<close>

definition hex_chr :: "char \<Rightarrow> bool" where
  "hex_chr ch \<longleftrightarrow> (let n = (of_char ch :: nat) in (48 \<le> n \<and> n \<le> 57) \<or> (97 \<le> n \<and> n \<le> 102))"

lemma hex_chr_value: "hex_chr ch \<Longrightarrow> \<exists>v. digit_val 16 ch = Some v"
  by (auto simp: hex_chr_def digit_val_def Let_def)

lemma hex_chr_neq: "hex_chr ch \<Longrightarrow> ch \<noteq> CHR ''_'' \<and> ch \<noteq> CHR ''x'' \<and> ch \<noteq> CHR ''X'' \<and> ch \<noteq> CHR ''-'' \<and>
    ch \<noteq> CHR ''+'' \<and> \<not> is_space ch \<and> lower_chr ch = ch"
  by (auto simp: hex_chr_def is_space_def lower_chr_def Let_def)

lemma digits_val_hex:
  "\<forall>ch\<in>set s. hex_chr ch \<Longrightarrow> b \<or> s \<noteq> [] \<Longrightarrow> \<exists>v. digits_val 16 b acc s = Some v"
proof (induction s arbitrary: b acc)
  case (Cons ch s)
  then have "hex_chr ch" by simp
  with hex_chr_value obtain v where "digit_val 16 ch = Some v" by blast
  with Cons hex_chr_neq [OF \<open>hex_chr ch\<close>] show ?case by simp
qed simp

lemma is_hex_int_digest:
  assumes "\<forall>ch\<in>set s. hex_chr ch" and "s \<noteq> []"
  shows "is_hex_int s"
proof -
  obtain ch cs where s: "s = ch # cs" using assms(2) by (cases s) auto
  have n: "ch \<noteq> CHR ''-''" "ch \<noteq> CHR ''+''" using hex_chr_neq [of ch] assms s by auto
  have "\<exists>v. hex_digits s = Some v"
  proof (cases cs)
    case Nil
    with assms s digits_val_hex [of s False 0] show ?thesis by simp
  next
    case (Cons x rest)
    then have "x \<noteq> CHR ''x''" "x \<noteq> CHR ''X''" using hex_chr_neq [of x] assms s by auto
    with Cons s digits_val_hex [OF assms(1), of False 0] show ?thesis by auto
  qed
  with s n show ?thesis by (auto simp: is_hex_int_def)
qed

lemma lower_hex: "\<forall>ch\<in>set s. hex_chr ch \<Longrightarrow> lower s = s"
  by (simp add: lower_def map_idI hex_chr_neq)

text \<open>The words of a line of two words separated by spaces.\<close>

lemma words_cons:
  assumes "s \<noteq> []" and "\<forall>ch\<in>set s. \<not> is_space ch" and "is_space sp"
  shows "words (s @ sp # rest) = s # words (sp # rest)"
proof -
  have "\<not> is_space (hd s)" using assms(1,2) by (cases s) auto
  then have "dropWhile is_space (s @ sp # rest) = s @ sp # rest" using assms(1) by (cases s) auto
  moreover have "takeWhile (\<lambda>ch. \<not> is_space ch) (s @ sp # rest) = s" using assms by (simp add: takeWhile_append)
  moreover have "dropWhile (\<lambda>ch. \<not> is_space ch) (s @ sp # rest) = sp # rest" using assms by (simp add: dropWhile_append)
  ultimately show ?thesis by (subst words.simps) (simp add: Let_def)
qed

lemma words_drop: "words s = words (dropWhile is_space s)"
proof -
  have "dropWhile is_space (dropWhile is_space s) = dropWhile is_space s" by (simp add: dropWhile_idem)
  then show ?thesis by (subst (1 2) words.simps) (simp only: Let_def)
qed

lemma words_two:
  assumes "a \<noteq> []" "\<forall>ch\<in>set a. \<not> is_space ch" and "b \<noteq> []" "\<forall>ch\<in>set b. \<not> is_space ch"
  shows "words (a @ ''  '' @ b) = [a, b]" "words (a @ '' '' @ b) = [a, b]"
proof -
  have sp: "is_space (CHR '' '')" by (simp add: is_space_def)
  have b: "dropWhile is_space b = b" using assms(3,4) by (cases b) auto
  have wb: "words b = [b]" using assms(3,4) by (intro words_no_space) auto
  have w: "words (CHR '' '' # CHR '' '' # b) = [b]" "words (CHR '' '' # b) = [b]"
    unfolding words_drop [of "CHR '' '' # CHR '' '' # b"] words_drop [of "CHR '' '' # b"]
    using sp b wb by simp_all
  show "words (a @ ''  '' @ b) = [a, b]"
    using words_cons [OF assms(1,2) sp, of "CHR '' '' # b"] by (simp only: w append.simps)
  show "words (a @ '' '' @ b) = [a, b]"
    using words_cons [OF assms(1,2) sp, of b] by (simp only: w append.simps)
qed

lemma rstrip_last: "\<not> P z \<Longrightarrow> rstrip P (xs @ [z]) = xs @ [z]"
  by (simp add: rstrip_def)

lemma checked_sum:
  assumes "length (sha data) = 64" and "\<forall>ch\<in>set (sha data). hex_chr ch"
    and "fname \<noteq> []" and "\<forall>ch\<in>set fname. \<not> is_space ch"
    and "sep \<in> {'' '', ''  ''}" and "eol \<in> {[], [char_of (10::nat)]}"
  shows "verify sha data (sha data @ sep @ fname @ eol) fname = Inr (sha data)"
proof -
  have "sha data \<noteq> []" using assms(1) by (cases "sha data") simp_all
  moreover have "\<forall>ch\<in>set (sha data). \<not> is_space ch" using assms(2) hex_chr_neq by blast
  ultimately have d: "sha data \<noteq> []" "\<forall>ch\<in>set (sha data). \<not> is_space ch" by auto
  have l: "\<not> is_space (last fname)" using assms(3,4) last_in_set by blast
  have nl: "is_space (char_of (10::nat))" by (simp add: is_space_def)
  have core: "rstrip is_space (sha data @ sep @ fname) = sha data @ sep @ fname"
    using rstrip_last [of is_space "last fname" "sha data @ sep @ butlast fname"] l assms(3) by simp
  have "rstrip is_space (sha data @ sep @ fname @ eol) = rstrip is_space (sha data @ sep @ fname)"
    using assms(6) nl by (auto simp: rstrip_def)
  moreover have "dropWhile is_space (sha data @ sep @ fname @ eol) = sha data @ sep @ fname @ eol"
    using d by (cases "sha data") auto
  ultimately have "strip (sha data @ sep @ fname @ eol) = sha data @ sep @ fname"
    by (simp only: strip_def core)
  moreover have "words (sha data @ sep @ fname) = [sha data, fname]"
    using assms(5) words_two [OF d assms(3,4)] by auto
  ultimately show ?thesis
    using assms(1,2) d by (simp add: verify_Inr is_hex_int_digest lower_hex)
qed

subsection \<open>Properties\<close>

text \<open>
  A verified file is the file its checksum names: verify answers only when the
  checksum text is one word pair whose second word is the expected name and whose first is 64
  characters long, reads as hexadecimal and equals, in lower case, the digest of the data;
  every other input raises ChecksumError and nothing else.
\<close>

theorem verify_accepts_iff:
  "(verify sha data text fname = Inr d \<longleftrightarrow> d = sha data \<and>
     (\<exists>digest. words (strip text) = [digest, fname] \<and> length digest = 64 \<and> is_hex_int digest \<and> lower digest = sha data)) \<and>
   (case verify sha data text fname of Inr d \<Rightarrow> True | Inl e \<Rightarrow> exn_kind e = ChecksumError)"
  by (auto simp: verify_Inr split: sum.splits dest: verify_error)

text \<open>
  What sha256sum writes is accepted: the digest of the data, one or two spaces,
  the file name and a final newline verify, whatever the name without white space.
\<close>

theorem verify_accepts_sha256sum:
  assumes "length (sha data) = 64" and "\<forall>ch\<in>set (sha data). hex_chr ch"
    and "fname \<noteq> []" and "\<forall>ch\<in>set fname. \<not> is_space ch"
    and "sep \<in> {'' '', ''  ''}" and "eol \<in> {[], [char_of (10::nat)]}"
  shows "verify sha data (sha data @ sep @ fname @ eol) fname = Inr (sha data)"
  using assms by (rule checked_sum)

theorem verify_accepts_sha256sum_witness:
  "verify (\<lambda>data. replicate 64 (CHR ''a'')) ''zip'' (replicate 64 (CHR ''a'') @ ''  '' @ ''f.zip'' @ [char_of (10::nat)]) ''f.zip'' =
     Inr (replicate 64 (CHR ''a''))"
  by (rule verify_accepts_sha256sum) (simp_all add: hex_chr_def is_space_def)

end
