(* ===== verification/Loader.thy ===== *)
theory Loader
  imports Parsers Checksum Manifest
begin

text \<open>
  awsnative/backfill/staging.py and awsnative/backfill/loader.py. The parameters are what the
  loader is given or takes from the standard library as a black box: fetch (url to bytes),
  utf8 (bytes.decode), zip_members (the names and contents of a zip file, or what opening or reading
  it raised: BadZipFile, but also zlib.error or NotImplementedError), gz (gzip.compress at
  mtime 0) and sha (SHA-256). A load returns the objects it put, in order, beside its outcome.
\<close>

subsection \<open>Staging bodies\<close>

definition newline_chr :: char where "newline_chr = char_of (10::nat)"

definition join_rows :: "string list list \<Rightarrow> string" where
  "join_rows rows = concat (map (\<lambda>row. join '','' row @ [newline_chr]) rows)"

definition kline_staging_row :: "string \<Rightarrow> kline \<Rightarrow> string list" where
  "kline_staging_row i b = [i, int_str (k_open_time_us b), int_str (k_close_time_us b), k_open b, k_high b,
     k_low b, k_close b, k_volume b, k_quote_volume b, int_str (k_trade_count b), k_taker_buy_base_volume b]"

definition klines_csv_gz :: "(string \<Rightarrow> string) \<Rightarrow> string \<Rightarrow> kline list \<Rightarrow> string" where
  "klines_csv_gz gz i bars = gz (join_rows (map (kline_staging_row i) bars))"

definition trade_staging_row :: "string \<Rightarrow> string \<Rightarrow> agg_trade \<Rightarrow> string list" where
  "trade_staging_row i s t = [i, archive_venue, s, int_str (a_agg_trade_id t), a_price t, a_quantity t,
     int_str (a_first_trade_id t), int_str (a_last_trade_id t), int_str (a_event_ts_us t), side_str (a_side t)]"

definition trades_csv_gz :: "(string \<Rightarrow> string) \<Rightarrow> string \<Rightarrow> string \<Rightarrow> agg_trade list \<Rightarrow> string" where
  "trades_csv_gz gz i s trades = gz (join_rows (map (trade_staging_row i s) trades))"

subsection \<open>The loader\<close>

record world =
  fetch :: "string \<Rightarrow> string res"
  utf8 :: "string \<Rightarrow> string res"
  zip_members :: "string \<Rightarrow> (string \<times> string) list res"
  gz :: "string \<Rightarrow> string"
  sha :: "string \<Rightarrow> string"

definition stage :: "world \<Rightarrow> work_item \<Rightarrow> string list \<Rightarrow> (string \<times> nat) res" where
  "stage w item lines = (if w_tier item = DEEP
     then rbind (parse_klines lines) (\<lambda>bars. Inr (klines_csv_gz (gz w) (w_instrument_id item) bars, length bars))
     else rbind (parse_agg_trades lines) (\<lambda>trades.
       Inr (trades_csv_gz (gz w) (w_instrument_id item) (w_venue_symbol item) trades, length trades)))"

definition sole_member_lines :: "world \<Rightarrow> string \<Rightarrow> string list res" where
  "sole_member_lines w blob = rbind (zip_members w blob) (\<lambda>members. case members of
     [(name, body)] \<Rightarrow> rbind (utf8 w body) (\<lambda>text. Inr (splitlines text))
   | _ \<Rightarrow> Inl (Exn ValueError (''expected one member in the archive, found '' @ nat_str (length members) @ '': [''
       @ join '', '' (map (py_repr \<circ> fst) members) @ '']'')))"

definition load_unguarded :: "world \<Rightarrow> work_item \<Rightarrow> (string \<times> string) list \<times> outcome res" where
  "load_unguarded w item =
     (let prepared =
        rbind (fetch w (item_checksum_url item)) (\<lambda>raw. rbind (utf8 w raw) (\<lambda>checksum_text.
        rbind (fetch w (item_url item)) (\<lambda>blob.
        rbind (verify (sha w) blob checksum_text (item_filename item)) (\<lambda>digest.
        rbind (sole_member_lines w blob) (\<lambda>lines.
        rbind (stage w item lines) (\<lambda>(body, n). Inr (digest, body, n)))))))
      in case prepared of
           Inl e \<Rightarrow> ([], Inl e)
         | Inr (digest, body, n) \<Rightarrow> ([(w_staging_key item, body)], Inr (outcome_done (w_archive_key item) digest n)))"

text \<open>_DATA_ERRORS: ValueError with its subclasses, and zipfile.BadZipFile.\<close>

definition is_data_error :: "exn \<Rightarrow> bool" where
  "is_data_error e \<longleftrightarrow> is_value_error (exn_kind e) \<or> exn_kind e = BadZipFile"

definition load :: "world \<Rightarrow> work_item \<Rightarrow> (string \<times> string) list \<times> outcome res" where
  "load w item = (case load_unguarded w item of
     (puts, Inr oc) \<Rightarrow> (puts, Inr oc)
   | (puts, Inl e) \<Rightarrow> (puts,
       if exn_kind e = ArchiveNotFound then Inr (outcome_skipped (w_archive_key item) (exn_str e))
       else if is_data_error e then Inr (outcome_failed (w_archive_key item) (exn_str e))
       else Inl e))"

text \<open>clear_staging over a delete_prefix that answers with a count.\<close>

definition clear_staging :: "(string \<Rightarrow> nat) \<Rightarrow> nat" where
  "clear_staging delete_prefix = sum_list (map (\<lambda>t. delete_prefix (staging_prefix t @ ''/'')) [DEEP, HOT])"

text \<open>delete_prefix of _s3_loader: the pages of keys listed, the batches deleted, the count.\<close>

definition s3_delete_prefix :: "string list list \<Rightarrow> string list list \<times> nat" where
  "s3_delete_prefix pages = (let batches = filter (\<lambda>keys. keys \<noteq> []) pages
     in (batches, sum_list (map length batches)))"

text \<open>_http_fetch over what urlopen does.\<close>

datatype http = Body string | HttpError int | UrlError string

definition http_fetch :: "(string \<Rightarrow> http) \<Rightarrow> string \<Rightarrow> string res" where
  "http_fetch urlopen url = (case urlopen url of
     Body b \<Rightarrow> Inr b
   | HttpError code \<Rightarrow> if code = 404 then Inl (Exn ArchiveNotFound (''HTTP 404 for '' @ url))
       else Inl (Exn HTTPError (int_str code))
   | UrlError reason \<Rightarrow> Inl (Exn RuntimeError (''cannot reach '' @ url @ '': '' @ reason)))"

text \<open>The Lambda entry point: the action is missing from the items of the map.\<close>

definition merge_dicts :: "(string, string) dict \<Rightarrow> (string, string) dict \<Rightarrow> (string, string) dict" where
  "merge_dicts d e = foldl (\<lambda>acc kv. dict_set (fst kv) (snd kv) acc) d e"

definition handler :: "world \<Rightarrow> (string \<Rightarrow> nat) \<Rightarrow> (string, string) dict
    \<Rightarrow> (string \<times> string) list \<times> (string, string) dict res" where
  "handler w delete_prefix event = (case dict_item event ''bucket'' of
     Inl e \<Rightarrow> ([], Inl e)
   | Inr bucket \<Rightarrow>
       if map_of event ''action'' = Some ''clear''
       then ([], Inr [(''removed'', nat_str (clear_staging delete_prefix))])
       else (case item_from_json event of
           Inl e \<Rightarrow> ([], Inl e)
         | Inr item \<Rightarrow> (case load w item of
             (puts, r) \<Rightarrow> (puts, rbind r (\<lambda>oc. Inr (merge_dicts (item_to_json item) (outcome_to_json oc)))))))"

subsection \<open>Facts\<close>

lemma stage_Inr:
  "stage w item lines = Inr (body, n) \<longleftrightarrow>
     (if w_tier item = DEEP
      then \<exists>bars. parse_klines lines = Inr bars \<and> n = length bars \<and> body = klines_csv_gz (gz w) (w_instrument_id item) bars
      else \<exists>ts. parse_agg_trades lines = Inr ts \<and> n = length ts \<and>
        body = trades_csv_gz (gz w) (w_instrument_id item) (w_venue_symbol item) ts)"
  by (auto simp: stage_def res_simps)

lemma agg_parse_error: "parse_agg_trades lines = Inl e \<Longrightarrow> is_value_error (exn_kind e)"
  unfolding parse_agg_trades_def by (erule parse_rows_error [rotated], erule agg_row_error)

lemma kline_parse_error: "parse_klines lines = Inl e \<Longrightarrow> is_value_error (exn_kind e)"
  unfolding parse_klines_def by (erule parse_rows_error [rotated], erule kline_row_error)

lemma stage_error: "stage w item lines = Inl e \<Longrightarrow> is_data_error e"
  by (auto simp: stage_def res_simps is_data_error_def dest: agg_parse_error kline_parse_error split: if_splits)

lemma load_unguarded_Inr:
  "load_unguarded w item = (puts, Inr oc) \<Longrightarrow> \<exists>text raw blob digest lines body n.
     fetch w (item_checksum_url item) = Inr raw \<and> utf8 w raw = Inr text \<and> fetch w (item_url item) = Inr blob \<and>
     verify (sha w) blob text (item_filename item) = Inr digest \<and> sole_member_lines w blob = Inr lines \<and>
     stage w item lines = Inr (body, n) \<and> puts = [(w_staging_key item, body)] \<and>
     oc = outcome_done (w_archive_key item) digest n"
  by (auto simp: load_unguarded_def Let_def res_simps split: sum.splits)

lemma load_unguarded_Inl: "load_unguarded w item = (puts, Inl e) \<Longrightarrow> puts = []"
  by (auto simp: load_unguarded_def Let_def split: sum.splits)

lemma load_cases:
  assumes "load w item = (puts, r)"
  obtains (staged) oc where "load_unguarded w item = (puts, Inr oc)" "r = Inr oc"
  | (refused) e where "load_unguarded w item = ([], Inl e)" "puts = []"
      "r = (if exn_kind e = ArchiveNotFound then Inr (outcome_skipped (w_archive_key item) (exn_str e))
        else if is_data_error e then Inr (outcome_failed (w_archive_key item) (exn_str e)) else Inl e)"
proof -
  obtain ps x where u: "load_unguarded w item = (ps, x)" by (cases "load_unguarded w item")
  show thesis
  proof (cases x)
    case (Inl e)
    with u load_unguarded_Inl have "ps = []" by blast
    with u Inl assms show thesis by (intro refused [of e]) (auto simp: load_def)
  next
    case (Inr oc)
    with u assms show thesis by (intro staged [of oc]) (auto simp: load_def)
  qed
qed

text \<open>Whatever the repository's own code raises on the way is caught; the rest is what the libraries raised.\<close>

lemma sole_member_error:
  assumes "sole_member_lines w blob = Inl e"
  shows "is_data_error e \<or> zip_members w blob = Inl e \<or> (\<exists>b. utf8 w b = Inl e)"
proof (cases "zip_members w blob")
  case (Inl e')
  with assms show ?thesis by (simp add: sole_member_lines_def)
next
  case (Inr members)
  show ?thesis
  proof (cases "\<exists>name body. members = [(name, body)]")
    case True
    with Inr assms show ?thesis by (auto simp: sole_member_lines_def res_simps)
  next
    case False
    with Inr assms have "exn_kind e = ValueError"
      by (auto simp: sole_member_lines_def split: list.splits)
    then show ?thesis by (simp add: is_data_error_def)
  qed
qed

definition library_error :: "world \<Rightarrow> work_item \<Rightarrow> exn \<Rightarrow> bool" where
  "library_error w item e \<longleftrightarrow> fetch w (item_checksum_url item) = Inl e \<or> fetch w (item_url item) = Inl e \<or>
     (\<exists>b. utf8 w b = Inl e) \<or> (\<exists>blob. fetch w (item_url item) = Inr blob \<and> zip_members w blob = Inl e)"

lemma load_unguarded_error:
  assumes "load_unguarded w item = (puts, Inl e)"
  shows "is_data_error e \<or> library_error w item e"
proof -
  have v: "verify s d t n = Inl e \<Longrightarrow> is_data_error e" for s d t n
    using verify_error by (simp add: is_data_error_def)
  show ?thesis
    using assms
    by (auto simp: load_unguarded_def Let_def res_simps library_error_def split: sum.splits
        dest: v sole_member_error stage_error)
qed

text \<open>Reading a staging body back: rows of fields without commas and newlines.\<close>

definition field_ok :: "string \<Rightarrow> bool" where
  "field_ok s \<longleftrightarrow> CHR '','' \<notin> set s \<and> newline_chr \<notin> set s"

definition read_rows :: "string \<Rightarrow> string list list" where
  "read_rows text = map (split_on (CHR '','')) (butlast (split_on newline_chr text))"

lemma newline_not_comma: "newline_chr \<noteq> CHR '',''"
  by (simp add: newline_chr_def char_of_def)

lemma join_no_newline:
  "\<forall>f\<in>set row. field_ok f \<Longrightarrow> newline_chr \<notin> set (join '','' row)"
proof (induction row)
  case (Cons f row)
  then show ?case by (cases row) (auto simp: field_ok_def newline_not_comma)
qed simp

lemma split_rows:
  "\<forall>row\<in>set rows. row \<noteq> [] \<and> (\<forall>f\<in>set row. field_ok f) \<Longrightarrow>
   split_on newline_chr (join_rows rows) = map (join '','') rows @ [[]]"
proof (induction rows)
  case (Cons row rows)
  then have "newline_chr \<notin> set (join '','' row)" using join_no_newline by simp
  with Cons show ?case by (simp add: join_rows_def split_on_append_sep)
qed (simp add: join_rows_def)

lemma read_join_rows:
  assumes "\<forall>row\<in>set rows. row \<noteq> [] \<and> (\<forall>f\<in>set row. field_ok f)"
  shows "read_rows (join_rows rows) = rows"
proof -
  have "split_on (CHR '','') (join '','' row) = row" if "row \<in> set rows" for row
    using assms that by (intro split_on_join) (auto simp: field_ok_def)
  then show ?thesis by (simp add: read_rows_def split_rows [OF assms] map_idI)
qed

lemma int_str_field [simp]: "field_ok (int_str i)"
proof -
  have "CHR '','' \<notin> set (int_str i)" "newline_chr \<notin> set (int_str i)"
    by (rule int_str_no_char, simp) (rule int_str_no_char, simp add: newline_chr_def)
  then show ?thesis by (simp add: field_ok_def)
qed

lemma nl: "is_line_end newline_chr"
  by (simp add: is_line_end_def newline_chr_def)

lemma lines_from_no_newline:
  "line \<in> set (lines_from acc s) \<Longrightarrow> newline_chr \<notin> set acc \<Longrightarrow> newline_chr \<notin> set line"
proof (induction acc s arbitrary: line rule: lines_from.induct)
  case (1 acc)
  then show ?case by (auto split: if_splits)
next
  case (2 acc ch cs)
  show ?case
  proof (cases "of_char ch = (13::nat)")
    case True
    show ?thesis
    proof (cases cs)
      case Nil
      with True 2 show ?thesis by simp
    next
      case (Cons d ds)
      have eq: "set (lines_from acc (ch # cs)) =
          insert (rev acc) (set (if of_char d = (10::nat) then lines_from [] ds else lines_from [] (d # ds)))"
        by (subst lines_from.simps) (simp only: True Cons refl if_True list.case list.set)
      show ?thesis
      proof (cases "of_char d = (10::nat)")
        case ten: True
        with eq "2.prems"(1) have "line = rev acc \<or> line \<in> set (lines_from [] ds)" by simp
        then show ?thesis using "2.prems"(2) "2.IH"(1) [OF True Cons ten] by auto
      next
        case other: False
        from "2.prems"(1) have "line = rev acc \<or> line \<in> set (lines_from [] (d # ds))"
          unfolding eq by (simp only: other if_False insert_iff)
        then show ?thesis using "2.prems"(2) "2.IH"(2) [OF True Cons other] by (elim disjE) (simp_all del: lines_from.simps)
      qed
    qed
  next
    case False
    show ?thesis
    proof (cases "is_line_end ch")
      case True
      with False "2.prems" consider "line = rev acc" | "line \<in> set (lines_from [] cs)" by auto
      then show ?thesis using "2.prems"(2) "2.IH"(3) [OF False True] by cases simp_all
    next
      case no: False
      with nl have "ch \<noteq> newline_chr" by auto
      moreover from False no "2.prems" have "line \<in> set (lines_from (ch # acc) cs)" by simp
      ultimately show ?thesis using "2.prems"(2) "2.IH"(4) [OF False no] by simp
    qed
  qed
qed

lemma column_field_ok:
  assumes "line \<in> set (splitlines text)" and "f \<in> set (columns line)"
  shows "field_ok f"
proof -
  have "newline_chr \<notin> set line"
    using lines_from_no_newline [of line "[]" "text"] assms(1) by (simp add: splitlines_def)
  then have "newline_chr \<notin> set (strip line)"
    by (auto simp: strip_def rstrip_def dest!: set_dropWhileD)
  moreover have "set f \<subseteq> set (strip line)"
    by (rule split_on_subset [OF assms(2) [unfolded columns_def]])
  moreover have "CHR '','' \<notin> set f"
    by (rule split_on_pieces [OF assms(2) [unfolded columns_def]])
  ultimately show ?thesis by (auto simp: field_ok_def)
qed

lemma side_field [simp]: "field_ok (side_str x)"
  by (cases x) (simp_all add: field_ok_def newline_chr_def char_of_def)

lemma venue_field [simp]: "field_ok archive_venue"
  by (simp add: field_ok_def archive_venue_def newline_chr_def char_of_def)

lemma agg_match_fields:
  assumes "agg_matches u line t" and "line \<in> set (splitlines text)"
  shows "field_ok (a_price t)" "field_ok (a_quantity t)"
  using assms column_field_ok [OF assms(2)] by (auto simp: agg_matches_def Let_def)

lemma kline_match_fields:
  assumes "kline_matches u line b" and "line \<in> set (splitlines text)"
  shows "\<forall>f\<in>{k_open b, k_high b, k_low b, k_close b, k_volume b, k_quote_volume b, k_taker_buy_base_volume b}. field_ok f"
proof -
  have "set [k_open b, k_high b, k_low b, k_close b, k_volume b] \<subseteq> set (columns line)"
    using assms(1) set_take_subset [of 5] set_drop_subset [of 1] by (metis kline_matches_def subset_trans)
  moreover have "{k_quote_volume b, k_taker_buy_base_volume b} \<subseteq> set (columns line)"
    using assms(1) by (auto simp: kline_matches_def Let_def)
  ultimately show ?thesis using column_field_ok [OF assms(2)] by auto
qed

lemma parsed_rows_from:
  "parse_agg_trades lines = Inr ts \<Longrightarrow> t \<in> set ts \<Longrightarrow> \<exists>u line. line \<in> set lines \<and> agg_matches u line t"
  "parse_klines lines = Inr bs \<Longrightarrow> b \<in> set bs \<Longrightarrow> \<exists>u line. line \<in> set lines \<and> kline_matches u line b"
  by (fastforce dest!: agg_rows_match list_all2_right) (fastforce dest!: kline_rows_match list_all2_right)

text \<open>The keys of a merged dictionary.\<close>

lemma map_of_merge: "map_of (merge_dicts d e) k = (case map_of (rev e) k of Some v \<Rightarrow> Some v | None \<Rightarrow> map_of d k)"
proof -
  have "map_of (foldl (\<lambda>acc kv. dict_set (fst kv) (snd kv) acc) d e) k =
      (case map_of (rev e) k of Some v \<Rightarrow> Some v | None \<Rightarrow> map_of d k)"
    by (induction e arbitrary: d) (auto simp: map_add_def split: option.splits)
  then show ?thesis by (simp add: merge_dicts_def)
qed

text \<open>One published file of one row, as a world.\<close>

definition example_item :: work_item where
  "example_item = item_of (daily_file HOT example_pair (Date 2024 3 1))"

definition example_world :: world where
  "example_world = \<lparr> fetch = (\<lambda>u. if u = item_checksum_url example_item
       then Inr (replicate 64 (CHR ''a'') @ ''  '' @ item_filename example_item) else Inr ''zip''),
     utf8 = Inr, zip_members = (\<lambda>b. Inr [(''f.csv'', example_agg_line)]), gz = (\<lambda>s. s),
     sha = (\<lambda>b. replicate 64 (CHR ''a'')) \<rparr>"

definition missing_world :: world where
  "missing_world = example_world\<lparr> fetch := (\<lambda>u. Inl (Exn ArchiveNotFound u)) \<rparr>"

lemma missing_load: "load missing_world item = ([], Inr (outcome_skipped (w_archive_key item) (item_checksum_url item)))"
  by (simp add: load_def load_unguarded_def missing_world_def)

lemma example_agg_parsed: "\<exists>t. parse_agg_trades [example_agg_line] = Inr [t]"
  by (auto simp: parse_agg_trades_def example_columns agg_row_def py_int_def example_ints normalise_def unit_of_def
      millis_range_def micros_range_def epoch_floor_s_def epoch_ceil_s_def side_from_buyer_maker_def)

lemma example_lines: "splitlines example_agg_line = [example_agg_line]"
  by (simp add: splitlines_def example_agg_line_def is_line_end_def Let_def)

lemma example_load: "\<exists>body. load example_world example_item = ([(w_staging_key example_item, body)],
   Inr (outcome_done (w_archive_key example_item) (replicate 64 (CHR ''a'')) 1))"
proof -
  obtain t where t: "parse_agg_trades [example_agg_line] = Inr [t]" using example_agg_parsed by blast
  have key: "w_archive_key example_item = archive_key (daily_file HOT example_pair (Date 2024 3 1))"
    by (simp add: example_item_def item_of_def)
  have name: "item_filename example_item = filename (daily_file HOT example_pair (Date 2024 3 1))"
    unfolding example_item_def by (rule item_filename_of) (simp_all add: example_pair_def period_no_slash)
  have "\<not> is_space ch" if "ch \<in> set (day_period d)" for ch d
  proof -
    have "ch = CHR ''-'' \<or> (\<exists>e<10. ch = digit_chr e)"
      using that by (auto simp: day_period_def dest: nat_str_digits pad_digits)
    then show ?thesis using digit_not_space by (auto simp: is_space_def)
  qed
  then have ns: "\<forall>ch\<in>set (item_filename example_item). \<not> is_space ch" and ne: "item_filename example_item \<noteq> []"
    unfolding name by (auto simp: filename_def example_pair_def) (auto simp: is_space_def)
  have v: "verify (\<lambda>b. replicate 64 (CHR ''a'')) ''zip'' (replicate 64 (CHR ''a'') @ ''  '' @ item_filename example_item)
      (item_filename example_item) = Inr (replicate 64 (CHR ''a''))"
    using checked_sum [of "\<lambda>b. replicate 64 (CHR ''a'')" "''zip''" "item_filename example_item" "''  ''" "[]"] ns ne
    by (simp add: hex_chr_def)
  have u: "item_url example_item \<noteq> item_checksum_url example_item" by (simp add: item_checksum_url_def)
  have "stage example_world example_item [example_agg_line] = Inr (trades_csv_gz (\<lambda>s. s) ''BTC-USD'' ''BTCUSDT'' [t], 1)"
    using t by (simp add: stage_def example_item_def item_of_def example_world_def example_pair_def daily_file_def)
  then show ?thesis
    using v u by (simp add: load_def load_unguarded_def Let_def example_world_def sole_member_lines_def example_lines)
qed

subsection \<open>Properties\<close>



text \<open>
  Property C34. What a bad archive file comes to: a load either returns an outcome for its file,
  DONE exactly when something was staged and otherwise FAILED or SKIPPED_NO_DATA, or it raises,
  having staged nothing, an exception of a library call (the fetches, a decode, the zip reader)
  that is neither ArchiveNotFound nor one of the data errors. Everything the loader's own checks and
  parsers refuse becomes an outcome; a library exception outside the list, such as the zlib.error
  of a damaged member, is raised out of the loader although the file is bad.
\<close>

theorem load_returns_or_library_raised:
  "(case load w item of
      (puts, Inr oc) \<Rightarrow> oc_archive_key oc = w_archive_key item \<and>
        (if puts \<noteq> [] then oc_status oc = DONE else oc_status oc = FAILED \<or> oc_status oc = SKIPPED_NO_DATA)
    | (puts, Inl e) \<Rightarrow> puts = [] \<and> library_error w item e \<and> exn_kind e \<noteq> ArchiveNotFound \<and> \<not> is_data_error e) \<and>
   (\<forall>raw text blob digest e. fetch w (item_checksum_url item) = Inr raw \<and> utf8 w raw = Inr text \<and>
      fetch w (item_url item) = Inr blob \<and> verify (sha w) blob text (item_filename item) = Inr digest \<and>
      zip_members w blob = Inl e \<and> exn_kind e \<noteq> ArchiveNotFound \<and> \<not> is_data_error e \<longrightarrow> load w item = ([], Inl e))"
proof
  obtain puts r where l: "load w item = (puts, r)" by (cases "load w item")
  then show "case load w item of
      (puts, Inr oc) \<Rightarrow> oc_archive_key oc = w_archive_key item \<and>
        (if puts \<noteq> [] then oc_status oc = DONE else oc_status oc = FAILED \<or> oc_status oc = SKIPPED_NO_DATA)
    | (puts, Inl e) \<Rightarrow> puts = [] \<and> library_error w item e \<and> exn_kind e \<noteq> ArchiveNotFound \<and> \<not> is_data_error e"
  proof (cases rule: load_cases)
    case (staged oc)
    from load_unguarded_Inr [OF staged(1)] l staged(2) show ?thesis by (auto simp: outcome_done_def)
  next
    case (refused e)
    with load_unguarded_error [OF refused(1)] l show ?thesis
      by (auto simp: outcome_skipped_def outcome_failed_def)
  qed
  show "\<forall>raw text blob digest e. fetch w (item_checksum_url item) = Inr raw \<and> utf8 w raw = Inr text \<and>
      fetch w (item_url item) = Inr blob \<and> verify (sha w) blob text (item_filename item) = Inr digest \<and>
      zip_members w blob = Inl e \<and> exn_kind e \<noteq> ArchiveNotFound \<and> \<not> is_data_error e \<longrightarrow> load w item = ([], Inl e)"
    by (auto simp: load_def load_unguarded_def Let_def sole_member_lines_def)
qed

text \<open>The example's file with a member that does not inflate.\<close>

definition damaged_world :: world where
  "damaged_world = example_world\<lparr> zip_members := (\<lambda>b. Inl (Exn OtherError ''zlib.error'')) \<rparr>"

theorem load_returns_or_library_raised_witness:
  "load damaged_world example_item = ([], Inl (Exn OtherError ''zlib.error'')) \<and>
   (\<exists>oc. load missing_world example_item = ([], Inr oc) \<and> (oc_status oc = FAILED \<or> oc_status oc = SKIPPED_NO_DATA))"
proof
  obtain body where b: "load example_world example_item = ([(w_staging_key example_item, body)],
     Inr (outcome_done (w_archive_key example_item) (replicate 64 (CHR ''a'')) 1))"
    using example_load by blast
  then obtain raw ct blob digest where "fetch example_world (item_checksum_url example_item) = Inr raw"
    "utf8 example_world raw = Inr ct" "fetch example_world (item_url example_item) = Inr blob"
    "verify (sha example_world) blob ct (item_filename example_item) = Inr digest"
    by (cases rule: load_cases) (use load_unguarded_Inr in blast)+
  then show "load damaged_world example_item = ([], Inl (Exn OtherError ''zlib.error''))"
    by (intro load_returns_or_library_raised [THEN conjunct2, rule_format, of damaged_world example_item raw ct blob digest])
      (simp add: damaged_world_def is_data_error_def)
  show "\<exists>oc. load missing_world example_item = ([], Inr oc) \<and> (oc_status oc = FAILED \<or> oc_status oc = SKIPPED_NO_DATA)"
    using load_returns_or_library_raised [of missing_world example_item] missing_load [of example_item] by simp
qed

text \<open>
  Staging is read back as it was parsed: splitting the text of a staging body at
  newlines and commas gives exactly the columns written, in order, for both tiers, when the
  ids of the instrument and the symbol hold neither, whatever the archive file held.
\<close>

theorem staging_rows_readable:
  assumes "parse_agg_trades (splitlines text) = Inr ts" and "parse_klines (splitlines text') = Inr bars"
    and "field_ok i" and "field_ok s"
  shows "read_rows (join_rows (map (trade_staging_row i s) ts)) = map (trade_staging_row i s) ts \<and>
    read_rows (join_rows (map (kline_staging_row i) bars)) = map (kline_staging_row i) bars"
proof
  have "\<forall>f\<in>set (trade_staging_row i s t). field_ok f" if "t \<in> set ts" for t
  proof -
    obtain u line where line: "line \<in> set (splitlines text)" "agg_matches u line t"
      using parsed_rows_from(1) [OF assms(1) \<open>t \<in> set ts\<close>] by blast
    from agg_match_fields [OF line(2,1)] assms(3,4) show ?thesis by (simp add: trade_staging_row_def)
  qed
  then show "read_rows (join_rows (map (trade_staging_row i s) ts)) = map (trade_staging_row i s) ts"
    by (intro read_join_rows) (auto simp: trade_staging_row_def)
  have "\<forall>f\<in>set (kline_staging_row i b). field_ok f" if "b \<in> set bars" for b
  proof -
    obtain u line where line: "line \<in> set (splitlines text')" "kline_matches u line b"
      using parsed_rows_from(2) [OF assms(2) \<open>b \<in> set bars\<close>] by blast
    from kline_match_fields [OF line(2,1)] assms(3) show ?thesis by (simp add: kline_staging_row_def)
  qed
  then show "read_rows (join_rows (map (kline_staging_row i) bars)) = map (kline_staging_row i) bars"
    by (intro read_join_rows) (auto simp: kline_staging_row_def)
qed

theorem staging_rows_readable_witness:
  "\<exists>t. parse_agg_trades [example_agg_line] = Inr [t] \<and>
     read_rows (join_rows [trade_staging_row ''BTC-USD'' ''BTCUSDT'' t]) = [trade_staging_row ''BTC-USD'' ''BTCUSDT'' t]"
proof -
  obtain t where t: "parse_agg_trades (splitlines example_agg_line) = Inr [t]"
    using example_agg_parsed example_lines by auto
  have k: "parse_klines (splitlines []) = Inr []" by (simp add: splitlines_def parse_klines_def)
  have "field_ok ''BTC-USD''" "field_ok ''BTCUSDT''" by (simp_all add: field_ok_def newline_chr_def char_of_def)
  from staging_rows_readable [OF t k this] t show ?thesis by (auto simp: example_lines)
qed

text \<open>
  What the Lambda hands back is a complete manifest row: it reads as the very
  work item of the event, and carries the outcome's status, digest, row count and error.
\<close>

theorem handler_answers_complete_row:
  assumes "handler w delete_prefix event = (puts, Inr row)" and "map_of event ''action'' \<noteq> Some ''clear''"
  shows "\<exists>item oc. item_from_json event = Inr item \<and> load w item = (puts, Inr oc) \<and> item_from_json row = Inr item \<and>
    map_of row ''status'' = Some (status_str (oc_status oc)) \<and> map_of row ''sha256_actual'' = Some (oc_sha256_actual oc) \<and>
    map_of row ''row_count'' = Some (nat_str (oc_row_count oc)) \<and> map_of row ''error'' = Some (oc_error oc)"
proof -
  obtain item oc where io: "item_from_json event = Inr item" "load w item = (puts, Inr oc)"
    and row: "row = merge_dicts (item_to_json item) (outcome_to_json oc)"
    using assms by (auto simp: handler_def res_simps split: sum.splits prod.splits if_splits)
  have "oc_archive_key oc = w_archive_key item"
    using io(2)
  proof (cases rule: load_cases)
    case (staged oc')
    with load_unguarded_Inr [OF staged(1)] show ?thesis by (auto simp: outcome_done_def)
  next
    case (refused e)
    then show ?thesis by (auto simp: outcome_skipped_def outcome_failed_def split: if_splits)
  qed
  then have "item_from_json row = Inr item"
    by (simp add: row item_from_json_def dict_item_def map_of_merge outcome_to_json_def item_to_json_def)
  with io show ?thesis by (auto simp: row map_of_merge outcome_to_json_def)
qed

theorem handler_answers_complete_row_witness:
  "\<exists>row. handler missing_world (\<lambda>p. 0) (item_to_json example_item @ [(''bucket'', ''b'')]) = ([], Inr row) \<and>
     map_of row ''status'' = Some ''SKIPPED_NO_DATA''"
proof -
  let ?event = "item_to_json example_item @ [(''bucket'', ''b'')]"
  have item: "item_from_json ?event = Inr example_item"
    by (simp add: item_from_json_def item_to_json_def dict_item_def)
  have "map_of ?event ''bucket'' = Some ''b''" "map_of ?event ''action'' \<noteq> Some ''clear''"
    by (simp_all add: item_to_json_def)
  moreover from this obtain row where row: "handler missing_world (\<lambda>p. 0) ?event = ([], Inr row)"
    using item by (simp add: handler_def dict_item_def missing_load)
  ultimately show ?thesis
    using handler_answers_complete_row [OF row] item by (auto simp: missing_load outcome_skipped_def)
qed

end
