(* ===== verification/Perp.thy ===== *)
theory Perp
  imports Json
begin

text \<open>
  awsnative/enrichment/perp.py: the perpetual context of one poll. A decoded payload is a json
  value, a dict of payloads an association list, and every conversion that Python may refuse is
  a result. MISSING IS EMPTY: what an endpoint did not answer stays the empty text.
\<close>

definition grid_minutes :: int where "grid_minutes = 5"

definition micros_per_milli :: int where "micros_per_milli = 1000"

definition grid_us :: int where "grid_us = grid_minutes * 60 * 1000000"

definition ratio_fields :: "(string \<times> string \<times> string \<times> string) list" where
  "ratio_fields =
     [(''toptrader_accounts'', ''longShortRatio'', ''longAccount'', ''shortAccount''),
      (''toptrader_positions'', ''longShortRatio'', ''longAccount'', ''shortAccount''),
      (''global_accounts'', ''longShortRatio'', ''longAccount'', ''shortAccount''),
      (''taker_volume'', ''buySellRatio'', ''buyVol'', ''sellVol'')]"

definition ratio_families :: "string list" where
  "ratio_families = map fst ratio_fields"

record ratio_observation =
  ro_ratio :: string
  ro_long :: string
  ro_short :: string
  ro_ts_us :: int

definition absent :: ratio_observation where
  "absent = \<lparr> ro_ratio = [], ro_long = [], ro_short = [], ro_ts_us = 0 \<rparr>"

definition from_payload :: "string \<Rightarrow> json \<Rightarrow> ratio_observation res" where
  "from_payload family payload = rbind (dict_item ratio_fields family) (\<lambda>(rf, lf, sf).
     rbind (json_item payload rf) (\<lambda>ratio. rbind (json_item payload lf) (\<lambda>long.
     rbind (json_item payload sf) (\<lambda>short. rbind (json_item payload ''timestamp'') (\<lambda>t.
     rbind (json_int t) (\<lambda>ms.
       Inr \<lparr> ro_ratio = json_str ratio, ro_long = json_str long, ro_short = json_str short,
         ro_ts_us = ms * micros_per_milli \<rparr>))))))"

record perp_context =
  pc_instrument_id :: string
  pc_venue_symbol :: string
  pc_poll_ts_us :: int
  pc_snapshot_ts_us :: int
  pc_mark_price :: string
  pc_index_price :: string
  pc_estimated_settle_price :: string
  pc_last_funding_rate :: string
  pc_interest_rate :: string
  pc_next_funding_time_us :: int
  pc_premium_index_ts_us :: int
  pc_open_interest :: string
  pc_open_interest_ts_us :: int
  pc_ratios :: "(string \<times> ratio_observation) list"

text \<open>The four observations are the attributes named by RATIO_FAMILIES, here a list of pairs.\<close>

definition ratio_cells :: "string \<times> ratio_observation \<Rightarrow> (string, string) dict" where
  "ratio_cells fo = (case fo of (f, ob) \<Rightarrow>
     [(f @ ''_ratio'', ro_ratio ob), (f @ ''_long'', ro_long ob), (f @ ''_short'', ro_short ob),
      (f @ ''_ts_us'', int_str (ro_ts_us ob))])"

definition perp_to_json :: "perp_context \<Rightarrow> (string, string) dict" where
  "perp_to_json r =
     [(''instrument_id'', pc_instrument_id r), (''venue_symbol'', pc_venue_symbol r), (''venue'', ''binance''),
      (''poll_ts_us'', int_str (pc_poll_ts_us r)), (''snapshot_ts_us'', int_str (pc_snapshot_ts_us r)),
      (''mark_price'', pc_mark_price r), (''index_price'', pc_index_price r),
      (''estimated_settle_price'', pc_estimated_settle_price r), (''last_funding_rate'', pc_last_funding_rate r),
      (''interest_rate'', pc_interest_rate r), (''next_funding_time_us'', int_str (pc_next_funding_time_us r)),
      (''premium_index_ts_us'', int_str (pc_premium_index_ts_us r)), (''open_interest'', pc_open_interest r),
      (''open_interest_ts_us'', int_str (pc_open_interest_ts_us r))]
     @ concat (map ratio_cells (pc_ratios r))"

definition floor_to_grid_us :: "int \<Rightarrow> int res" where
  "floor_to_grid_us poll_ts_us =
     (if poll_ts_us \<le> 0
      then Inl (Exn ValueError (''poll_ts_us must be a positive instant, got '' @ int_str poll_ts_us))
      else Inr (poll_ts_us - poll_ts_us mod grid_us))"

text \<open>The dict comprehension: the condition is evaluated first, a later row of a symbol wins.\<close>

fun index_rows :: "string list \<Rightarrow> (string, json) dict \<Rightarrow> json list \<Rightarrow> (string, json) dict res" where
  "index_rows wanted d [] = Inr d"
| "index_rows wanted d (row # rows) = rbind (json_item row ''symbol'') (\<lambda>s.
     index_rows wanted (if json_str s \<in> set wanted then dict_set (json_str s) row d else d) rows)"

definition index_by_symbol :: "json \<Rightarrow> string list \<Rightarrow> (string, json) dict res" where
  "index_by_symbol payload wanted = rbind (json_iter payload) (index_rows wanted [])"

text \<open>payload[-1] of a payload that is not empty.\<close>

fun json_last :: "json \<Rightarrow> json res" where
  "json_last (JArr xs) = (if xs = [] then Inl (Exn IndexError ''list index out of range'') else Inr (last xs))"
| "json_last (JStr s) = (if s = [] then Inl (Exn IndexError ''string index out of range'') else Inr (JStr [last s]))"
| "json_last (JObj d) = Inl (Exn KeyError ''-1'')"
| "json_last j = Inl (Exn TypeError (quoted_type j @ '' object is not subscriptable''))"

definition latest :: "string \<Rightarrow> json option \<Rightarrow> ratio_observation res" where
  "latest family payload = (case payload of
     None \<Rightarrow> Inr absent
   | Some p \<Rightarrow> if json_true p then rbind (json_last p) (from_payload family) else Inr absent)"

definition millis_to_micros :: "json \<Rightarrow> int res" where
  "millis_to_micros value = (if value = JNull \<or> value = JStr [] then Inr 0
     else rbind (json_int value) (\<lambda>ms. Inr (ms * micros_per_milli)))"

definition get_text :: "json \<Rightarrow> string \<Rightarrow> string res" where
  "get_text j key = rbind (json_get j key (JStr [])) (\<lambda>v. Inr (json_str v))"

definition get_micros :: "json \<Rightarrow> string \<Rightarrow> int res" where
  "get_micros j key = rbind (json_get j key JNull) millis_to_micros"

definition lookup_or :: "'a \<Rightarrow> (string, 'a) dict \<Rightarrow> string \<Rightarrow> 'a" where
  "lookup_or dflt d k = (case map_of d k of Some v \<Rightarrow> v | None \<Rightarrow> dflt)"

text \<open>The body of the loop for an instrument premiumIndex answered for.\<close>

definition build_row ::
  "int \<Rightarrow> int \<Rightarrow> (string, json) dict \<Rightarrow> (string, (string, json) dict) dict
    \<Rightarrow> string \<times> string \<Rightarrow> json \<Rightarrow> perp_context res" where
  "build_row poll snap open_interest ratios p premium =
     (let interest = lookup_or (JObj []) open_interest (snd p);
          family_payloads = lookup_or [] ratios (snd p)
      in rbind (get_text premium ''markPrice'') (\<lambda>mark.
         rbind (get_text premium ''indexPrice'') (\<lambda>ix.
         rbind (get_text premium ''estimatedSettlePrice'') (\<lambda>settle.
         rbind (get_text premium ''lastFundingRate'') (\<lambda>funding.
         rbind (get_text premium ''interestRate'') (\<lambda>rate.
         rbind (get_micros premium ''nextFundingTime'') (\<lambda>nxt.
         rbind (get_micros premium ''time'') (\<lambda>pts.
         rbind (get_text interest ''openInterest'') (\<lambda>oi.
         rbind (get_micros interest ''time'') (\<lambda>oits.
         rbind (rmap (\<lambda>f. rbind (latest f (map_of family_payloads f)) (\<lambda>ob. Inr (f, ob))) ratio_families) (\<lambda>obs.
           Inr \<lparr> pc_instrument_id = fst p, pc_venue_symbol = snd p, pc_poll_ts_us = poll, pc_snapshot_ts_us = snap,
             pc_mark_price = mark, pc_index_price = ix, pc_estimated_settle_price = settle,
             pc_last_funding_rate = funding, pc_interest_rate = rate, pc_next_funding_time_us = nxt,
             pc_premium_index_ts_us = pts, pc_open_interest = oi, pc_open_interest_ts_us = oits,
             pc_ratios = obs \<rparr>)))))))))))"

fun collect_pairs ::
  "(string, json) dict \<Rightarrow> (string \<times> string \<Rightarrow> json \<Rightarrow> perp_context res) \<Rightarrow> (string \<times> string) list
    \<Rightarrow> perp_context list res" where
  "collect_pairs indexed row [] = Inr []"
| "collect_pairs indexed row (p # ps) = (case map_of indexed (snd p) of
     None \<Rightarrow> collect_pairs indexed row ps
   | Some premium \<Rightarrow> rbind (row p premium) (\<lambda>r.
       rbind (collect_pairs indexed row ps) (\<lambda>rs. Inr (r # rs))))"

definition build_rows ::
  "(string \<times> string) list \<Rightarrow> json \<Rightarrow> (string, json) dict \<Rightarrow> (string, (string, json) dict) dict \<Rightarrow> int
    \<Rightarrow> perp_context list res" where
  "build_rows pairs premium_index open_interest ratios poll_ts_us =
     rbind (floor_to_grid_us poll_ts_us) (\<lambda>snap.
     rbind (index_by_symbol premium_index (map snd pairs)) (\<lambda>indexed.
       collect_pairs indexed (build_row poll_ts_us snap open_interest ratios) pairs))"

subsection \<open>Well-formed answers\<close>

text \<open>The symbol of a row of the market-wide answer, and the symbols it answers for.\<close>

definition row_symbol :: "json \<Rightarrow> string option" where
  "row_symbol row = (case json_item row ''symbol'' of Inr v \<Rightarrow> Some (json_str v) | Inl _ \<Rightarrow> None)"

definition answered :: "json list \<Rightarrow> string \<Rightarrow> bool" where
  "answered rows s \<longleftrightarrow> Some s \<in> row_symbol ` set rows"

fun is_time :: "json \<Rightarrow> bool" where
  "is_time JNull = True"
| "is_time (JInt i) = True"
| "is_time (JStr s) = (s = [])"
| "is_time _ = False"

definition times_ok :: "string list \<Rightarrow> json \<Rightarrow> bool" where
  "times_ok keys row \<longleftrightarrow> (case row of
     JObj d \<Rightarrow> (\<forall>k\<in>set keys. case map_of d k of None \<Rightarrow> True | Some v \<Rightarrow> is_time v) | _ \<Rightarrow> False)"

definition market_row_ok :: "json \<Rightarrow> bool" where
  "market_row_ok row \<longleftrightarrow> row_symbol row \<noteq> None \<and> times_ok [''nextFundingTime'', ''time''] row"

definition ratio_payload_ok :: "string \<Rightarrow> json \<Rightarrow> bool" where
  "ratio_payload_ok f p \<longleftrightarrow> (case latest f (Some p) of Inr ob \<Rightarrow> True | Inl e \<Rightarrow> False)"

lemma get_micros_ok: "times_ok ks row \<Longrightarrow> k \<in> set ks \<Longrightarrow> \<exists>i. get_micros row k = Inr i"
proof -
  assume "times_ok ks row" and k: "k \<in> set ks"
  then obtain d where row: "row = JObj d" and ok: "case map_of d k of None \<Rightarrow> True | Some v \<Rightarrow> is_time v"
    by (auto simp: times_ok_def split: json.splits)
  have time: "is_time v \<Longrightarrow> \<exists>i. millis_to_micros v = Inr i" for v
    by (cases v) (auto simp: millis_to_micros_def)
  have "is_time JNull" by simp
  with ok time show ?thesis by (auto simp: row get_micros_def split: option.splits)
qed

lemma get_text_ok: "times_ok ks row \<Longrightarrow> \<exists>s. get_text row k = Inr s"
  by (auto simp: times_ok_def get_text_def split: json.splits)

lemma index_rows_keys:
  "(\<And>row. row \<in> set rows \<Longrightarrow> row_symbol row \<noteq> None) \<Longrightarrow> \<exists>d'. index_rows wanted d rows = Inr d' \<and>
     dom (map_of d') = dom (map_of d) \<union> {s \<in> set wanted. answered rows s} \<and>
     (\<forall>s v. map_of d' s = Some v \<longrightarrow> v \<in> set rows \<or> map_of d s = Some v)"
proof (induction rows arbitrary: d)
  case (Cons row rows)
  then obtain v where v: "json_item row ''symbol'' = Inr v"
    by (fastforce simp: row_symbol_def split: sum.splits)
  define d1 where "d1 = (if json_str v \<in> set wanted then dict_set (json_str v) row d else d)"
  from Cons.IH [of d1] Cons.prems obtain d' where d': "index_rows wanted d1 rows = Inr d'"
    "dom (map_of d') = dom (map_of d1) \<union> {s \<in> set wanted. answered rows s}"
    "\<forall>s v. map_of d' s = Some v \<longrightarrow> v \<in> set rows \<or> map_of d1 s = Some v" by auto
  have "answered (row # rows) s \<longleftrightarrow> s = json_str v \<or> answered rows s" for s
    by (auto simp: answered_def row_symbol_def v)
  with d' show ?case
    by (auto simp: v d1_def split: if_splits)
qed (auto simp: answered_def)

lemma collect_pairs_Inr:
  assumes "\<And>p premium. p \<in> set ps \<Longrightarrow> map_of ix (snd p) = Some premium \<Longrightarrow> \<exists>r. row p premium = Inr r \<and> key r = p"
  shows "\<exists>rs. collect_pairs ix row ps = Inr rs \<and> map key rs = filter (\<lambda>p. map_of ix (snd p) \<noteq> None) ps"
  using assms
proof (induction ps)
  case (Cons p ps)
  then obtain rs where "collect_pairs ix row ps = Inr rs \<and> map key rs = filter (\<lambda>p. map_of ix (snd p) \<noteq> None) ps"
    by auto
  with Cons.prems [of p] show ?case by (cases "map_of ix (snd p)") auto
qed simp

lemma collect_pairs_member:
  "collect_pairs ix row ps = Inr rs \<Longrightarrow> r \<in> set rs \<Longrightarrow> \<exists>p\<in>set ps. \<exists>premium. map_of ix (snd p) = Some premium \<and> row p premium = Inr r"
  by (induction ps arbitrary: rs) (auto simp: res_simps split: option.splits)

definition row_key :: "perp_context \<Rightarrow> string \<times> string" where
  "row_key r = (pc_instrument_id r, pc_venue_symbol r)"

lemma floor_to_grid_Inr:
  "floor_to_grid_us t = Inr g \<longleftrightarrow> 0 < t \<and> g = t - t mod grid_us"
  by (auto simp: floor_to_grid_us_def)

lemma grid_pos: "0 < grid_us"
  by (simp add: grid_us_def grid_minutes_def)

lemma grid_floor: "(t - t mod grid_us) mod grid_us = 0" "t - t mod grid_us \<le> t" "t < t - t mod grid_us + grid_us"
  using grid_pos pos_mod_bound [of grid_us t] pos_mod_sign [of grid_us t]
  by (simp_all add: mod_diff_eq [symmetric])

lemma build_row_fields:
  assumes "build_row poll snap oi ratios p premium = Inr r"
  shows "row_key r = p \<and> pc_poll_ts_us r = poll \<and> pc_snapshot_ts_us r = snap \<and>
    (\<forall>f\<in>set ratio_families. \<exists>ob. latest f (map_of (lookup_or [] ratios (snd p)) f) = Inr ob \<and> map_of (pc_ratios r) f = Some ob) \<and>
    get_text (lookup_or (JObj []) oi (snd p)) ''openInterest'' = Inr (pc_open_interest r) \<and>
    get_micros (lookup_or (JObj []) oi (snd p)) ''time'' = Inr (pc_open_interest_ts_us r)"
proof -
  let ?g = "\<lambda>f. rbind (latest f (map_of (lookup_or [] ratios (snd p)) f)) (\<lambda>ob. Inr (f, ob))"
  have obs: "rmap ?g fs = Inr obs \<Longrightarrow> f \<in> set fs \<Longrightarrow>
    \<exists>ob. latest f (map_of (lookup_or [] ratios (snd p)) f) = Inr ob \<and> map_of obs f = Some ob" for fs obs f
    by (induction fs arbitrary: obs) (auto simp: res_simps)
  from assms obs show ?thesis
    by (cases p) (auto simp: build_row_def Let_def res_simps row_key_def)
qed

lemma build_row_returns:
  assumes "market_row_ok premium" and "times_ok [''time''] (lookup_or (JObj []) oi (snd p))"
    and "\<And>f pl. map_of (lookup_or [] ratios (snd p)) f = Some pl \<Longrightarrow> ratio_payload_ok f pl"
  shows "\<exists>r. build_row poll snap oi ratios p premium = Inr r"
proof -
  have m: "times_ok [''nextFundingTime'', ''time''] premium" using assms(1) by (simp add: market_row_ok_def)
  have "\<exists>ob. latest f (map_of (lookup_or [] ratios (snd p)) f) = Inr ob" for f
    using assms(3) [of f] by (cases "map_of (lookup_or [] ratios (snd p)) f")
      (auto simp: ratio_payload_ok_def latest_def split: sum.splits if_splits)
  then have "\<exists>obs. rmap (\<lambda>f. rbind (latest f (map_of (lookup_or [] ratios (snd p)) f)) (\<lambda>ob. Inr (f, ob))) ratio_families = Inr obs"
    unfolding rmap_Inr_exists by (fastforce simp: res_simps)
  then obtain obs where obs: "rmap (\<lambda>f. rbind (latest f (map_of (lookup_or [] ratios (snd p)) f)) (\<lambda>ob. Inr (f, ob))) ratio_families = Inr obs" ..
  from get_text_ok [OF m] obtain tx where tx: "\<And>k. get_text premium k = Inr (tx k)" by metis
  from get_text_ok [OF assms(2)] obtain ti where ti: "\<And>k. get_text (lookup_or (JObj []) oi (snd p)) k = Inr (ti k)" by metis
  obtain i1 i2 i3 where "get_micros premium ''nextFundingTime'' = Inr i1" "get_micros premium ''time'' = Inr i2"
    "get_micros (lookup_or (JObj []) oi (snd p)) ''time'' = Inr i3"
    using get_micros_ok [OF m] get_micros_ok [OF assms(2)] by fastforce
  then show ?thesis unfolding build_row_def Let_def by (simp add: tx ti obs)
qed

lemma build_rows_answered:
  assumes "0 < poll" and "json_iter premium = Inr rows" and "\<forall>row\<in>set rows. market_row_ok row"
    and "\<forall>(s, interest)\<in>set oi. times_ok [''time''] interest"
    and "\<forall>(s, fams)\<in>set ratios. \<forall>(f, pl)\<in>set fams. ratio_payload_ok f pl"
  shows "\<exists>rs. build_rows pairs premium oi ratios poll = Inr rs \<and>
    map row_key rs = filter (\<lambda>p. answered rows (snd p)) pairs \<and>
    (\<forall>r\<in>set rs. pc_poll_ts_us r = poll \<and> pc_snapshot_ts_us r mod grid_us = 0 \<and>
       pc_snapshot_ts_us r \<le> poll \<and> poll < pc_snapshot_ts_us r + grid_us)"
proof -
  let ?snap = "poll - poll mod grid_us"
  have "row \<in> set rows \<Longrightarrow> row_symbol row \<noteq> None" for row
    using assms(3) by (auto simp: market_row_ok_def)
  from index_rows_keys [where wanted = "map snd pairs" and d = "[]" and rows = rows, OF this] obtain ix where
    ix: "index_rows (map snd pairs) [] rows = Inr ix" "dom (map_of ix) = {s \<in> snd ` set pairs. answered rows s}"
      "\<And>s v. map_of ix s = Some v \<Longrightarrow> v \<in> set rows" by auto
  have ok: "times_ok [''time''] (lookup_or (JObj []) oi s)" for s
  proof (cases "map_of oi s")
    case (Some v)
    then show ?thesis using assms(4) by (auto simp: lookup_or_def dest: map_of_SomeD)
  qed (simp add: lookup_or_def times_ok_def)
  have pl: "map_of (lookup_or [] ratios s) f = Some q \<Longrightarrow> ratio_payload_ok f q" for s f q
    using assms(5) by (fastforce simp: lookup_or_def dest: map_of_SomeD split: option.splits)
  have "\<exists>r. build_row poll ?snap oi ratios p premium' = Inr r \<and> row_key r = p"
    if "p \<in> set pairs" "map_of ix (snd p) = Some premium'" for p premium'
  proof -
    have "market_row_ok premium'" using assms(3) ix(3) [OF that(2)] by blast
    then have "\<exists>r. build_row poll ?snap oi ratios p premium' = Inr r"
      by (rule build_row_returns [OF _ ok]) (rule pl)
    then show ?thesis using build_row_fields by blast
  qed
  then have "\<exists>rs. collect_pairs ix (build_row poll ?snap oi ratios) pairs = Inr rs \<and>
      map row_key rs = filter (\<lambda>p. map_of ix (snd p) \<noteq> None) pairs"
    by (rule collect_pairs_Inr)
  then obtain rs where
    rs: "collect_pairs ix (build_row poll ?snap oi ratios) pairs = Inr rs"
      "map row_key rs = filter (\<lambda>p. map_of ix (snd p) \<noteq> None) pairs" by blast
  have "filter (\<lambda>p. map_of ix (snd p) \<noteq> None) pairs = filter (\<lambda>p. answered rows (snd p)) pairs"
    using ix(2) by (intro filter_cong) (auto simp: domIff set_eq_iff)
  moreover have "pc_poll_ts_us r = poll \<and> pc_snapshot_ts_us r = ?snap" if "r \<in> set rs" for r
    using collect_pairs_member [OF rs(1) that] build_row_fields by blast
  ultimately show ?thesis
    using rs assms(1,2) ix(1) grid_floor by (auto simp: build_rows_def floor_to_grid_us_def index_by_symbol_def)
qed

subsection \<open>Properties\<close>

text \<open>A poll of two instruments: one answered for in full, one premiumIndex does not know.\<close>

definition example_ratio :: "int \<Rightarrow> json" where
  "example_ratio t = JObj [(''longShortRatio'', JStr ''2''), (''longAccount'', JStr ''0.66''), (''shortAccount'', JStr ''0.33''),
     (''timestamp'', JInt t)]"

definition example_premium :: json where
  "example_premium = JObj [(''symbol'', JStr ''BTCUSDT''), (''markPrice'', JStr ''64000.1''), (''time'', JInt 1786752000123)]"

definition example_ratios :: "(string, (string, json) dict) dict" where
  "example_ratios = [(''BTCUSDT'', [(''global_accounts'', JArr [example_ratio 1786751700000, example_ratio 1786752000000])])]"

text \<open>
  One row per answered instrument: for a positive poll instant, a market-wide
  answer whose rows carry a symbol and sane times, and per-symbol answers that are well formed
  or missing, build_rows returns exactly the configured instruments that the answer names, in
  the configured order, all stamped with the 5-minute grid point the poll belongs to. A missing
  open interest or ratio never costs a row.
\<close>

theorem perp_rows_one_per_answered_instrument:
  assumes "0 < poll" and "json_iter premium = Inr rows" and "\<forall>row\<in>set rows. market_row_ok row"
    and "\<forall>(s, interest)\<in>set oi. times_ok [''time''] interest"
    and "\<forall>(s, fams)\<in>set ratios. \<forall>(f, pl)\<in>set fams. ratio_payload_ok f pl"
  shows "\<exists>rs. build_rows pairs premium oi ratios poll = Inr rs \<and>
    map row_key rs = filter (\<lambda>p. answered rows (snd p)) pairs \<and>
    (\<forall>r\<in>set rs. pc_poll_ts_us r = poll \<and> pc_snapshot_ts_us r mod grid_us = 0 \<and>
       pc_snapshot_ts_us r \<le> poll \<and> poll < pc_snapshot_ts_us r + grid_us)"
  using assms by (rule build_rows_answered)

theorem perp_rows_one_per_answered_instrument_witness:
  "\<exists>rs. build_rows [(''BTC-USD'', ''BTCUSDT''), (''SOL-USD'', ''SOLUSDT'')] (JArr [example_premium]) [] example_ratios 1786752000500000 = Inr rs \<and>
    map row_key rs = [(''BTC-USD'', ''BTCUSDT'')]"
proof -
  have "\<exists>rs. build_rows [(''BTC-USD'', ''BTCUSDT''), (''SOL-USD'', ''SOLUSDT'')] (JArr [example_premium]) [] example_ratios 1786752000500000 = Inr rs \<and>
    map row_key rs = filter (\<lambda>p. answered [example_premium] (snd p)) [(''BTC-USD'', ''BTCUSDT''), (''SOL-USD'', ''SOLUSDT'')] \<and>
    (\<forall>r\<in>set rs. pc_poll_ts_us r = 1786752000500000 \<and> pc_snapshot_ts_us r mod grid_us = 0 \<and>
       pc_snapshot_ts_us r \<le> 1786752000500000 \<and> 1786752000500000 < pc_snapshot_ts_us r + grid_us)"
    by (rule perp_rows_one_per_answered_instrument)
      (simp_all add: example_premium_def market_row_ok_def row_symbol_def times_ok_def dict_item_def example_ratios_def
        ratio_payload_ok_def latest_def from_payload_def ratio_fields_def example_ratio_def)
  then show ?thesis
    by (auto simp: answered_def row_symbol_def example_premium_def dict_item_def)
qed

text \<open>
  Missing is empty, never zero, and what answered is the latest reading: in every
  row, a ratio family whose endpoint did not answer (or answered with nothing) is absent, one
  that answered with a list carries its last element, and an instrument without open interest
  has the empty text for it.
\<close>

theorem perp_row_reports_latest_or_absent:
  assumes "build_rows pairs premium oi ratios poll = Inr rs" and "r \<in> set rs" and "f \<in> set ratio_families"
  shows "(case map_of (lookup_or [] ratios (pc_venue_symbol r)) f of
        Some (JArr (x # xs)) \<Rightarrow> \<exists>ob. from_payload f (last (x # xs)) = Inr ob \<and> map_of (pc_ratios r) f = Some ob
      | Some (JArr []) \<Rightarrow> map_of (pc_ratios r) f = Some absent
      | None \<Rightarrow> map_of (pc_ratios r) f = Some absent
      | _ \<Rightarrow> True) \<and>
    (map_of oi (pc_venue_symbol r) = None \<longrightarrow> pc_open_interest r = [] \<and> pc_open_interest_ts_us r = 0)"
proof -
  from assms(1) obtain snap ix where "collect_pairs ix (build_row poll snap oi ratios) pairs = Inr rs"
    by (auto simp: build_rows_def res_simps)
  from collect_pairs_member [OF this assms(2)] obtain p pr where "build_row poll snap oi ratios p pr = Inr r" by blast
  from build_row_fields [OF this] assms(3) obtain ob where
    sym: "snd p = pc_venue_symbol r" and ob: "latest f (map_of (lookup_or [] ratios (pc_venue_symbol r)) f) = Inr ob"
      "map_of (pc_ratios r) f = Some ob" and
    oi: "get_text (lookup_or (JObj []) oi (pc_venue_symbol r)) ''openInterest'' = Inr (pc_open_interest r)"
      "get_micros (lookup_or (JObj []) oi (pc_venue_symbol r)) ''time'' = Inr (pc_open_interest_ts_us r)"
    by (auto simp: row_key_def)
  have "map_of oi (pc_venue_symbol r) = None \<Longrightarrow> pc_open_interest r = [] \<and> pc_open_interest_ts_us r = 0"
    using oi by (simp add: lookup_or_def get_text_def get_micros_def millis_to_micros_def)
  with ob show ?thesis
    by (auto simp: latest_def split: option.splits json.splits list.splits if_splits)
qed

theorem perp_row_reports_latest_or_absent_witness:
  "\<exists>r :: perp_context. map_of (pc_ratios r) ''global_accounts'' =
      Some \<lparr> ro_ratio = ''2'', ro_long = ''0.66'', ro_short = ''0.33'', ro_ts_us = 1786752000000000 \<rparr> \<and> pc_open_interest r = []"
proof -
  let ?pairs = "[(''BTC-USD'', ''BTCUSDT'')]"
  obtain rs where rs: "build_rows ?pairs (JArr [example_premium]) [] example_ratios 1786752000500000 = Inr rs"
    "map pc_venue_symbol rs = [''BTCUSDT'']"
    by (simp add: build_rows_def floor_to_grid_us_def index_by_symbol_def example_premium_def dict_item_def
        build_row_def get_text_def get_micros_def millis_to_micros_def lookup_or_def ratio_families_def ratio_fields_def
        latest_def example_ratios_def from_payload_def example_ratio_def Let_def)
  then obtain r where r: "r \<in> set rs" "pc_venue_symbol r = ''BTCUSDT''" by (cases rs) auto
  have "''global_accounts'' \<in> set ratio_families" by (simp add: ratio_families_def ratio_fields_def)
  note row = perp_row_reports_latest_or_absent [OF rs(1) r(1) this]
  show ?thesis
    by (rule exI [of _ r])
      (use row in \<open>simp add: r(2) lookup_or_def example_ratios_def from_payload_def example_ratio_def ratio_fields_def
        dict_item_def micros_per_milli_def\<close>)
qed

end
