(* ===== verification/Macro.thy ===== *)
theory Macro
  imports Prelude
begin

text \<open>
  awsnative/enrichment/macro.py: the series, their URLs, and parse_alfred_csv over csv.reader.
  The reader is the state machine of Python's csv module in its default (excel) dialect, fed
  line by line as StringIO yields them; its limit on the size of a field is left out.
\<close>

subsection \<open>csv.reader\<close>

definition lf :: char where "lf = char_of (10::nat)"

definition cr :: char where "cr = char_of (13::nat)"

definition dquote :: char where "dquote = char_of (34::nat)"

text \<open>The lines of a StringIO: each keeps its newline.\<close>

fun io_lines :: "string \<Rightarrow> string list" where
  "io_lines [] = []"
| "io_lines (c # cs) = (if c = lf then [c] # io_lines cs
     else (case io_lines cs of [] \<Rightarrow> [[c]] | l # ls \<Rightarrow> (c # l) # ls))"

datatype csv_state = StartRecord | StartField | InField | InQuoted | QuoteInQuoted | EatCrnl

text \<open>The parser: its state, the fields of the record (reversed), the field under way (reversed).\<close>

type_synonym csv_parser = "csv_state \<times> string list \<times> string"

text \<open>None is the end of a line.\<close>

definition line_end :: "char option \<Rightarrow> bool" where
  "line_end c \<longleftrightarrow> (case c of None \<Rightarrow> True | Some x \<Rightarrow> x = lf \<or> x = cr)"

definition after_line :: "char option \<Rightarrow> csv_state" where
  "after_line c = (if c = None then StartRecord else EatCrnl)"

fun start_field :: "string list \<Rightarrow> string \<Rightarrow> char option \<Rightarrow> csv_parser" where
  "start_field fs f c = (if line_end c then (after_line c, rev f # fs, [])
     else if c = Some dquote then (InQuoted, fs, f)
     else if c = Some CHR '','' then (StartField, rev f # fs, [])
     else (InField, fs, the c # f))"

definition newline_error :: exn where
  "newline_error = Exn OtherError (''new-line character seen in unquoted field - do you need to open the file with newline=''
     @ [char_of (39::nat), char_of (39::nat)] @ ''?'')"

fun csv_char :: "csv_parser \<Rightarrow> char option \<Rightarrow> csv_parser res" where
  "csv_char (StartRecord, fs, f) c = (case c of
     None \<Rightarrow> Inr (StartRecord, fs, f)
   | Some x \<Rightarrow> if x = lf \<or> x = cr then Inr (EatCrnl, fs, f) else Inr (start_field fs f c))"
| "csv_char (StartField, fs, f) c = Inr (start_field fs f c)"
| "csv_char (InField, fs, f) c = Inr
     (if line_end c then (after_line c, rev f # fs, [])
      else if c = Some CHR '','' then (StartField, rev f # fs, [])
      else (InField, fs, the c # f))"
| "csv_char (InQuoted, fs, f) c = Inr (case c of
     None \<Rightarrow> (InQuoted, fs, f)
   | Some x \<Rightarrow> if x = dquote then (QuoteInQuoted, fs, f) else (InQuoted, fs, x # f))"
| "csv_char (QuoteInQuoted, fs, f) c = Inr
     (if c = Some dquote then (InQuoted, fs, dquote # f)
      else if c = Some CHR '','' then (StartField, rev f # fs, [])
      else if line_end c then (after_line c, rev f # fs, [])
      else (InField, fs, the c # f))"
| "csv_char (EatCrnl, fs, f) c = (case c of
     None \<Rightarrow> Inr (StartRecord, fs, f)
   | Some x \<Rightarrow> if x = lf \<or> x = cr then Inr (EatCrnl, fs, f)
       else Inl newline_error)"

fun csv_chars :: "csv_parser \<Rightarrow> string \<Rightarrow> csv_parser res" where
  "csv_chars p [] = csv_char p None"
| "csv_chars p (c # cs) = rbind (csv_char p (Some c)) (\<lambda>q. csv_chars q cs)"

text \<open>
  The records of a reader. A record goes on to the next line until the parser is back at the
  start; at the end of the input an open field or quote still closes a record.
\<close>

fun csv_next :: "csv_parser \<Rightarrow> string list \<Rightarrow> (string list \<times> string list) option res" where
  "csv_next (st, fs, f) [] = Inr (if f \<noteq> [] \<or> st = InQuoted then Some (rev (rev f # fs), []) else None)"
| "csv_next p (l # ls) = rbind (csv_chars p l) (\<lambda>(st, fs, f).
     if st = StartRecord then Inr (Some (rev fs, ls)) else csv_next (st, fs, f) ls)"

definition csv_start :: csv_parser where "csv_start = (StartRecord, [], [])"

fun csv_rows :: "csv_parser \<Rightarrow> string list \<Rightarrow> string list list res" where
  "csv_rows (st, fs, f) [] = Inr (if f \<noteq> [] \<or> st = InQuoted then [rev (rev f # fs)] else [])"
| "csv_rows p (l # ls) = rbind (csv_chars p l) (\<lambda>(st, fs, f).
     if st = StartRecord then rbind (csv_rows csv_start ls) (\<lambda>rows. Inr (rev fs # rows))
     else csv_rows (st, fs, f) ls)"

text \<open>All the rows are what repeated calls of next yield.\<close>

lemma csv_rows_next:
  "csv_rows p ls = rbind (csv_next p ls) (\<lambda>r. case r of None \<Rightarrow> Inr []
     | Some (row, rest) \<Rightarrow> rbind (csv_rows csv_start rest) (\<lambda>rows. Inr (row # rows)))"
proof (induction p ls rule: csv_rows.induct)
  case (2 p l ls)
  then show ?case by (cases "csv_chars p l") auto
qed (simp add: csv_start_def)

subsection \<open>The series\<close>

definition alfred_csv_base :: string where
  "alfred_csv_base = ''https://alfred.stlouisfed.org/graph/alfredgraph.csv''"

record macro_series =
  ms_series_id :: string
  ms_description :: string
  ms_frequency :: string
  ms_revised :: bool

definition series :: "macro_series list" where
  "series =
     [\<lparr> ms_series_id = ''DTWEXBGS'', ms_description = ''Nominal broad U.S. dollar index'', ms_frequency = ''daily'', ms_revised = False \<rparr>,
      \<lparr> ms_series_id = ''DGS2'', ms_description = ''2-year Treasury constant maturity yield'', ms_frequency = ''daily'', ms_revised = False \<rparr>,
      \<lparr> ms_series_id = ''DGS10'', ms_description = ''10-year Treasury constant maturity yield'', ms_frequency = ''daily'', ms_revised = False \<rparr>,
      \<lparr> ms_series_id = ''VIXCLS'', ms_description = ''CBOE volatility index'', ms_frequency = ''daily'', ms_revised = False \<rparr>,
      \<lparr> ms_series_id = ''SP500'', ms_description = ''S&P 500 index'', ms_frequency = ''daily'', ms_revised = False \<rparr>,
      \<lparr> ms_series_id = ''CPIAUCSL'', ms_description = ''CPI, all urban consumers, seasonally adjusted'',
        ms_frequency = ''monthly'', ms_revised = True \<rparr>]"

record macro_observation =
  mo_series_id :: string
  mo_observation_date :: string
  mo_vintage_date :: string
  mo_value :: string

definition observation_to_json :: "macro_observation \<Rightarrow> (string, string) dict" where
  "observation_to_json ob = [(''series_id'', mo_series_id ob), (''observation_date'', mo_observation_date ob),
     (''vintage_date'', mo_vintage_date ob), (''value'', mo_value ob)]"

definition alfred_csv_url :: "string \<Rightarrow> string \<Rightarrow> string" where
  "alfred_csv_url series_id vintage = alfred_csv_base @ ''?id='' @ series_id @ ''&vintage_date='' @ vintage"

text \<open>The body of the loop over the rows: a row is skipped, or one observation.\<close>

definition row_observation :: "string \<Rightarrow> string \<Rightarrow> string option \<Rightarrow> string list \<Rightarrow> macro_observation list" where
  "row_observation series_id vintage since row = (case row of
     [d, v] \<Rightarrow>
       (let date = strip d; val = strip v in
        if val = [] then []
        else if (case since of None \<Rightarrow> False | Some s \<Rightarrow> date < s) then []
        else [\<lparr> mo_series_id = series_id, mo_observation_date = date, mo_vintage_date = vintage, mo_value = val \<rparr>])
   | _ \<Rightarrow> [])"

definition parse_alfred_csv ::
  "string \<Rightarrow> string \<Rightarrow> string \<Rightarrow> string option \<Rightarrow> macro_observation list res" where
  "parse_alfred_csv text series_id vintage since =
     rbind (csv_next csv_start (io_lines text)) (\<lambda>first. case first of
       None \<Rightarrow> Inl (Exn ValueError ''empty ALFRED response'')
     | Some (header, rest) \<Rightarrow>
         (case header of
            [h, value_column] \<Rightarrow>
              if take (length series_id) value_column \<noteq> series_id
              then Inl (Exn ValueError (''asked for '' @ series_id @ '' but the response names '' @ py_repr value_column
                @ ''; the URL is built wrong''))
              else rbind (csv_rows csv_start rest) (\<lambda>rows.
                Inr (concat (map (row_observation series_id vintage since) rows)))
          | _ \<Rightarrow> Inl (Exn ValueError (''expected a two-column CSV, got header '' @ list_repr header))))"

subsection \<open>Plain text\<close>

text \<open>A cell that needs no quoting; the reader on a line of plain cells.\<close>

definition plain_cell :: "string \<Rightarrow> bool" where
  "plain_cell s \<longleftrightarrow> set s \<inter> {lf, cr, dquote, CHR '',''} = {} \<and> s \<noteq> []"

lemma special_chars [simp]: "lf \<noteq> cr" "lf \<noteq> dquote" "cr \<noteq> dquote" "lf \<noteq> CHR '',''" "cr \<noteq> CHR '',''" "dquote \<noteq> CHR '',''"
  "cr \<noteq> lf" "dquote \<noteq> lf" "dquote \<noteq> cr" "CHR '','' \<noteq> lf" "CHR '','' \<noteq> cr" "CHR '','' \<noteq> dquote"
  by (simp_all add: lf_def cr_def dquote_def char_of_def bit_0)

lemma csv_chars_in_field:
  "set s \<inter> {lf, cr, dquote, CHR '',''} = {} \<Longrightarrow> csv_chars (InField, fs, f) (s @ rest) = csv_chars (InField, fs, rev s @ f) rest"
  by (induction s arbitrary: f) (auto simp: line_end_def)

lemma csv_chars_cell:
  assumes "plain_cell s" and "st = StartRecord \<or> st = StartField"
  shows "csv_chars (st, fs, []) (s @ rest) = csv_chars (InField, fs, rev s) rest"
proof -
  obtain x xs where s: "s = x # xs" "x \<notin> {lf, cr, dquote, CHR '',''}" "set xs \<inter> {lf, cr, dquote, CHR '',''} = {}"
    using assms(1) by (cases s) (auto simp: plain_cell_def)
  then show ?thesis using assms(2) csv_chars_in_field [OF s(3), of fs "[x]"] by (auto simp: line_end_def)
qed

lemma csv_two_cells:
  assumes "plain_cell d" and "plain_cell v"
  shows "csv_chars csv_start (d @ CHR '','' # v @ [lf]) = Inr (StartRecord, [v, d], [])"
  by (simp add: csv_start_def csv_chars_cell assms line_end_def after_line_def)

lemma csv_one_cell:
  assumes "plain_cell d"
  shows "csv_chars csv_start (d @ [CHR '','', lf]) = Inr (StartRecord, [[], d], [])"
  by (simp add: csv_start_def csv_chars_cell assms line_end_def after_line_def)

lemma io_lines_line: "lf \<notin> set l \<Longrightarrow> io_lines (l @ lf # rest) = (l @ [lf]) # io_lines rest"
  by (induction l) auto

text \<open>A response as FRED writes it: a header, then a line per date, its value possibly empty.\<close>

definition csv_line :: "string \<times> string \<Rightarrow> string" where
  "csv_line dv = fst dv @ CHR '','' # snd dv @ [lf]"

definition cell_ok :: "string \<times> string \<Rightarrow> bool" where
  "cell_ok dv \<longleftrightarrow> plain_cell (fst dv) \<and> (snd dv = [] \<or> plain_cell (snd dv)) \<and>
     strip (fst dv) = fst dv \<and> strip (snd dv) = snd dv"

definition of_cells :: "string \<Rightarrow> string \<Rightarrow> string \<times> string \<Rightarrow> macro_observation" where
  "of_cells series_id vintage dv = \<lparr> mo_series_id = series_id, mo_observation_date = fst dv, mo_vintage_date = vintage,
     mo_value = snd dv \<rparr>"

definition kept_cell :: "string option \<Rightarrow> string \<times> string \<Rightarrow> bool" where
  "kept_cell since dv \<longleftrightarrow> snd dv \<noteq> [] \<and> (case since of None \<Rightarrow> True | Some s \<Rightarrow> s \<le> fst dv)"

lemma csv_line_chars: "cell_ok dv \<Longrightarrow> csv_chars csv_start (csv_line dv) = Inr (StartRecord, [snd dv, fst dv], [])"
  by (cases "snd dv = []") (auto simp: cell_ok_def csv_line_def csv_two_cells csv_one_cell)

lemma io_lines_csv_line: "cell_ok dv \<Longrightarrow> io_lines (csv_line dv @ rest) = csv_line dv # io_lines rest"
  using io_lines_line [of "fst dv @ CHR '','' # snd dv" rest]
  by (auto simp: cell_ok_def csv_line_def plain_cell_def)

lemma csv_rows_lines:
  "(\<And>dv. dv \<in> set dvs \<Longrightarrow> cell_ok dv) \<Longrightarrow>
     csv_rows csv_start (io_lines (concat (map csv_line dvs))) = Inr (map (\<lambda>dv. [fst dv, snd dv]) dvs)"
  by (induction dvs) (simp_all add: io_lines_csv_line csv_line_chars, simp add: csv_start_def)

lemma row_observations:
  "(\<And>dv. dv \<in> set dvs \<Longrightarrow> cell_ok dv) \<Longrightarrow>
     concat (map (row_observation sid vintage since \<circ> (\<lambda>dv. [fst dv, snd dv])) dvs) =
     map (of_cells sid vintage) (filter (kept_cell since) dvs)"
  by (induction dvs)
    (auto simp: row_observation_def cell_ok_def kept_cell_def of_cells_def Let_def not_less split: option.splits)

subsection \<open>Properties\<close>

text \<open>
  An ALFRED response is read back cell by cell: a header whose second column
  starts with the series that was asked for, then a line per date, gives exactly one observation
  per line with a value (and not before since), in order, under the vintage asked for. An empty
  cell is skipped, never zeroed.
\<close>

theorem alfred_response_read_back:
  assumes "cell_ok (h, sid @ suffix)" and "sid @ suffix \<noteq> []" and "\<forall>dv\<in>set dvs. cell_ok dv"
  shows "parse_alfred_csv (concat (map csv_line ((h, sid @ suffix) # dvs))) sid vintage since =
    Inr (map (of_cells sid vintage) (filter (kept_cell since) dvs))"
proof -
  have "csv_next csv_start (io_lines (concat (map csv_line ((h, sid @ suffix) # dvs)))) =
      Inr (Some ([h, sid @ suffix], io_lines (concat (map csv_line dvs))))"
    using io_lines_csv_line [OF assms(1)] csv_line_chars [OF assms(1)] by simp
  with csv_rows_lines [of dvs] row_observations [of dvs sid vintage since] assms(3) show ?thesis
    by (simp add: parse_alfred_csv_def)
qed

lemma plain_cell_eval: "plain_cell s \<longleftrightarrow> s \<noteq> [] \<and> list_all (\<lambda>ch. ch \<notin> {lf, cr, dquote, CHR '',''}) s"
  by (auto simp: plain_cell_def list_all_iff)

lemma cell_ok_eval:
  "cell_ok dv \<longleftrightarrow> plain_cell (fst dv) \<and> (snd dv = [] \<or> plain_cell (snd dv)) \<and>
     strip (fst dv) = fst dv \<and> strip (snd dv) = snd dv"
  by (simp add: cell_ok_def)

lemmas cell_evals = cell_ok_eval plain_cell_eval strip_def rstrip_def is_space_def lf_def cr_def dquote_def char_of_def bit_0

theorem alfred_response_read_back_witness:
  "parse_alfred_csv (concat (map csv_line [(''observation_date'', ''CPIAUCSL_20260115''), (''2025-08-01'', ''323.364''),
      (''2025-10-01'', [])])) ''CPIAUCSL'' ''2026-01-15'' (Some ''2025-01-01'') =
    Inr [\<lparr> mo_series_id = ''CPIAUCSL'', mo_observation_date = ''2025-08-01'', mo_vintage_date = ''2026-01-15'', mo_value = ''323.364'' \<rparr>]"
proof -
  have ok: "cell_ok (''observation_date'', ''CPIAUCSL'' @ ''_20260115'')" "cell_ok (''2025-08-01'', ''323.364'')" "cell_ok (''2025-10-01'', [])"
    by (simp_all add: cell_evals)
  have "parse_alfred_csv (concat (map csv_line [(''observation_date'', ''CPIAUCSL'' @ ''_20260115''), (''2025-08-01'', ''323.364''),
      (''2025-10-01'', [])])) ''CPIAUCSL'' ''2026-01-15'' (Some ''2025-01-01'') =
    Inr (map (of_cells ''CPIAUCSL'' ''2026-01-15'') (filter (kept_cell (Some ''2025-01-01'')) [(''2025-08-01'', ''323.364''), (''2025-10-01'', [])]))"
    by (rule alfred_response_read_back) (use ok in auto)
  then show ?thesis by (simp add: kept_cell_def of_cells_def)
qed

text \<open>
  The guard against a wrong series compares a prefix only: a response for the
  series DGS20 is accepted as DGS2 and its numbers are loaded under that name, which the
  docstring says the check catches.
\<close>

theorem prefix_check_accepts_other_series:
  "parse_alfred_csv (concat (map csv_line [(''observation_date'', ''DGS20_20260115''), (''2026-01-14'', ''4.79'')]))
     ''DGS2'' ''2026-01-15'' None =
   Inr [\<lparr> mo_series_id = ''DGS2'', mo_observation_date = ''2026-01-14'', mo_vintage_date = ''2026-01-15'', mo_value = ''4.79'' \<rparr>]"
proof -
  have ok: "cell_ok (''observation_date'', ''DGS20_20260115'')" "cell_ok (''2026-01-14'', ''4.79'')"
    by (simp_all add: cell_evals)
  have next_row: "csv_next csv_start (io_lines (concat (map csv_line [(''observation_date'', ''DGS20_20260115''), (''2026-01-14'', ''4.79'')]))) =
      Inr (Some ([''observation_date'', ''DGS20_20260115''], io_lines (concat (map csv_line [(''2026-01-14'', ''4.79'')]))))"
    using io_lines_csv_line [OF ok(1)] csv_line_chars [OF ok(1)] by simp
  have rows: "csv_rows csv_start (io_lines (concat (map csv_line [(''2026-01-14'', ''4.79'')]))) = Inr [[''2026-01-14'', ''4.79'']]"
    using csv_rows_lines [of "[(''2026-01-14'', ''4.79'')]"] ok(2) by simp
  from ok(2) have "strip ''2026-01-14'' = ''2026-01-14''" "strip ''4.79'' = ''4.79''" by (simp_all add: cell_ok_def)
  then show ?thesis unfolding parse_alfred_csv_def next_row rbind.simps option.case prod.case list.case rows
    by (simp add: rows [simplified] row_observation_def)
qed

end
