(* ===== verification/Collect.thy ===== *)
theory Collect
  imports Perp Macro Floats Tiers
begin

text \<open>
  awsnative/enrichment/collect.py: the two collectors and their Lambda entry points. Their
  parameters are the record upstream: fetch (url to bytes), decode (bytes.decode), loads
  (json.loads) and gz (gzip.compress at mtime 0). What a collector does to the outside is a
  trace of requests and of the one object it stores, beside its result.
\<close>

record upstream =
  u_fetch :: "string \<Rightarrow> string res"
  u_decode :: "string \<Rightarrow> string res"
  u_loads :: "string \<Rightarrow> json res"
  u_gz :: "string \<Rightarrow> string"

datatype io = Fetched string | Stored string string

type_synonym 'a run = "io list \<times> 'a res"

fun run_bind :: "'a run \<Rightarrow> ('a \<Rightarrow> 'b run) \<Rightarrow> 'b run" where
  "run_bind (tr, Inl e) f = (tr, Inl e)"
| "run_bind (tr, Inr x) f = (case f x of (tr', r) \<Rightarrow> (tr @ tr', r))"

definition fapi_base :: string where "fapi_base = ''https://fapi.binance.com''"

definition perp_prefix :: string where "perp_prefix = ''bronze_perp_context''"

definition macro_prefix :: string where "macro_prefix = ''bronze_macro_observations''"

definition ratio_endpoints :: "(string \<times> string) list" where
  "ratio_endpoints = [(''toptrader_accounts'', ''topLongShortAccountRatio''),
     (''toptrader_positions'', ''topLongShortPositionRatio''), (''global_accounts'', ''globalLongShortAccountRatio''),
     (''taker_volume'', ''takerlongshortRatio'')]"

definition ratio_limit :: nat where "ratio_limit = 2"

definition premium_url :: string where "premium_url = fapi_base @ ''/fapi/v1/premiumIndex''"

definition interest_url :: "string \<Rightarrow> string" where
  "interest_url symbol = fapi_base @ ''/fapi/v1/openInterest?symbol='' @ symbol"

definition ratio_url :: "string \<Rightarrow> string \<Rightarrow> string" where
  "ratio_url endpoint symbol = fapi_base @ ''/futures/data/'' @ endpoint @ ''?symbol='' @ symbol
     @ ''&period=5m&limit='' @ nat_str ratio_limit"

text \<open>_json: the decoded answer, JNull (None) when the endpoint did not answer.\<close>

definition fetch_json :: "upstream \<Rightarrow> string \<Rightarrow> json run" where
  "fetch_json u url = ([Fetched url], case rbind (u_fetch u url) (u_loads u) of
     Inl e \<Rightarrow> if exn_kind e = UpstreamUnavailable then Inr JNull else Inl e
   | Inr v \<Rightarrow> Inr v)"

fun poll_families :: "upstream \<Rightarrow> string \<Rightarrow> (string, json) dict \<Rightarrow> (string \<times> string) list \<Rightarrow> (string, json) dict run" where
  "poll_families u symbol fams [] = ([], Inr fams)"
| "poll_families u symbol fams ((family, endpoint) # rest) =
     run_bind (fetch_json u (ratio_url endpoint symbol)) (\<lambda>payload.
       poll_families u symbol (if json_true payload then dict_set family payload fams else fams) rest)"

fun poll_pairs ::
  "upstream \<Rightarrow> (string, json) dict \<Rightarrow> (string, (string, json) dict) dict \<Rightarrow> (string \<times> string) list
    \<Rightarrow> ((string, json) dict \<times> (string, (string, json) dict) dict) run" where
  "poll_pairs u oi ratios [] = ([], Inr (oi, ratios))"
| "poll_pairs u oi ratios (p # ps) =
     run_bind (fetch_json u (interest_url (snd p))) (\<lambda>interest.
     run_bind (poll_families u (snd p) [] ratio_endpoints) (\<lambda>fams.
       poll_pairs u (if interest = JNull then oi else dict_set (snd p) interest oi) (dict_set (snd p) fams ratios) ps))"

text \<open>
  datetime.fromtimestamp(us / 1_000_000, tz=UTC) as a date: the whole seconds and the fraction,
  which is rounded half to even to microseconds. The calendar repeats every 146097 days (400
  years); outside the years 1 to 9999 Python raises ValueError.
\<close>

definition us_of_timestamp :: "rat \<Rightarrow> int" where
  "us_of_timestamp ts = rat_trunc ts * 1000000 + round_half_even (fl_signed ((ts - of_int (rat_trunc ts)) * 1000000))"

definition date_of_day :: "int \<Rightarrow> date res" where
  "date_of_day day = rbind (plus_days (Date 1970 1 1) (nat (day mod 146097))) (\<lambda>d.
     let y = int (dyear d) + 400 * (day div 146097) in
     if y < 1 \<or> 9999 < y then Inl (Exn ValueError (''year '' @ int_str y @ '' is out of range''))
     else Inr (Date (nat y) (dmonth d) (dday d)))"

definition utc_date :: "int \<Rightarrow> date res" where
  "utc_date us = date_of_day (us_of_timestamp (fl_signed (of_int us / 1000000)) div 86400000000)"

definition perp_key :: "int \<Rightarrow> string res" where
  "perp_key poll_ts_us = rbind (utc_date poll_ts_us) (\<lambda>d.
     Inr (perp_prefix @ ''/ingest_date='' @ day_period d @ ''/perp-'' @ int_str poll_ts_us @ ''.jsonl.gz''))"

definition macro_key :: "string \<Rightarrow> string" where
  "macro_key vintage = macro_prefix @ ''/ingest_date='' @ vintage @ ''/macro-'' @ vintage @ ''.jsonl.gz''"

definition jsonl_gz :: "upstream \<Rightarrow> (string, string) dict list \<Rightarrow> string" where
  "jsonl_gz u rows = u_gz u (concat (map (\<lambda>row. dumps (str_obj row) @ [lf]) rows))"

definition summary :: "nat \<Rightarrow> string \<Rightarrow> (string, string) dict" where
  "summary n key = [(''rows'', nat_str n), (''key'', key)]"

definition perp_collect :: "upstream \<Rightarrow> (string \<times> string) list \<Rightarrow> int \<Rightarrow> (string, string) dict run" where
  "perp_collect u pairs poll_ts_us =
     run_bind (fetch_json u premium_url) (\<lambda>answer.
     run_bind (poll_pairs u [] [] pairs) (\<lambda>(oi, ratios).
     run_bind ([], build_rows pairs (if json_true answer then answer else JArr []) oi ratios poll_ts_us) (\<lambda>rows.
     run_bind ([], perp_key poll_ts_us) (\<lambda>key.
       ([Stored key (jsonl_gz u (map perp_to_json rows))], Inr (summary (length rows) key))))))"

text \<open>The loop over SERIES: one that did not answer is skipped, any other exception ends the pull.\<close>

fun pull_series :: "upstream \<Rightarrow> string \<Rightarrow> string option \<Rightarrow> macro_series list \<Rightarrow> macro_observation list run" where
  "pull_series u vintage since [] = ([], Inr [])"
| "pull_series u vintage since (m # ms) = (let url = alfred_csv_url (ms_series_id m) vintage in
     case rbind (u_fetch u url) (u_decode u) of
       Inl e \<Rightarrow> if exn_kind e = UpstreamUnavailable
         then run_bind ([Fetched url], Inr ()) (\<lambda>_. pull_series u vintage since ms)
         else ([Fetched url], Inl e)
     | Inr text \<Rightarrow> run_bind ([Fetched url], parse_alfred_csv text (ms_series_id m) vintage since) (\<lambda>obs.
         run_bind (pull_series u vintage since ms) (\<lambda>rest. ([], Inr (obs @ rest)))))"

definition macro_collect :: "upstream \<Rightarrow> string \<Rightarrow> string option \<Rightarrow> (string, string) dict run" where
  "macro_collect u vintage since = run_bind (pull_series u vintage since series) (\<lambda>obs.
     let key = macro_key vintage in
     ([Stored key (jsonl_gz u (map observation_to_json obs))], Inr (summary (length obs) key)))"

text \<open>_http_fetch: every reachable failure is UpstreamUnavailable.\<close>

datatype url_answer = UrlBody string | UrlHttp int | UrlFailed string

definition enrichment_fetch :: "(string \<Rightarrow> url_answer) \<Rightarrow> string \<Rightarrow> string res" where
  "enrichment_fetch urlopen url = (case urlopen url of
     UrlBody b \<Rightarrow> Inr b
   | UrlHttp code \<Rightarrow> Inl (Exn UpstreamUnavailable (''HTTP '' @ int_str code @ '' for '' @ url))
   | UrlFailed reason \<Rightarrow> Inl (Exn UpstreamUnavailable (''cannot reach '' @ url @ '': '' @ reason)))"

text \<open>
  The entry points. An event is its bucket, if it has one, and its pairs as lists of strings;
  now is the exact instant of the clock in microseconds.
\<close>

fun first_two :: "string list \<Rightarrow> (string \<times> string) res" where
  "first_two (a # b # _) = Inr (a, b)"
| "first_two _ = Inl (Exn IndexError ''list index out of range'')"

definition perp_handler :: "upstream \<Rightarrow> int \<Rightarrow> string option \<Rightarrow> string list list option \<Rightarrow> (string, string) dict run" where
  "perp_handler u now bucket event_pairs = (case bucket of
     None \<Rightarrow> ([], Inl (Exn KeyError (py_repr ''bucket'')))
   | Some b \<Rightarrow> (case event_pairs of
       None \<Rightarrow> ([], Inl (Exn KeyError (py_repr ''pairs'')))
     | Some ps \<Rightarrow> run_bind ([], rmap first_two ps) (\<lambda>pairs. perp_collect u pairs (timestamp_to_us now))))"

definition macro_handler :: "upstream \<Rightarrow> date \<Rightarrow> string option \<Rightarrow> string option \<Rightarrow> (string, string) dict run" where
  "macro_handler u today bucket since = (case bucket of
     None \<Rightarrow> ([], Inl (Exn KeyError (py_repr ''bucket'')))
   | Some b \<Rightarrow> macro_collect u (day_period today) since)"

subsection \<open>Facts\<close>

lemma run_bind_eq: "run_bind m f = (case m of (tr, Inl e) \<Rightarrow> (tr, Inl e)
   | (tr, Inr x) \<Rightarrow> (tr @ fst (f x), snd (f x)))"
  by (cases m; cases "snd m") (auto split: prod.splits)

text \<open>A stage that only fetches: at most n requests, exactly n when it has a result.\<close>

definition fetches :: "nat \<Rightarrow> 'a run \<Rightarrow> bool" where
  "fetches n m \<longleftrightarrow> (\<exists>urls. fst m = map Fetched urls \<and> length urls \<le> n \<and>
     ((\<exists>x. snd m = Inr x) \<longrightarrow> length urls = n))"

lemma fetches_bind:
  assumes "fetches n m" and "\<And>x. snd m = Inr x \<Longrightarrow> fetches k (f x)"
  shows "fetches (n + k) (run_bind m f)"
proof (cases "snd m")
  case (Inl e)
  with assms(1) show ?thesis by (cases m) (auto simp: fetches_def)
next
  case (Inr x)
  from assms(1) Inr obtain us where us: "fst m = map Fetched us" "length us = n" by (auto simp: fetches_def)
  from assms(2) [OF Inr] obtain vs where vs: "fst (f x) = map Fetched vs" "length vs \<le> k"
    "(\<exists>y. snd (f x) = Inr y) \<longrightarrow> length vs = k" by (auto simp: fetches_def)
  have "run_bind m f = (fst m @ fst (f x), snd (f x))" using Inr by (cases m) (auto split: prod.splits)
  with us vs show ?thesis unfolding fetches_def by (intro exI [of _ "us @ vs"]) auto
qed

lemma fetches_json: "fetches 1 (fetch_json u url)"
  unfolding fetches_def fetch_json_def by (rule exI [of _ "[url]"]) simp

lemma fetches_families: "fetches (length es) (poll_families u s fams es)"
proof (induction es arbitrary: fams)
  case (Cons e es)
  obtain family endpoint where e: "e = (family, endpoint)" by (cases e)
  show ?case using fetches_bind [OF fetches_json Cons.IH] by (simp add: e)
qed (simp add: fetches_def)

lemma fetches_pairs: "fetches (5 * length ps) (poll_pairs u oi ratios ps)"
proof (induction ps arbitrary: oi ratios)
  case (Cons p ps)
  have "length ratio_endpoints = 4" by (simp add: ratio_endpoints_def)
  then have f: "fetches 4 (poll_families u (snd p) [] ratio_endpoints)"
    using fetches_families [where es = ratio_endpoints] by metis
  have "fetches (1 + (4 + 5 * length ps)) (poll_pairs u oi ratios (p # ps))"
    unfolding poll_pairs.simps by (rule fetches_bind [OF fetches_json], rule fetches_bind [OF f], rule Cons.IH)
  moreover have "1 + (4 + 5 * length ps) = 5 * length (p # ps)" by simp
  ultimately show ?case by (simp only:)
qed (simp add: fetches_def)

text \<open>An endpoint of a well-behaved upstream: it does not answer, or it answers with a good payload.\<close>

definition answers :: "upstream \<Rightarrow> string \<Rightarrow> (json \<Rightarrow> bool) \<Rightarrow> bool" where
  "answers u url good \<longleftrightarrow> (case rbind (u_fetch u url) (u_loads u) of
     Inl e \<Rightarrow> exn_kind e = UpstreamUnavailable | Inr v \<Rightarrow> good v)"

lemma answers_json: "answers u url good \<Longrightarrow> \<exists>v. fetch_json u url = ([Fetched url], Inr v) \<and> (v = JNull \<or> good v)"
  by (auto simp: answers_def fetch_json_def split: sum.splits)

lemma poll_families_ok:
  assumes "\<And>f e. (f, e) \<in> set es \<Longrightarrow> answers u (ratio_url e s) (ratio_payload_ok f)"
    and "\<forall>(f, pl)\<in>set fams. ratio_payload_ok f pl"
  shows "\<exists>tr fams'. poll_families u s fams es = (tr, Inr fams') \<and> (\<forall>(f, pl)\<in>set fams'. ratio_payload_ok f pl)"
  using assms
proof (induction es arbitrary: fams)
  case (Cons e es)
  obtain f ep where e: "e = (f, ep)" by (cases e)
  from Cons.prems(1) [of f ep] answers_json obtain v where
    v: "fetch_json u (ratio_url ep s) = ([Fetched (ratio_url ep s)], Inr v)" "v = JNull \<or> ratio_payload_ok f v"
    by (fastforce simp: e)
  have "\<forall>(f', pl)\<in>set (if json_true v then dict_set f v fams else fams). ratio_payload_ok f' pl"
    using Cons.prems(2) v(2) set_dict_set [of f v fams] by auto
  with Cons.IH [of "if json_true v then dict_set f v fams else fams"] Cons.prems(1)
  show ?case by (auto simp: e v(1))
qed auto

lemma poll_pairs_ok:
  assumes "\<And>s. s \<in> snd ` set ps \<Longrightarrow> answers u (interest_url s) (times_ok [''time''])"
    and "\<And>s f e. s \<in> snd ` set ps \<Longrightarrow> (f, e) \<in> set ratio_endpoints \<Longrightarrow> answers u (ratio_url e s) (ratio_payload_ok f)"
    and "\<forall>(s, interest)\<in>set oi. times_ok [''time''] interest"
    and "\<forall>(s, fams)\<in>set ratios. \<forall>(f, pl)\<in>set fams. ratio_payload_ok f pl"
  shows "\<exists>tr oi' ratios'. poll_pairs u oi ratios ps = (tr, Inr (oi', ratios')) \<and>
    (\<forall>(s, interest)\<in>set oi'. times_ok [''time''] interest) \<and>
    (\<forall>(s, fams)\<in>set ratios'. \<forall>(f, pl)\<in>set fams. ratio_payload_ok f pl)"
  using assms
proof (induction ps arbitrary: oi ratios)
  case (Cons p ps)
  from answers_json [OF Cons.prems(1) [of "snd p"]] obtain v where
    v: "fetch_json u (interest_url (snd p)) = ([Fetched (interest_url (snd p))], Inr v)" "v = JNull \<or> times_ok [''time''] v"
    by auto
  have "\<And>f e. (f, e) \<in> set ratio_endpoints \<Longrightarrow> answers u (ratio_url e (snd p)) (ratio_payload_ok f)"
    using Cons.prems(2) by simp
  from poll_families_ok [where es = ratio_endpoints and fams = "[]", OF this] obtain tr fams where
    fams: "poll_families u (snd p) [] ratio_endpoints = (tr, Inr fams)" "\<forall>(f, pl)\<in>set fams. ratio_payload_ok f pl"
    by auto
  let ?oi = "if v = JNull then oi else dict_set (snd p) v oi" and ?ra = "dict_set (snd p) fams ratios"
  have oi: "\<forall>(s, interest)\<in>set ?oi. times_ok [''time''] interest"
  proof (cases "v = JNull")
    case False
    with v(2) Cons.prems(3) set_dict_set [of "snd p" v oi] show ?thesis by auto
  qed (use Cons.prems(3) in simp)
  have ra: "\<forall>(s, fs)\<in>set ?ra. \<forall>(f, pl)\<in>set fs. ratio_payload_ok f pl"
  proof
    fix sfs assume "sfs \<in> set ?ra"
    then have "sfs = (snd p, fams) \<or> sfs \<in> set ratios"
      using set_dict_set by fastforce
    with fams(2) Cons.prems(4) show "case sfs of (s, fs) \<Rightarrow> \<forall>(f, pl)\<in>set fs. ratio_payload_ok f pl" by auto
  qed
  have "\<exists>tr oi' ratios'. poll_pairs u ?oi ?ra ps = (tr, Inr (oi', ratios')) \<and>
    (\<forall>(s, interest)\<in>set oi'. times_ok [''time''] interest) \<and>
    (\<forall>(s, fams)\<in>set ratios'. \<forall>(f, pl)\<in>set fams. ratio_payload_ok f pl)"
    by (rule Cons.IH [OF _ _ oi ra]) (use Cons.prems(1,2) in auto)
  then show ?case by (auto simp: v(1) fams(1))
qed auto

lemma run_bind_pure: "run_bind ([], r) f = (case r of Inl e \<Rightarrow> ([], Inl e) | Inr x \<Rightarrow> f x)"
  by (cases r) (auto split: prod.splits)

lemma perp_collect_after_poll:
  assumes "fetch_json u premium_url = ([Fetched premium_url], Inr answer)" and "poll_pairs u [] [] pairs = (tr, Inr (oi, ratios))"
  shows "perp_collect u pairs poll =
    (case build_rows pairs (if json_true answer then answer else JArr []) oi ratios poll of
       Inl e \<Rightarrow> (Fetched premium_url # tr, Inl e)
     | Inr rows \<Rightarrow> (case perp_key poll of
         Inl e \<Rightarrow> (Fetched premium_url # tr, Inl e)
       | Inr key \<Rightarrow> (Fetched premium_url # tr @ [Stored key (jsonl_gz u (map perp_to_json rows))], Inr (summary (length rows) key))))"
  by (simp add: perp_collect_def assms run_bind_pure split: sum.splits)

text \<open>
  An upstream where only premiumIndex answers, and one ALFRED series; the bytes are the text of
  what they decode to.
\<close>

definition down :: exn where "down = Exn UpstreamUnavailable ''HTTP 503''"

definition vix_csv :: string where
  "vix_csv = concat (map csv_line [(''observation_date'', ''VIXCLS_20260115''), (''2026-01-14'', ''15.9'')])"

definition partial_upstream :: upstream where
  "partial_upstream = \<lparr> u_fetch = (\<lambda>url. if url = premium_url then Inr ''premium''
       else if url = alfred_csv_url ''VIXCLS'' ''2026-01-15'' then Inr vix_csv else Inl down),
     u_decode = Inr, u_loads = (\<lambda>b. Inr (JArr [example_premium])), u_gz = id \<rparr>"

lemma example_day: "utc_date 1000000 = Inr (Date 1970 1 1)"
proof -
  have "fl 1 = 1" using fl_scaled [of 1 52] by (simp add: round_half_even_def)
  then have "fl_signed (of_int 1000000 / 1000000) = 1" by (simp add: fl_signed_def)
  moreover have "us_of_timestamp 1 = 1000000"
    by (simp add: us_of_timestamp_def rat_trunc_def fl_signed_def fl.simps [of 0] round_half_even_def)
  moreover have "date_of_day 0 = Inr (Date 1970 1 1)" by (simp add: date_of_day_def)
  ultimately show ?thesis by (simp add: utc_date_def)
qed

subsection \<open>Properties\<close>

text \<open>
  A poll is one burst of at most 1 + 5 n requests and one object: whatever the
  upstream answers or raises, a poll of n instruments that returns made exactly 1 + 5 n requests
  and then stored exactly one object, under the key of its instant; a poll that raises made at
  most as many and stored nothing.
\<close>

theorem perp_poll_bounded_and_atomic:
  assumes "perp_collect u pairs poll = (tr, r)"
  shows "\<exists>urls. case r of
      Inr out \<Rightarrow> length urls = 1 + 5 * length pairs \<and>
        (\<exists>key rows. perp_key poll = Inr key \<and> out = summary (length rows) key \<and>
           tr = map Fetched urls @ [Stored key (jsonl_gz u (map perp_to_json rows))])
    | Inl e \<Rightarrow> length urls \<le> 1 + 5 * length pairs \<and> tr = map Fetched urls"
proof (cases "snd (fetch_json u premium_url)")
  case (Inl e)
  then have "perp_collect u pairs poll = ([Fetched premium_url], Inl e)"
    by (simp add: perp_collect_def fetch_json_def)
  with assms show ?thesis by (intro exI [of _ "[premium_url]"]) auto
next
  case (Inr answer)
  then have f: "fetch_json u premium_url = ([Fetched premium_url], Inr answer)" by (simp add: fetch_json_def)
  obtain tr1 r1 where p: "poll_pairs u [] [] pairs = (tr1, r1)" by (cases "poll_pairs u [] [] pairs")
  from fetches_pairs [of pairs u "[]" "[]"] obtain urls where urls: "tr1 = map Fetched urls" "length urls \<le> 5 * length pairs"
    "(\<exists>x. r1 = Inr x) \<longrightarrow> length urls = 5 * length pairs" by (auto simp: fetches_def p)
  show ?thesis
  proof (cases r1)
    case (Inl e)
    then have "perp_collect u pairs poll = (Fetched premium_url # tr1, Inl e)"
      by (simp add: perp_collect_def f p)
    with assms urls show ?thesis by (intro exI [of _ "premium_url # urls"]) auto
  next
    case (Inr x)
    then obtain oi ratios where x: "r1 = Inr (oi, ratios)" by (cases x) auto
    from assms perp_collect_after_poll [OF f p [unfolded x]] urls Inr show ?thesis
      by (intro exI [of _ "premium_url # urls"]) (auto split: sum.splits)
  qed
qed

theorem perp_poll_bounded_and_atomic_witness:
  "\<exists>tr r urls. perp_collect partial_upstream [(''BTC-USD'', ''BTCUSDT'')] 1000000 = (tr, r) \<and>
     length urls \<le> 6 \<and> map Fetched urls = takeWhile (\<lambda>a. case a of Fetched u \<Rightarrow> True | Stored k b \<Rightarrow> False) tr"
proof -
  have tw: "takeWhile (\<lambda>a. case a of Fetched u \<Rightarrow> True | Stored k b \<Rightarrow> False) (map Fetched us @ rest) =
      map Fetched us @ takeWhile (\<lambda>a. case a of Fetched u \<Rightarrow> True | Stored k b \<Rightarrow> False) rest" for us rest
    by (induction us) auto
  have tw0: "takeWhile (\<lambda>a. case a of Fetched u \<Rightarrow> True | Stored k b \<Rightarrow> False) (map Fetched us) = map Fetched us" for us
    by (induction us) auto
  obtain tr r where c: "perp_collect partial_upstream [(''BTC-USD'', ''BTCUSDT'')] 1000000 = (tr, r)"
    by (cases "perp_collect partial_upstream [(''BTC-USD'', ''BTCUSDT'')] 1000000")
  from perp_poll_bounded_and_atomic [OF c] obtain urls where u: "case r of
      Inr out \<Rightarrow> length urls = 1 + 5 * length [(''BTC-USD'', ''BTCUSDT'')] \<and>
        (\<exists>key rows. perp_key 1000000 = Inr key \<and> out = summary (length rows) key \<and>
           tr = map Fetched urls @ [Stored key (jsonl_gz partial_upstream (map perp_to_json rows))])
    | Inl e \<Rightarrow> length urls \<le> 1 + 5 * length [(''BTC-USD'', ''BTCUSDT'')] \<and> tr = map Fetched urls" by blast
  have "length urls \<le> 6 \<and> (tr = map Fetched urls \<or> (\<exists>key body. tr = map Fetched urls @ [Stored key body]))"
    using u by (cases r) auto
  then have "length urls \<le> 6" "tr = map Fetched urls \<or> (\<exists>key body. tr = map Fetched urls @ [Stored key body])" by auto
  moreover from this(2) have "map Fetched urls = takeWhile (\<lambda>a. case a of Fetched u \<Rightarrow> True | Stored k b \<Rightarrow> False) tr"
    by (auto simp: tw tw0)
  ultimately show ?thesis using c by blast
qed

text \<open>
  One endpoint timing out never costs another's data: when premiumIndex answers
  with a sane market-wide list and every other endpoint either does not answer or answers with
  a well-formed payload, the poll returns and stores one row for each configured instrument the
  list names, in order, whichever endpoints were down.
\<close>

theorem perp_poll_survives_outages:
  assumes "0 < poll" and "perp_key poll = Inr key"
    and "rbind (u_fetch u premium_url) (u_loads u) = Inr premium" and "json_true premium"
    and "json_iter premium = Inr market" and "\<forall>row\<in>set market. market_row_ok row"
    and "\<forall>p\<in>set pairs. answers u (interest_url (snd p)) (times_ok [''time''])"
    and "\<forall>p\<in>set pairs. \<forall>(f, e)\<in>set ratio_endpoints. answers u (ratio_url e (snd p)) (ratio_payload_ok f)"
  shows "\<exists>tr rows. perp_collect u pairs poll =
      (tr @ [Stored key (jsonl_gz u (map perp_to_json rows))], Inr (summary (length rows) key)) \<and>
    map row_key rows = filter (\<lambda>p. answered market (snd p)) pairs"
proof -
  have f: "fetch_json u premium_url = ([Fetched premium_url], Inr premium)"
    using assms(3) by (simp add: fetch_json_def)
  have "\<exists>tr oi' ratios'. poll_pairs u [] [] pairs = (tr, Inr (oi', ratios')) \<and>
    (\<forall>(s, interest)\<in>set oi'. times_ok [''time''] interest) \<and>
    (\<forall>(s, fams)\<in>set ratios'. \<forall>(f, pl)\<in>set fams. ratio_payload_ok f pl)"
    by (rule poll_pairs_ok) (use assms(7,8) in auto)
  then obtain tr oi ratios where p: "poll_pairs u [] [] pairs = (tr, Inr (oi, ratios))"
    "\<forall>(s, interest)\<in>set oi. times_ok [''time''] interest"
    "\<forall>(s, fams)\<in>set ratios. \<forall>(f, pl)\<in>set fams. ratio_payload_ok f pl" by auto
  from build_rows_answered [OF assms(1,5,6) p(2,3), of pairs] obtain rows where
    rows: "build_rows pairs premium oi ratios poll = Inr rows" "map row_key rows = filter (\<lambda>p. answered market (snd p)) pairs"
    by auto
  with perp_collect_after_poll [OF f p(1), of poll] assms(2,4) show ?thesis
    by (intro exI [of _ "Fetched premium_url # tr"] exI [of _ rows]) simp
qed

lemma partial_down: "url \<noteq> premium_url \<Longrightarrow> url \<noteq> alfred_csv_url ''VIXCLS'' ''2026-01-15'' \<Longrightarrow> answers partial_upstream url good"
  by (simp add: answers_def partial_upstream_def down_def)

theorem perp_poll_survives_outages_witness:
  "\<exists>tr key rows. perp_collect partial_upstream [(''BTC-USD'', ''BTCUSDT''), (''SOL-USD'', ''SOLUSDT'')] 1000000 =
      (tr @ [Stored key (jsonl_gz partial_upstream (map perp_to_json rows))], Inr (summary (length rows) key)) \<and>
    map row_key rows = [(''BTC-USD'', ''BTCUSDT'')]"
proof -
  obtain key where key: "perp_key 1000000 = Inr key" by (simp add: perp_key_def example_day)
  have urls: "interest_url s \<noteq> premium_url" "interest_url s \<noteq> alfred_csv_url ''VIXCLS'' ''2026-01-15''"
      "ratio_url e s \<noteq> premium_url" "ratio_url e s \<noteq> alfred_csv_url ''VIXCLS'' ''2026-01-15''" for s e
    by (simp_all add: interest_url_def ratio_url_def premium_url_def fapi_base_def alfred_csv_url_def alfred_csv_base_def)
  have "\<exists>tr rows. perp_collect partial_upstream [(''BTC-USD'', ''BTCUSDT''), (''SOL-USD'', ''SOLUSDT'')] 1000000 =
      (tr @ [Stored key (jsonl_gz partial_upstream (map perp_to_json rows))], Inr (summary (length rows) key)) \<and>
    map row_key rows = filter (\<lambda>p. answered [example_premium] (snd p)) [(''BTC-USD'', ''BTCUSDT''), (''SOL-USD'', ''SOLUSDT'')]"
  proof (rule perp_poll_survives_outages [OF _ key, where premium = "JArr [example_premium]"])
    show "rbind (u_fetch partial_upstream premium_url) (u_loads partial_upstream) = Inr (JArr [example_premium])"
      by (simp add: partial_upstream_def)
    show "\<forall>row\<in>set [example_premium]. market_row_ok row"
      by (simp add: example_premium_def market_row_ok_def row_symbol_def times_ok_def dict_item_def)
  qed (auto intro: partial_down simp: urls)
  moreover have "filter (\<lambda>p. answered [example_premium] (snd p)) [(''BTC-USD'', ''BTCUSDT''), (''SOL-USD'', ''SOLUSDT'')] =
      [(''BTC-USD'', ''BTCUSDT'')]"
    by (simp add: answered_def row_symbol_def example_premium_def dict_item_def)
  ultimately show ?thesis by metis
qed

text \<open>What one series contributes.\<close>

definition series_observations :: "upstream \<Rightarrow> string \<Rightarrow> string option \<Rightarrow> macro_series \<Rightarrow> macro_observation list" where
  "series_observations u vintage since m =
     (case rbind (rbind (u_fetch u (alfred_csv_url (ms_series_id m) vintage)) (u_decode u))
        (\<lambda>text. parse_alfred_csv text (ms_series_id m) vintage since) of Inr obs \<Rightarrow> obs | Inl e \<Rightarrow> [])"

text \<open>
  A missing series never costs another: when each series either does not answer
  or answers with text that parses, the pull stores, in the order of SERIES, exactly the
  observations of those that answered.
\<close>

theorem macro_pull_keeps_answering_series:
  assumes "\<forall>m\<in>set series. case rbind (u_fetch u (alfred_csv_url (ms_series_id m) vintage)) (u_decode u) of
      Inl e \<Rightarrow> exn_kind e = UpstreamUnavailable
    | Inr text \<Rightarrow> (\<exists>obs. parse_alfred_csv text (ms_series_id m) vintage since = Inr obs)"
  shows "\<exists>tr. macro_collect u vintage since =
    (let obs = concat (map (series_observations u vintage since) series) in
     (tr @ [Stored (macro_key vintage) (jsonl_gz u (map observation_to_json obs))], Inr (summary (length obs) (macro_key vintage))))"
proof -
  have "\<exists>tr. pull_series u vintage since ms = (tr, Inr (concat (map (series_observations u vintage since) ms)))"
    if "set ms \<subseteq> set series" for ms
    using that
  proof (induction ms)
    case (Cons m ms)
    then obtain tr where tr: "pull_series u vintage since ms = (tr, Inr (concat (map (series_observations u vintage since) ms)))"
      by auto
    from Cons.prems assms have ans: "case rbind (u_fetch u (alfred_csv_url (ms_series_id m) vintage)) (u_decode u) of
      Inl e \<Rightarrow> exn_kind e = UpstreamUnavailable
    | Inr text \<Rightarrow> (\<exists>obs. parse_alfred_csv text (ms_series_id m) vintage since = Inr obs)" by auto
    have "pull_series u vintage since (m # ms) = (Fetched (alfred_csv_url (ms_series_id m) vintage) # tr,
        Inr (series_observations u vintage since m @ concat (map (series_observations u vintage since) ms)))"
    proof (cases "rbind (u_fetch u (alfred_csv_url (ms_series_id m) vintage)) (u_decode u)")
      case (Inl e)
      then have "series_observations u vintage since m = []" by (simp add: series_observations_def)
      with Inl ans show ?thesis by (simp add: tr Let_def)
    next
      case (Inr body)
      with ans obtain obs where
        obs: "parse_alfred_csv body (ms_series_id m) vintage since = Inr obs" by auto
      with Inr have "series_observations u vintage since m = obs" by (simp add: series_observations_def)
      with Inr obs show ?thesis by (simp add: tr Let_def)
    qed
    then show ?case by auto
  qed auto
  from this [of series] obtain tr where
    tr: "pull_series u vintage since series = (tr, Inr (concat (map (series_observations u vintage since) series)))" by auto
  show ?thesis by (rule exI [of _ tr]) (simp only: macro_collect_def tr run_bind.simps Let_def prod.case)
qed

theorem macro_pull_keeps_answering_series_witness:
  "\<exists>tr key body. macro_collect partial_upstream ''2026-01-15'' None = (tr @ [Stored key body], Inr (summary 1 key))"
proof -
  have ok: "cell_ok (''observation_date'', ''VIXCLS'' @ ''_20260115'')" "cell_ok (''2026-01-14'', ''15.9'')"
    by (simp_all add: cell_evals)
  have next_row: "csv_next csv_start (io_lines (concat (map csv_line [(''observation_date'', ''VIXCLS_20260115''), (''2026-01-14'', ''15.9'')]))) =
      Inr (Some ([''observation_date'', ''VIXCLS_20260115''], io_lines (concat (map csv_line [(''2026-01-14'', ''15.9'')]))))"
    using io_lines_csv_line [OF ok(1)] csv_line_chars [OF ok(1)] by simp
  have rows: "csv_rows csv_start (io_lines (concat (map csv_line [(''2026-01-14'', ''15.9'')]))) = Inr [[''2026-01-14'', ''15.9'']]"
    using csv_rows_lines [of "[(''2026-01-14'', ''15.9'')]"] ok(2) by simp
  from ok(2) have strips: "strip ''2026-01-14'' = ''2026-01-14''" "strip ''15.9'' = ''15.9''" by (simp_all add: cell_ok_def)
  obtain ob where vix: "parse_alfred_csv vix_csv ''VIXCLS'' ''2026-01-15'' None = Inr [ob]"
    unfolding parse_alfred_csv_def vix_csv_def next_row rbind.simps option.case prod.case list.case rows
    by (simp add: rows row_observation_def strips)
  have fetch: "u_fetch partial_upstream (alfred_csv_url s ''2026-01-15'') = (if s = ''VIXCLS'' then Inr vix_csv else Inl down)" for s
    by (simp add: partial_upstream_def alfred_csv_url_def alfred_csv_base_def premium_url_def fapi_base_def)
  have dec: "u_decode partial_upstream = Inr" by (simp add: partial_upstream_def)
  have "concat (map (series_observations partial_upstream ''2026-01-15'' None) series) = [ob]"
    by (simp add: series_def series_observations_def fetch dec vix down_def)
  moreover have "\<forall>m\<in>set series. case rbind (u_fetch partial_upstream (alfred_csv_url (ms_series_id m) ''2026-01-15'')) (u_decode partial_upstream) of
      Inl e \<Rightarrow> exn_kind e = UpstreamUnavailable
    | Inr text \<Rightarrow> (\<exists>obs. parse_alfred_csv text (ms_series_id m) ''2026-01-15'' None = Inr obs)"
    by (simp add: series_def fetch dec vix down_def)
  ultimately show ?thesis using macro_pull_keeps_answering_series [where u = partial_upstream and vintage = "''2026-01-15''" and since = None]
    by (auto simp: Let_def)
qed

end
