(* ===== verification/Render.thy ===== *)
theory Render
  imports Athena
begin

text \<open>
  awsnative/render.py: the SQL templates. First string.Template: the tokens its pattern finds,
  from left to right, and substitute and get_identifiers over them. Then the functions that put
  statements together. The parameter sql reads a .sql file relative to awsnative/sql; parameters
  of a template are text already (str of an int is int_str).
\<close>

subsection \<open>string.Template\<close>

datatype tok = Plain char | Escaped | Placeholder bool string | Invalid

definition id_start :: "char \<Rightarrow> bool" where
  "id_start ch = (let n = (of_char ch :: nat) in n = 95 \<or> (65 \<le> n \<and> n \<le> 90) \<or> (97 \<le> n \<and> n \<le> 122))"

definition id_char :: "char \<Rightarrow> bool" where
  "id_char ch \<longleftrightarrow> id_start ch \<or> (let n = (of_char ch :: nat) in 48 \<le> n \<and> n \<le> 57)"

text \<open>The name of a braced placeholder and what follows it, after the opening brace.\<close>

definition braced :: "string \<Rightarrow> (string \<times> string) option" where
  "braced cs = (case cs of
     [] \<Rightarrow> None
   | e # es \<Rightarrow> if id_start e then (case dropWhile id_char es of
         r # rest \<Rightarrow> if r = CHR ''}'' then Some (e # takeWhile id_char es, rest) else None
       | [] \<Rightarrow> None)
     else None)"

lemma braced_Some: "braced cs = Some (n, rest) \<Longrightarrow> cs = n @ CHR ''}'' # rest"
  by (auto simp: braced_def split: list.splits if_splits) (metis takeWhile_dropWhile_id)

lemma braced_shorter: "braced cs = Some (n, rest) \<Longrightarrow> length rest \<le> Suc (length cs)"
  using arg_cong [OF braced_Some, of cs n rest length] by simp

function tokens :: "string \<Rightarrow> tok list" where
  "tokens [] = []"
| "tokens (c # cs) =
     (if c \<noteq> CHR ''$'' then Plain c # tokens cs
      else (case cs of
          [] \<Rightarrow> [Invalid]
        | d # ds \<Rightarrow>
            if d = CHR ''$'' then Escaped # tokens ds
            else if id_start d then Placeholder False (d # takeWhile id_char ds) # tokens (dropWhile id_char ds)
            else if d = CHR ''{'' \<and> braced ds \<noteq> None
              then Placeholder True (fst (the (braced ds))) # tokens (snd (the (braced ds)))
            else Invalid # tokens cs))"
  by pat_completeness auto
termination tokens
  by (relation "measure length")
    (auto simp: le_imp_less_Suc less_Suc_eq_le intro: le_SucI length_dropWhile_le
      dest: braced_shorter)

text \<open>The source text of a token.\<close>

fun tok_src :: "tok \<Rightarrow> string" where
  "tok_src (Plain c) = [c]"
| "tok_src Escaped = ''$$''"
| "tok_src (Placeholder b n) = (if b then ''${'' @ n @ ''}'' else ''$'' @ n)"
| "tok_src Invalid = ''$''"

text \<open>_invalid: the line and column of the character after the dollar sign.\<close>

definition invalid_error :: "string \<Rightarrow> exn" where
  "invalid_error before = (let ls = splitlines (before @ ''$'') in
     Exn ValueError (''Invalid placeholder in string: line '' @ nat_str (length ls) @ '', col '' @ nat_str (length (last ls))))"

fun substitute :: "(string, string) dict \<Rightarrow> string \<Rightarrow> tok list \<Rightarrow> string res" where
  "substitute params before [] = Inr []"
| "substitute params before (t # ts) =
     rbind (case t of
         Plain c \<Rightarrow> Inr [c]
       | Escaped \<Rightarrow> Inr ''$''
       | Placeholder b n \<Rightarrow> dict_item params n
       | Invalid \<Rightarrow> Inl (invalid_error before)) (\<lambda>s.
     rbind (substitute params (before @ tok_src t) ts) (\<lambda>rest. Inr (s @ rest)))"

definition render :: "string \<Rightarrow> (string, string) dict \<Rightarrow> string res" where
  "render template params = substitute params [] (tokens template)"

fun tok_name :: "tok \<Rightarrow> string list" where
  "tok_name (Placeholder b n) = [n]"
| "tok_name _ = []"

definition placeholders_in :: "string \<Rightarrow> string set" where
  "placeholders_in template = set (concat (map tok_name (tokens template)))"

lemma tokens_src: "concat (map tok_src (tokens cs)) = cs"
proof (induction cs rule: tokens.induct)
  case (2 c cs)
  show ?case
  proof (cases "c = CHR ''$''")
    case True
    show ?thesis
    proof (cases cs)
      case (Cons d ds)
      with True 2 braced_Some [of ds "fst (the (braced ds))" "snd (the (braced ds))"] show ?thesis
        by (auto simp: takeWhile_dropWhile_id)
    qed (use True in simp)
  qed (use 2 in simp)
qed simp

lemma substitute_Inr_iff:
  "(\<exists>s. substitute params before ts = Inr s) \<longleftrightarrow> Invalid \<notin> set ts \<and> set (concat (map tok_name ts)) \<subseteq> dom (map_of params)"
proof (induction ts arbitrary: before)
  case (Cons t ts)
  have item: "(\<exists>v. dict_item params n = Inr v) \<longleftrightarrow> n \<in> dom (map_of params)" for n
    by (simp add: dict_item_Inr_iff dom_def)
  show ?case using Cons [of "before @ tok_src t"] item
    by (cases t) (auto simp: res_simps)
qed simp

lemma tokens_plain: "CHR ''$'' \<notin> set s \<Longrightarrow> tokens (s @ rest) = map Plain s @ tokens rest"
  by (induction s) auto

lemma substitute_plain: "substitute params before (map Plain s @ ts) = rbind (substitute params (before @ s) ts) (\<lambda>r. Inr (s @ r))"
proof (induction s arbitrary: before)
  case Nil
  then show ?case by (cases "substitute params before ts") auto
next
  case (Cons c s)
  then show ?case by (cases "substitute params (before @ c # s) ts") auto
qed

subsection \<open>The statements\<close>

definition known_placeholders :: "string list" where
  "known_placeholders =
    [''database'',
     ''warehouse'',
     ''lookback_days'',
     ''valid_expr'',
     ''dirty_cte'',
     ''projection_start_date'',
     ''instrument_id'',
     ''table'',
     ''partition_predicate'',
     ''tier'',
     ''freshness_expr'',
     ''quarantine_expr'']"

definition ddl_files :: "string list" where
  "ddl_files =
    [''010_silver_trades.sql'',
     ''020_silver_trades_quarantine.sql'',
     ''030_gold_bars_1m.sql'',
     ''040_backfill_manifest.sql'',
     ''041_archive_staging_klines.sql'',
     ''042_archive_staging_trades.sql'',
     ''043_backfill_outcomes.sql'',
     ''050_bronze_perp_context.sql'',
     ''051_bronze_macro_observations.sql'',
     ''052_silver_perp_context.sql'',
     ''053_silver_macro.sql'',
     ''054_native_health_metrics.sql'']"

definition merge_silver :: string where "merge_silver = ''merge_silver_trades.sql''"

definition merge_quarantine :: string where "merge_quarantine = ''merge_silver_quarantine.sql''"

definition merge_gold :: string where "merge_gold = ''merge_gold_bars_1m.sql''"

definition merge_manifest_outcomes :: string where "merge_manifest_outcomes = ''merge_manifest_outcomes.sql''"

definition merge_silver_archive :: string where "merge_silver_archive = ''merge_silver_from_archive.sql''"

definition merge_gold_archive :: string where "merge_gold_archive = ''merge_gold_from_archive.sql''"

definition merge_perp_context :: string where "merge_perp_context = ''merge_silver_perp_context.sql''"

definition merge_macro :: string where "merge_macro = ''merge_silver_macro.sql''"

definition optimize_table :: string where "optimize_table = ''optimize_table.sql''"

definition vacuum_table :: string where "vacuum_table = ''vacuum_table.sql''"

definition health_metrics_row :: string where "health_metrics_row = ''health_metrics_row.sql''"

definition default_projection_start_date :: string where "default_projection_start_date = ''2026-01-01''"

text \<open>read_sql, and the two files read from the fragments directory.\<close>

type_synonym sql_dir = "string \<Rightarrow> string res"

definition read_sql :: "sql_dir \<Rightarrow> string \<Rightarrow> string res" where
  "read_sql sql relative = sql relative"

definition valid_expr :: "sql_dir \<Rightarrow> string res" where
  "valid_expr sql = sql ''fragments/valid_trade.sql''"

definition dirty_from_bronze :: "sql_dir \<Rightarrow> string \<Rightarrow> int \<Rightarrow> string res" where
  "dirty_from_bronze sql database lookback_days =
     rbind (sql ''fragments/dirty_from_bronze.sql'') (\<lambda>t.
       render t [(''database'', database), (''lookback_days'', int_str lookback_days)])"

text \<open>A template read and rendered.\<close>

definition render_file :: "sql_dir \<Rightarrow> string \<Rightarrow> (string, string) dict \<Rightarrow> string res" where
  "render_file sql file params = rbind (read_sql sql file) (\<lambda>t. render t params)"

definition ddl_statements :: "sql_dir \<Rightarrow> string \<Rightarrow> string \<Rightarrow> string \<Rightarrow> (string \<times> string) list res" where
  "ddl_statements sql database warehouse projection_start_date =
     (let w = (if warehouse \<noteq> [] \<and> last warehouse = CHR ''/'' then warehouse else warehouse @ ''/'') in
      rmap (\<lambda>name. rbind (render_file sql (''ddl/'' @ name) [(''database'', database), (''warehouse'', w),
          (''projection_start_date'', projection_start_date)]) (\<lambda>s. Inr (name, s))) ddl_files)"

definition merge_statements :: "sql_dir \<Rightarrow> string \<Rightarrow> int \<Rightarrow> (string \<times> string) list res" where
  "merge_statements sql database lookback_days =
     rbind (valid_expr sql) (\<lambda>expr.
     rbind (render_file sql merge_silver [(''database'', database), (''lookback_days'', int_str lookback_days),
         (''valid_expr'', expr)]) (\<lambda>silver.
     rbind (render_file sql merge_quarantine [(''database'', database), (''lookback_days'', int_str lookback_days),
         (''valid_expr'', expr)]) (\<lambda>quarantine.
     rbind (read_sql sql merge_gold) (\<lambda>gold_template.
     rbind (dirty_from_bronze sql database lookback_days) (\<lambda>dirty.
     rbind (render gold_template [(''database'', database), (''dirty_cte'', dirty)]) (\<lambda>gold.
       Inr [(merge_silver, silver), (merge_quarantine, quarantine), (merge_gold, gold)]))))))"

definition backfill_statements :: "sql_dir \<Rightarrow> string \<Rightarrow> (string \<times> string) list res" where
  "backfill_statements sql database =
     rmap (\<lambda>name. rbind (render_file sql name [(''database'', database)]) (\<lambda>s. Inr (name, s)))
       [merge_manifest_outcomes, merge_silver_archive, merge_gold_archive]"

definition enrichment_statements :: "sql_dir \<Rightarrow> string \<Rightarrow> int \<Rightarrow> (string \<times> string) list res" where
  "enrichment_statements sql database lookback_days =
     rbind (render_file sql merge_perp_context [(''database'', database), (''lookback_days'', int_str lookback_days)]) (\<lambda>perp.
     rbind (render_file sql merge_macro [(''database'', database)]) (\<lambda>macro.
       Inr [(merge_perp_context, perp), (merge_macro, macro)]))"

definition window_predicate :: "string \<Rightarrow> string" where
  "window_predicate column = column @ '' >= current_date - interval '' @ quote_chr # ''${lookback_days}'' @ quote_chr # '' day''"

definition quarantine_window :: string where
  "quarantine_window = ''ingest_date >= date_format(current_date - interval '' @ quote_chr # ''${lookback_days}'' @ quote_chr # '' day, '' @ quote_chr # ''%Y-%m-%d'' @ quote_chr # '')''"

definition maintenance_partition_predicates :: "(string, string) dict" where
  "maintenance_partition_predicates =
     [(''silver_trades'', window_predicate ''event_ts''),
      (''silver_trades_quarantine'', quarantine_window),
      (''gold_bars_1m'', window_predicate ''window_end_ts''),
      (''silver_perp_context'', window_predicate ''snapshot_ts''),
      (''native_health_metrics'', window_predicate ''metric_ts'')]"

definition maintained_tables :: "string list" where
  "maintained_tables = [''silver_trades'', ''silver_trades_quarantine'', ''gold_bars_1m'', ''silver_perp_context'',
     ''silver_macro'', ''native_health_metrics'']"

text \<open>The vacuum statement and the optimize statement of a table, the latter rendered in two steps.\<close>

definition maintain_table :: "string \<Rightarrow> string \<Rightarrow> string \<Rightarrow> int \<Rightarrow> string \<Rightarrow> (string \<times> string option) res" where
  "maintain_table vacuum_template optimize_template database lookback_days table =
     rbind (render vacuum_template [(''database'', database), (''table'', table)]) (\<lambda>vacuum.
       case map_of maintenance_partition_predicates table of
         None \<Rightarrow> Inr (vacuum, None)
       | Some predicate_template \<Rightarrow>
           rbind (render predicate_template [(''lookback_days'', int_str lookback_days)]) (\<lambda>predicate.
           rbind (render optimize_template [(''database'', database), (''table'', table),
               (''partition_predicate'', predicate)]) (\<lambda>optimize. Inr (vacuum, Some optimize))))"

definition maintenance_statements :: "sql_dir \<Rightarrow> string \<Rightarrow> int \<Rightarrow> (string \<times> string \<times> string option) list res" where
  "maintenance_statements sql database lookback_days =
     rbind (read_sql sql vacuum_table) (\<lambda>vt. rbind (read_sql sql optimize_table) (\<lambda>opt.
       rmap (\<lambda>table. rbind (maintain_table vt opt database lookback_days table) (\<lambda>r. Inr (table, r))) maintained_tables))"

text \<open>The health metrics query.\<close>

definition freshness_of :: "string \<Rightarrow> string \<Rightarrow> string" where
  "freshness_of column table = ''(SELECT to_unixtime(current_timestamp) - to_unixtime('' @ column @ '') FROM ${database}.'' @ table @ '')''"

definition health_metrics_freshness_expr :: "(string, string) dict" where
  "health_metrics_freshness_expr =
     [(''silver_trades'', freshness_of ''max(event_ts)'' ''silver_trades''),
      (''gold_bars_1m'', freshness_of ''max(window_end_ts)'' ''gold_bars_1m''),
      (''silver_perp_context'', freshness_of ''max(snapshot_ts)'' ''silver_perp_context''),
      (''silver_macro'', freshness_of ''CAST(max(vintage_date) AS TIMESTAMP)'' ''silver_macro'')]"

definition health_metrics_quarantine_expr :: string where
  "health_metrics_quarantine_expr =
     ''(SELECT 100.0 * (SELECT count(*) FROM ${database}.silver_trades_quarantine '' @
     ''WHERE ingest_date >= date_format(current_date - interval '' @ quote_chr # ''${lookback_days}'' @ quote_chr # '' day, '' @ quote_chr # ''%Y-%m-%d'' @ quote_chr # '')) '' @
     ''/ NULLIF((SELECT count(*) FROM ${database}.silver_trades '' @
     ''WHERE event_ts >= current_date - interval '' @ quote_chr # ''${lookback_days}'' @ quote_chr # '' day), 0))''"

definition health_metrics_tier :: "(string, string) dict" where
  "health_metrics_tier = [(''silver_trades'', ''fast''), (''silver_trades_quarantine'', ''fast''), (''gold_bars_1m'', ''fast''),
     (''silver_perp_context'', ''fast''), (''silver_macro'', ''slow''), (''native_health_metrics'', ''fast'')]"

definition health_row :: "string \<Rightarrow> string \<Rightarrow> int \<Rightarrow> string \<Rightarrow> string res" where
  "health_row row_template database lookback_days table =
     rbind (case map_of health_metrics_freshness_expr table of
         Some t \<Rightarrow> render t [(''database'', database)]
       | None \<Rightarrow> Inr ''CAST(NULL AS bigint)'') (\<lambda>freshness.
     rbind (if table = ''silver_trades_quarantine''
         then render health_metrics_quarantine_expr [(''database'', database), (''lookback_days'', int_str lookback_days)]
         else Inr ''CAST(NULL AS double)'') (\<lambda>quarantine.
     rbind (dict_item health_metrics_tier table) (\<lambda>tr.
       render row_template [(''database'', database), (''table'', table), (''tier'', tr),
         (''freshness_expr'', freshness), (''quarantine_expr'', quarantine)])))"

definition health_metrics_select_statement :: "sql_dir \<Rightarrow> string \<Rightarrow> string list \<Rightarrow> int \<Rightarrow> string res" where
  "health_metrics_select_statement sql database tables lookback_days =
     rbind (read_sql sql health_metrics_row) (\<lambda>t.
     rbind (rmap (health_row t database lookback_days) tables) (\<lambda>rows.
       Inr (join ([newline] @ ''UNION ALL'' @ [newline]) rows)))"

subsection \<open>Facts\<close>

lemma render_Inr_iff:
  "(\<exists>s. render t ps = Inr s) \<longleftrightarrow> Invalid \<notin> set (tokens t) \<and> placeholders_in t \<subseteq> dom (map_of ps)"
  by (simp add: render_def placeholders_in_def substitute_Inr_iff)

text \<open>A template as its author thinks of it: text without a dollar sign, and braced names.\<close>

datatype tpiece = Lit string | Var string

definition is_name :: "string \<Rightarrow> bool" where
  "is_name n \<longleftrightarrow> n \<noteq> [] \<and> id_start (hd n) \<and> list_all id_char n"

fun tpiece_ok :: "tpiece \<Rightarrow> bool" where
  "tpiece_ok (Lit s) \<longleftrightarrow> CHR ''$'' \<notin> set s"
| "tpiece_ok (Var n) \<longleftrightarrow> is_name n"

fun tpiece_src :: "tpiece \<Rightarrow> string" where
  "tpiece_src (Lit s) = s"
| "tpiece_src (Var n) = ''${'' @ n @ ''}''"

fun tpiece_val :: "(string, string) dict \<Rightarrow> tpiece \<Rightarrow> string res" where
  "tpiece_val ps (Lit s) = Inr s"
| "tpiece_val ps (Var n) = dict_item ps n"

definition fill :: "(string, string) dict \<Rightarrow> tpiece list \<Rightarrow> string res" where
  "fill ps pieces = rbind (rmap (tpiece_val ps) pieces) (\<lambda>ss. Inr (concat ss))"

lemma brace_facts: "\<not> id_start CHR ''{''" "\<not> id_char CHR ''}''" "\<not> id_start CHR ''$''"
  by (simp_all add: id_start_def id_char_def)

lemma braced_name: "is_name n \<Longrightarrow> braced (n @ CHR ''}'' # rest) = Some (n, rest)"
proof (cases n)
  case (Cons e es)
  assume "is_name n"
  then have "id_start e" "\<forall>c\<in>set es. id_char c" by (auto simp: Cons is_name_def list_all_iff)
  then have "takeWhile id_char (es @ CHR ''}'' # rest) = es" "dropWhile id_char (es @ CHR ''}'' # rest) = CHR ''}'' # rest"
    by (simp_all add: takeWhile_append2 dropWhile_append2 brace_facts takeWhile_append dropWhile_append)
  with \<open>id_start e\<close> show ?thesis by (simp add: Cons braced_def)
qed (simp add: is_name_def)

lemma tokens_var: "is_name n \<Longrightarrow> tokens (''${'' @ n @ ''}'' @ rest) = Placeholder True n # tokens rest"
  using braced_name [of n rest] by (simp add: brace_facts)

lemma substitute_pieces:
  "list_all tpiece_ok pieces \<Longrightarrow> substitute ps before (tokens (concat (map tpiece_src pieces))) = fill ps pieces"
proof (induction pieces arbitrary: before)
  case (Cons q qs)
  show ?case
  proof (cases q)
    case (Lit s)
    with Cons show ?thesis
      by (simp add: tokens_plain substitute_plain fill_def rbind_assoc)
  next
    case (Var n)
    with Cons.prems have "is_name n" by simp
    have "tokens (concat (map tpiece_src (q # qs))) = Placeholder True n # tokens (concat (map tpiece_src qs))"
      using tokens_var [OF \<open>is_name n\<close>, of "concat (map tpiece_src qs)"] by (simp add: Var)
    with Cons show ?thesis
      by (simp add: Var fill_def rbind_assoc)
  qed
qed (simp add: fill_def)

lemma render_pieces: "list_all tpiece_ok pieces \<Longrightarrow> render (concat (map tpiece_src pieces)) ps = fill ps pieces"
  by (simp add: render_def substitute_pieces)

lemma lookback_name: "is_name ''lookback_days''" "is_name ''database''"
  by (simp_all add: is_name_def id_char_def id_start_def)

lemma no_dollar: "CHR ''$'' \<noteq> quote_chr" "quote_chr \<noteq> CHR ''$''"
  by (simp_all add: quote_chr_def char_of_def)

lemma int_str_no_dollar: "CHR ''$'' \<notin> set (int_str n)"
  by (rule int_str_no_char) simp_all

text \<open>One lookback window in otherwise plain text.\<close>

definition one_window :: "string \<Rightarrow> bool" where
  "one_window t \<longleftrightarrow> (\<exists>a b. t = a @ ''${lookback_days}'' @ b \<and> CHR ''$'' \<notin> set a \<and> CHR ''$'' \<notin> set b)"

lemma one_windowI: "t = a @ ''${lookback_days}'' @ b \<Longrightarrow> CHR ''$'' \<notin> set a \<Longrightarrow> CHR ''$'' \<notin> set b \<Longrightarrow> one_window t"
  by (auto simp: one_window_def)

lemma window_predicate_window: "CHR ''$'' \<notin> set c \<Longrightarrow> one_window (window_predicate c)"
  by (rule one_windowI [of _ "c @ '' >= current_date - interval '' @ [quote_chr]" "quote_chr # '' day''"])
    (simp_all add: window_predicate_def no_dollar)

lemma quarantine_window_window: "one_window quarantine_window"
  by (rule one_windowI [of _ "''ingest_date >= date_format(current_date - interval '' @ [quote_chr]"
        "quote_chr # '' day, '' @ quote_chr # ''%Y-%m-%d'' @ quote_chr # '')''"])
    (simp_all add: quarantine_window_def no_dollar)

lemma predicate_shape: "map_of maintenance_partition_predicates table = Some t \<Longrightarrow> one_window t"
  by (auto simp: maintenance_partition_predicates_def split: if_splits
      intro!: window_predicate_window quarantine_window_window)

lemma predicate_rendered:
  assumes "map_of maintenance_partition_predicates table = Some t"
  shows "\<exists>p. render t [(''lookback_days'', int_str n)] = Inr p \<and> CHR ''$'' \<notin> set p"
proof -
  from predicate_shape [OF assms] obtain a b where t: "t = concat (map tpiece_src [Lit a, Var ''lookback_days'', Lit b])"
    and ab: "CHR ''$'' \<notin> set a" "CHR ''$'' \<notin> set b" by (auto simp: one_window_def)
  have "render t [(''lookback_days'', int_str n)] = Inr (a @ int_str n @ b)"
    unfolding t by (subst render_pieces) (simp_all add: ab lookback_name fill_def dict_item_def)
  with ab int_str_no_dollar show ?thesis by simp
qed

text \<open>A template that renders with the given names and no others.\<close>

definition uses_only :: "string \<Rightarrow> string set \<Rightarrow> bool" where
  "uses_only t names \<longleftrightarrow> Invalid \<notin> set (tokens t) \<and> placeholders_in t \<subseteq> names"

lemma uses_only_renders: "uses_only t names \<Longrightarrow> names \<subseteq> dom (map_of ps) \<Longrightarrow> \<exists>s. render t ps = Inr s"
  by (auto simp: uses_only_def render_Inr_iff)

lemma maintain_table_returns:
  assumes "uses_only vt {''database'', ''table''}" and "uses_only ot {''database'', ''table'', ''partition_predicate''}"
  shows "\<exists>v op. maintain_table vt ot db n table = Inr (v, op) \<and> render vt [(''database'', db), (''table'', table)] = Inr v \<and>
    (case map_of maintenance_partition_predicates table of
       None \<Rightarrow> op = None
     | Some t \<Rightarrow> \<exists>p s. render t [(''lookback_days'', int_str n)] = Inr p \<and> CHR ''$'' \<notin> set p \<and> op = Some s \<and>
         render ot [(''database'', db), (''table'', table), (''partition_predicate'', p)] = Inr s)"
proof -
  obtain v where v: "render vt [(''database'', db), (''table'', table)] = Inr v"
    using uses_only_renders [OF assms(1), of "[(''database'', db), (''table'', table)]"] by auto
  have o: "\<exists>s. render ot [(''database'', db), (''table'', table), (''partition_predicate'', p)] = Inr s" for p
    using uses_only_renders [OF assms(2), of "[(''database'', db), (''table'', table), (''partition_predicate'', p)]"] by auto
  show ?thesis
  proof (cases "map_of maintenance_partition_predicates table")
    case None
    with v show ?thesis by (simp add: maintain_table_def)
  next
    case (Some t)
    from predicate_rendered [OF Some, of n] obtain p where p: "render t [(''lookback_days'', int_str n)] = Inr p" "CHR ''$'' \<notin> set p"
      by auto
    obtain s where "render ot [(''database'', db), (''table'', table), (''partition_predicate'', p)] = Inr s" using o by blast
    with Some v p show ?thesis by (simp add: maintain_table_def)
  qed
qed

lemma predicate_tables: "table \<in> set maintained_tables \<Longrightarrow> map_of maintenance_partition_predicates table = None \<longleftrightarrow> table = ''silver_macro''"
  by (auto simp: maintained_tables_def maintenance_partition_predicates_def)

subsection \<open>Properties\<close>

text \<open>
  Property C24. A template of plain text and braced placeholders renders to what its author
  reads: every placeholder is replaced by its parameter and the text is kept, in order; a
  parameter that is missing raises the KeyError of the first such name, never a half-rendered
  statement. A value is not scanned again.
\<close>

theorem render_fills_placeholders:
  assumes "list_all tpiece_ok pieces"
  shows "render (concat (map tpiece_src pieces)) params = fill params pieces"
  using assms by (rule render_pieces)

theorem render_fills_placeholders_witness:
  "render ''SELECT * FROM ${database}.t'' [(''database'', ''fdai'')] = Inr ''SELECT * FROM fdai.t'' \<and>
   render ''SELECT * FROM ${database}.t'' [] = Inl (Exn KeyError (py_repr ''database''))"
  using render_fills_placeholders [of "[Lit ''SELECT * FROM '', Var ''database'', Lit ''.t'']" "[(''database'', ''fdai'')]"]
    render_fills_placeholders [of "[Lit ''SELECT * FROM '', Var ''database'', Lit ''.t'']" "[]"]
  by (simp add: lookback_name fill_def dict_item_def)

text \<open>
  Every maintained table gets a vacuum statement, and an optimize statement unless
  it is silver_macro: with template files that use only the names passed to them the call
  returns, lists the tables in order, and each optimize statement carries a partition predicate
  in which no placeholder is left.
\<close>

theorem maintenance_covers_every_table:
  assumes "sql vacuum_table = Inr vt" and "uses_only vt {''database'', ''table''}"
    and "sql optimize_table = Inr ot" and "uses_only ot {''database'', ''table'', ''partition_predicate''}"
  shows "\<exists>d. maintenance_statements sql db n = Inr d \<and> map fst d = maintained_tables \<and>
    (\<forall>e\<in>set d. render vt [(''database'', db), (''table'', fst e)] = Inr (fst (snd e)) \<and>
      (case snd (snd e) of
         None \<Rightarrow> fst e = ''silver_macro''
       | Some s \<Rightarrow> fst e \<noteq> ''silver_macro'' \<and> (\<exists>p. CHR ''$'' \<notin> set p \<and>
           render ot [(''database'', db), (''table'', fst e), (''partition_predicate'', p)] = Inr s)))"
proof -
  let ?f = "\<lambda>table. rbind (maintain_table vt ot db n table) (\<lambda>r. Inr (table, r))"
  have "\<forall>t. \<exists>r. maintain_table vt ot db n t = Inr r"
    using maintain_table_returns [OF assms(2,4)] by blast
  then obtain g where g: "\<And>t. maintain_table vt ot db n t = Inr (g t)" by metis
  have "rmap ?f maintained_tables = Inr (map (\<lambda>t. (t, g t)) maintained_tables)"
    by (rule rmap_all_Inr) (simp add: g)
  then have "maintenance_statements sql db n = Inr (map (\<lambda>t. (t, g t)) maintained_tables)"
    by (simp add: maintenance_statements_def read_sql_def assms(1,3))
  moreover have "render vt [(''database'', db), (''table'', t)] = Inr (fst (g t)) \<and>
      (case snd (g t) of
         None \<Rightarrow> t = ''silver_macro''
       | Some s \<Rightarrow> t \<noteq> ''silver_macro'' \<and> (\<exists>p. CHR ''$'' \<notin> set p \<and>
           render ot [(''database'', db), (''table'', t), (''partition_predicate'', p)] = Inr s))"
    if "t \<in> set maintained_tables" for t
    using maintain_table_returns [OF assms(2,4), of db n t] predicate_tables [OF that] g [of t]
    by (auto split: option.splits)
  ultimately show ?thesis by (fastforce simp: o_def split: option.splits)
qed

theorem maintenance_covers_every_table_witness:
  "\<exists>d. maintenance_statements (\<lambda>f. if f = vacuum_table then Inr ''VACUUM ${database}.${table}''
      else Inr ''OPTIMIZE ${database}.${table} REWRITE DATA USING BIN_PACK WHERE ${partition_predicate}'') ''fdai'' 7 = Inr d \<and>
    map fst d = maintained_tables"
proof -
  have names: "is_name ''table''" "is_name ''database''" "is_name ''partition_predicate''"
    by (simp_all add: is_name_def id_char_def id_start_def)
  have r: "\<exists>s. render (concat (map tpiece_src ps)) [(''database'', []), (''table'', []), (''partition_predicate'', [])] = Inr s"
    if "list_all tpiece_ok ps" "set ps \<subseteq> {Var ''database'', Var ''table'', Var ''partition_predicate''} \<union> range Lit" for ps
  proof -
    have "\<exists>s. tpiece_val [(''database'', []), (''table'', []), (''partition_predicate'', [])] q = Inr s" if "q \<in> set ps" for q
      using that \<open>set ps \<subseteq> _\<close> by (auto simp: dict_item_def)
    then have "\<exists>ss. rmap (tpiece_val [(''database'', []), (''table'', []), (''partition_predicate'', [])]) ps = Inr ss"
      by (simp add: rmap_Inr_exists)
    with that(1) show ?thesis by (auto simp: render_pieces fill_def)
  qed
  have "\<exists>s. render ''VACUUM ${database}.${table}'' [(''database'', []), (''table'', [])] = Inr s"
    using render_pieces [of "[Lit ''VACUUM '', Var ''database'', Lit ''.'', Var ''table'']"]
    by (simp add: names fill_def dict_item_def)
  then have v: "uses_only ''VACUUM ${database}.${table}'' {''database'', ''table''}"
    by (auto simp: uses_only_def render_Inr_iff)
  have "\<exists>s. render ''OPTIMIZE ${database}.${table} REWRITE DATA USING BIN_PACK WHERE ${partition_predicate}''
      [(''database'', []), (''table'', []), (''partition_predicate'', [])] = Inr s"
    using r [of "[Lit ''OPTIMIZE '', Var ''database'', Lit ''.'', Var ''table'', Lit '' REWRITE DATA USING BIN_PACK WHERE '',
      Var ''partition_predicate'']"] by (simp add: names)
  then have ot: "uses_only ''OPTIMIZE ${database}.${table} REWRITE DATA USING BIN_PACK WHERE ${partition_predicate}''
      {''database'', ''table'', ''partition_predicate''}"
    by (auto simp: uses_only_def render_Inr_iff)
  have "vacuum_table \<noteq> optimize_table" by (simp add: vacuum_table_def optimize_table_def)
  then show ?thesis
    using maintenance_covers_every_table [where sql = "\<lambda>f. if f = vacuum_table then Inr ''VACUUM ${database}.${table}''
      else Inr ''OPTIMIZE ${database}.${table} REWRITE DATA USING BIN_PACK WHERE ${partition_predicate}''", OF _ v _ ot, where db = "''fdai''" and n = 7]
    by auto
qed

end
