(* ===== verification/Monitoring.thy ===== *)
theory Monitoring
  imports Render
begin

text \<open>
  awsnative/monitoring/collect.py: rows of the health metrics query to CloudWatch entries and
  to one INSERT, and the Lambda entry point over the Athena client. The parameter flt is
  Python's float() of a text, None where it raises ValueError.
\<close>

definition metric_columns :: "string list" where
  "metric_columns = [''row_count'', ''file_count'', ''avg_file_size_mb'', ''small_file_pct'', ''delete_file_count'',
     ''snapshot_count'', ''oldest_snapshot_age_seconds'', ''freshness_lag_seconds'', ''quarantine_rate_pct'']"

definition cell_float :: "(string \<Rightarrow> 'f option) \<Rightarrow> string option \<Rightarrow> 'f option" where
  "cell_float flt value = (case value of None \<Rightarrow> None | Some s \<Rightarrow> if s = [] then None else flt s)"

definition upper_chr :: "char \<Rightarrow> char" where
  "upper_chr ch = (let n = (of_char ch :: nat) in if 97 \<le> n \<and> n \<le> 122 then char_of (n - 32) else ch)"

text \<open>str.capitalize on ASCII text.\<close>

definition capitalize :: "string \<Rightarrow> string" where
  "capitalize s = (case s of [] \<Rightarrow> [] | c # cs \<Rightarrow> upper_chr c # lower cs)"

definition pascal_case :: "string \<Rightarrow> string" where
  "pascal_case column = concat (map capitalize (split_on CHR ''_'' column))"

definition ends_with :: "string \<Rightarrow> string \<Rightarrow> bool" where
  "ends_with suffix s \<longleftrightarrow> length suffix \<le> length s \<and> drop (length s - length suffix) s = suffix"

record 'f metric =
  mt_name :: string
  mt_table :: string
  mt_value :: 'f
  mt_unit :: string

definition row_metrics :: "(string \<Rightarrow> 'f option) \<Rightarrow> (string, string) dict \<Rightarrow> 'f metric list res" where
  "row_metrics flt row = rbind (dict_item row ''table_name'') (\<lambda>table.
     Inr (concat (map (\<lambda>column. case cell_float flt (map_of row column) of
         None \<Rightarrow> []
       | Some v \<Rightarrow> [\<lparr> mt_name = pascal_case column, mt_table = table, mt_value = v,
           mt_unit = (if ends_with ''_seconds'' column then ''Seconds'' else ''None'') \<rparr>]) metric_columns)))"

definition metric_data :: "(string \<Rightarrow> 'f option) \<Rightarrow> (string, string) dict list \<Rightarrow> 'f metric list res" where
  "metric_data flt rows = rbind (rmap (row_metrics flt) rows) (\<lambda>es. Inr (concat es))"

definition sql_literal :: "string option \<Rightarrow> bool \<Rightarrow> string" where
  "sql_literal value q = (case value of
     None \<Rightarrow> ''NULL''
   | Some s \<Rightarrow> if s = [] then ''NULL'' else if q then [quote_chr] @ s @ [quote_chr] else s)"

definition string_columns :: "string list" where
  "string_columns = [''metric_ts'', ''table_name'', ''tier'']"

definition insert_columns :: "string list" where
  "insert_columns = [''metric_ts'', ''table_name'', ''tier''] @ metric_columns"

definition value_row :: "(string, string) dict \<Rightarrow> string" where
  "value_row row = ''('' @ join '', '' (map (\<lambda>c. sql_literal (map_of row c) (c \<in> set string_columns)) insert_columns) @ '')''"

definition insert_statement :: "string \<Rightarrow> (string, string) dict list \<Rightarrow> string" where
  "insert_statement database rows = ''INSERT INTO '' @ database @ ''.native_health_metrics ('' @ join '', '' insert_columns
     @ '') VALUES '' @ join '', '' (map value_row rows)"

text \<open>The entry point: the statements it runs and the metrics it publishes, beside its answer.\<close>

datatype 'f metrics_act = Ran string | Published "'f metric list"

definition health_metrics_handler ::
  "sql_dir \<Rightarrow> (string \<Rightarrow> 'f option) \<Rightarrow> athena \<Rightarrow> string list
    \<Rightarrow> ('f metrics_act list \<times> (string, string) dict res) option" where
  "health_metrics_handler sql flt a tables =
     (case health_metrics_select_statement sql (a_database a) tables 1 of
        Inl e \<Rightarrow> Some ([], Inl e)
      | Inr select_sql \<Rightarrow> (case execute a select_sql of
          None \<Rightarrow> None
        | Some r \<Rightarrow> (case rbind r (\<lambda>oc. rbind (fetch_rows a (o_query_id oc) (int (length tables))) (\<lambda>rows.
              rbind (metric_data flt rows) (\<lambda>entries. Inr (rows, entries)))) of
            Inl e \<Rightarrow> Some ([Ran select_sql], Inl e)
          | Inr (rows, entries) \<Rightarrow>
              (let ins = insert_statement (a_database a) rows;
                   acts = [Ran select_sql] @ (if entries = [] then [] else [Published entries]) @ [Ran ins]
               in map_option (\<lambda>w. (acts, rbind w (\<lambda>_. Inr [(''tables'', nat_str (length rows))]))) (execute a ins)))))"

subsection \<open>Facts\<close>

lemma upper_chr_simps: "pascal_case ''row_count'' = ''RowCount''" "pascal_case ''file_count'' = ''FileCount''"
  "pascal_case ''avg_file_size_mb'' = ''AvgFileSizeMb''" "pascal_case ''small_file_pct'' = ''SmallFilePct''"
  "pascal_case ''delete_file_count'' = ''DeleteFileCount''" "pascal_case ''snapshot_count'' = ''SnapshotCount''"
  "pascal_case ''oldest_snapshot_age_seconds'' = ''OldestSnapshotAgeSeconds''"
  "pascal_case ''freshness_lag_seconds'' = ''FreshnessLagSeconds''"
  "pascal_case ''quarantine_rate_pct'' = ''QuarantineRatePct''"
  by code_simp+

lemma pascal_distinct: "distinct (map pascal_case metric_columns)"
  by (simp add: metric_columns_def upper_chr_simps)

text \<open>The entries of one row, column by column.\<close>

definition entry_of :: "(string \<Rightarrow> 'f option) \<Rightarrow> string \<Rightarrow> (string, string) dict \<Rightarrow> string \<Rightarrow> 'f metric list" where
  "entry_of flt table row column = (case cell_float flt (map_of row column) of
     None \<Rightarrow> []
   | Some v \<Rightarrow> [\<lparr> mt_name = pascal_case column, mt_table = table, mt_value = v,
       mt_unit = (if ends_with ''_seconds'' column then ''Seconds'' else ''None'') \<rparr>])"

lemma row_metrics_Inr:
  "row_metrics flt row = Inr es \<longleftrightarrow> (\<exists>table. map_of row ''table_name'' = Some table \<and>
     es = concat (map (entry_of flt table row) metric_columns))"
  by (auto simp: row_metrics_def entry_of_def [abs_def] res_simps)

lemma entries_length: "length (concat (map (entry_of flt table row) cs)) \<le> length cs"
  by (induction cs) (auto simp: entry_of_def split: option.splits)

lemma entries_names: "map mt_name (concat (map (entry_of flt table row) cs)) =
    map pascal_case (filter (\<lambda>c. cell_float flt (map_of row c) \<noteq> None) cs)"
  by (induction cs) (auto simp: entry_of_def split: option.splits)

lemma entries_table: "m \<in> set (concat (map (entry_of flt table row) cs)) \<Longrightarrow> mt_table m = table"
  by (auto simp: entry_of_def split: option.splits)

lemma metric_data_Cons:
  "metric_data flt (row # rows) = Inr es \<longleftrightarrow> (\<exists>table rest. map_of row ''table_name'' = Some table \<and>
     metric_data flt rows = Inr rest \<and> es = concat (map (entry_of flt table row) metric_columns) @ rest)"
  by (auto simp: metric_data_def res_simps row_metrics_Inr)

definition published :: "'f metric list \<Rightarrow> string \<Rightarrow> string \<Rightarrow> 'f \<Rightarrow> bool" where
  "published es t n v \<longleftrightarrow> (\<exists>m\<in>set es. mt_table m = t \<and> mt_name m = n \<and> mt_value m = v)"

definition measured :: "(string \<Rightarrow> 'f option) \<Rightarrow> (string, string) dict list \<Rightarrow> string \<Rightarrow> string \<Rightarrow> 'f \<Rightarrow> bool" where
  "measured flt rows t n v \<longleftrightarrow> (\<exists>row\<in>set rows. \<exists>c\<in>set metric_columns. map_of row ''table_name'' = Some t \<and>
     n = pascal_case c \<and> cell_float flt (map_of row c) = Some v)"

lemma published_append: "published (xs @ ys) t n v \<longleftrightarrow> published xs t n v \<or> published ys t n v"
  by (auto simp: published_def)

lemma published_entry:
  "published (entry_of flt table row c) t n v \<longleftrightarrow> t = table \<and> n = pascal_case c \<and> cell_float flt (map_of row c) = Some v"
  by (auto simp: published_def entry_of_def split: option.splits)

lemma published_row:
  "published (concat (map (entry_of flt table row) cs)) t n v \<longleftrightarrow>
     (\<exists>c\<in>set cs. t = table \<and> n = pascal_case c \<and> cell_float flt (map_of row c) = Some v)"
  by (induction cs) (auto simp: published_append published_entry published_def [of "[]"])

lemma published_measured: "metric_data flt rows = Inr es \<Longrightarrow> published es t n v \<longleftrightarrow> measured flt rows t n v"
proof (induction rows arbitrary: es)
  case (Cons row rows)
  from Cons.prems obtain table rest where t: "map_of row ''table_name'' = Some table" "metric_data flt rows = Inr rest"
    "es = concat (map (entry_of flt table row) metric_columns) @ rest"
    by (auto simp: metric_data_Cons)
  have "measured flt (row # rows) t n v \<longleftrightarrow> measured flt [row] t n v \<or> measured flt rows t n v"
    by (auto simp: measured_def)
  moreover have "measured flt [row] t n v \<longleftrightarrow> published (concat (map (entry_of flt table row) metric_columns)) t n v"
    unfolding published_row by (auto simp: measured_def t(1))
  ultimately show ?case using Cons.IH [OF t(2)] by (simp add: t(3) published_append)
qed (simp add: metric_data_def published_def measured_def)

lemma entries_distinct: "distinct (map (\<lambda>m. (mt_table m, mt_name m)) (concat (map (entry_of flt table row) metric_columns)))"
proof -
  have "distinct (map mt_name (concat (map (entry_of flt table row) metric_columns)))"
    unfolding entries_names using pascal_distinct by (simp add: distinct_map inj_on_def)
  then show ?thesis by (auto simp: distinct_map inj_on_def simp del: set_concat)
qed

lemma metrics_distinct:
  "metric_data flt rows = Inr es \<Longrightarrow> distinct (map (\<lambda>row. map_of row ''table_name'') rows) \<Longrightarrow>
    distinct (map (\<lambda>m. (mt_table m, mt_name m)) es)"
proof (induction rows arbitrary: es)
  case (Cons row rows)
  from Cons.prems(1) obtain table rest where t: "map_of row ''table_name'' = Some table" "metric_data flt rows = Inr rest"
    "es = concat (map (entry_of flt table row) metric_columns) @ rest"
    by (auto simp: metric_data_Cons)
  have "mt_table m \<noteq> table" if "m \<in> set rest" for m
  proof
    assume "mt_table m = table"
    with that have "published rest table (mt_name m) (mt_value m)" by (auto simp: published_def)
    then have "measured flt rows table (mt_name m) (mt_value m)" using published_measured [OF t(2)] by simp
    then show False using Cons.prems(2) t(1) by (force simp: measured_def)
  qed
  moreover have "distinct (map (\<lambda>m. (mt_table m, mt_name m)) rest)" using Cons.IH [OF t(2)] Cons.prems(2) by simp
  ultimately show ?case unfolding t(3) map_append distinct_append
    using entries_distinct [of flt table row] entries_table [of _ flt table row metric_columns] by (auto simp del: set_concat)
qed (simp add: metric_data_def)

lemma metrics_length: "metric_data flt rows = Inr es \<Longrightarrow> length es \<le> 9 * length rows"
proof (induction rows arbitrary: es)
  case (Cons row rows)
  from Cons.prems obtain table rest where t: "metric_data flt rows = Inr rest"
    "es = concat (map (entry_of flt table row) metric_columns) @ rest"
    by (auto simp: metric_data_Cons)
  have "length (concat (map (entry_of flt table row) metric_columns)) \<le> 9"
    using entries_length [of flt table row metric_columns] by (simp add: metric_columns_def)
  with Cons.IH [OF t(1)] show ?case by (simp add: t(2) del: length_concat)
qed (simp add: metric_data_def)

subsection \<open>Properties\<close>

text \<open>
  Every measured cell is published once and nothing else is: a cell that is NULL,
  missing or not a number gives no entry; each entry carries the value of its own cell under
  the name of its column; no table and KPI is published twice when the rows are for different
  tables; and a call of PutMetricData gets at most nine entries per row.
\<close>

theorem metrics_publish_each_measured_cell_once:
  assumes "metric_data flt rows = Inr es"
  shows "length es \<le> 9 * length rows \<and> (\<forall>t n v. published es t n v \<longleftrightarrow> measured flt rows t n v) \<and>
    (distinct (map (\<lambda>row. map_of row ''table_name'') rows) \<longrightarrow> distinct (map (\<lambda>m. (mt_table m, mt_name m)) es))"
  using metrics_length [OF assms] published_measured [OF assms] metrics_distinct [OF assms] by simp

theorem metrics_publish_each_measured_cell_once_witness:
  "\<exists>es. metric_data (\<lambda>s. if s = ''12'' then Some (12 :: int) else None)
      [[(''table_name'', ''silver_macro''), (''row_count'', ''12''), (''quarantine_rate_pct'', [])]] = Inr es \<and>
    length es \<le> 9 \<and> published es ''silver_macro'' ''RowCount'' 12 \<and> \<not> published es ''silver_macro'' ''QuarantineRatePct'' 0"
proof -
  let ?flt = "\<lambda>s. if s = ''12'' then Some (12 :: int) else None"
  let ?rows = "[[(''table_name'', ''silver_macro''), (''row_count'', ''12''), (''quarantine_rate_pct'', [])]]"
  obtain es where es: "metric_data ?flt ?rows = Inr es" by (simp add: metric_data_def row_metrics_def dict_item_def)
  have "measured ?flt ?rows ''silver_macro'' ''RowCount'' 12"
    unfolding measured_def by (rule bexI, rule bexI [of _ "''row_count''"]) (simp_all add: metric_columns_def upper_chr_simps cell_float_def)
  moreover have "\<not> measured ?flt ?rows ''silver_macro'' ''QuarantineRatePct'' 0"
    by (simp add: measured_def metric_columns_def upper_chr_simps cell_float_def)
  ultimately show ?thesis using metrics_publish_each_measured_cell_once [OF es] es by auto
qed

end
