(* ===== verification/Ops.thy ===== *)
theory Ops
  imports Render Monitoring
begin

text \<open>
  The two command-line programs over the Athena client: awsnative/ddl.py (apply the DDL) and
  awsnative/query.py (run a .sql file). A run answers its exit code and the statements it sent;
  None is a run that never ends. What goes to the terminal is modelled where it is computed
  (the table of rows); the remaining prints and argparse are left out.
\<close>

subsection \<open>ddl.py\<close>

text \<open>except AthenaError, and the message of a table that is there already.\<close>

definition already_exists :: "exn \<Rightarrow> bool" where
  "already_exists e \<longleftrightarrow> exn_kind e = AthenaError \<and> occurs_in ''AlreadyExists'' (exn_str e)"

fun run_ddl :: "athena \<Rightarrow> (string \<times> string) list \<Rightarrow> (string list \<times> int res) option" where
  "run_ddl a [] = Some ([], Inr 0)"
| "run_ddl a ((name, sql) # rest) = (case execute a sql of
     None \<Rightarrow> None
   | Some (Inr oc) \<Rightarrow> map_option (\<lambda>(sent, r). (name # sent, r)) (run_ddl a rest)
   | Some (Inl e) \<Rightarrow>
       if already_exists e then map_option (\<lambda>(sent, r). (name # sent, r)) (run_ddl a rest)
       else Some ([name], if exn_kind e = AthenaError then Inr 1 else Inl e))"

definition ddl_main :: "sql_dir \<Rightarrow> athena \<Rightarrow> string \<Rightarrow> bool \<Rightarrow> (string list \<times> int res) option" where
  "ddl_main sql a bucket dry_run =
     (case ddl_statements sql (a_database a) (''s3://'' @ bucket @ ''/'') default_projection_start_date of
        Inl e \<Rightarrow> Some ([], Inl e)
      | Inr statements \<Rightarrow> if dry_run then Some ([], Inr 0) else run_ddl a statements)"

subsection \<open>query.py\<close>

definition ljust :: "nat \<Rightarrow> string \<Rightarrow> string" where
  "ljust w s = s @ replicate (w - length s) CHR '' ''"

definition cell :: "(string, string) dict \<Rightarrow> string \<Rightarrow> string" where
  "cell row h = (case map_of row h of Some v \<Rightarrow> v | None \<Rightarrow> [])"

text \<open>The lines _print_table prints.\<close>

definition column_width :: "(string, string) dict list \<Rightarrow> string \<Rightarrow> nat" where
  "column_width rows h = Max (set (length h # map (\<lambda>row. length (cell row h)) rows))"

definition table_lines :: "(string, string) dict list \<Rightarrow> string list" where
  "table_lines rows = (case rows of
     [] \<Rightarrow> [''    (no rows)'']
   | first # _ \<Rightarrow>
       (let headers = map fst first; widths = map (column_width rows) headers;
            line = (\<lambda>cells. ''    '' @ join ''  '' (map2 ljust widths cells))
        in line headers # (''    '' @ join ''  '' (map (\<lambda>w. replicate w CHR ''-'') widths))
           # map (\<lambda>row. line (map (cell row) headers)) rows))"

text \<open>The loop: the statements sent and the tables printed, the failures counted.\<close>

fun run_queries :: "athena \<Rightarrow> int \<Rightarrow> nat \<Rightarrow> string list \<Rightarrow> ((string \<times> string list option) list \<times> nat res) option" where
  "run_queries a max_rows failures [] = Some ([], Inr failures)"
| "run_queries a max_rows failures (sql # rest) = (case execute a sql of
     None \<Rightarrow> None
   | Some (Inl e) \<Rightarrow>
       if exn_kind e = AthenaError
       then map_option (\<lambda>(log, r). ((sql, None) # log, r)) (run_queries a max_rows (failures + 1) rest)
       else Some ([(sql, None)], Inl e)
   | Some (Inr oc) \<Rightarrow> (case fetch_rows a (o_query_id oc) max_rows of
       Inl e \<Rightarrow> Some ([(sql, None)], Inl e)
     | Inr rows \<Rightarrow> map_option (\<lambda>(log, r). ((sql, Some (table_lines rows)) # log, r)) (run_queries a max_rows failures rest)))"

definition query_main :: "athena \<Rightarrow> string \<Rightarrow> int \<Rightarrow> ((string \<times> string list option) list \<times> int res) option" where
  "query_main a text max_rows = (let statements = split_statements text in
     if statements = [] then Some ([], Inr 1)
     else map_option (\<lambda>(log, r). (log, rbind r (\<lambda>failures. Inr (if failures \<noteq> 0 then 1 else 0))))
       (run_queries a max_rows 0 statements))"

subsection \<open>Facts\<close>

text \<open>A statement that leaves its table in place: it succeeded, or the table was there.\<close>

definition applied :: "athena \<Rightarrow> string \<Rightarrow> bool" where
  "applied a sql \<longleftrightarrow> (case execute a sql of
     Some (Inr oc) \<Rightarrow> True | Some (Inl e) \<Rightarrow> already_exists e | None \<Rightarrow> False)"

lemma run_ddl_result:
  "run_ddl a stmts = Some (sent, r) \<Longrightarrow>
     (r = Inr 0 \<and> sent = map fst stmts \<and> (\<forall>s\<in>set stmts. applied a (snd s))) \<or>
     (r \<noteq> Inr 0 \<and> (\<exists>k<length stmts. sent = map fst (take (Suc k) stmts) \<and> \<not> applied a (snd (stmts ! k)) \<and>
        (\<forall>s\<in>set (take k stmts). applied a (snd s))))"
proof (induction stmts arbitrary: sent)
  case (Cons st rest)
  obtain name sql where st: "st = (name, sql)" by (cases st)
  show ?case
  proof (cases "applied a sql")
    case True
    then have "run_ddl a (st # rest) = map_option (\<lambda>(sent, r). (name # sent, r)) (run_ddl a rest)"
      by (auto simp: st applied_def split: option.splits sum.splits)
    with Cons.prems obtain sent' where r: "run_ddl a rest = Some (sent', r)" "sent = name # sent'" by auto
    from Cons.IH [OF r(1)] show ?thesis
    proof (elim disjE conjE exE)
      fix k assume "r \<noteq> Inr 0" "k < length rest" "sent' = map fst (take (Suc k) rest)" "\<not> applied a (snd (rest ! k))"
        "\<forall>s\<in>set (take k rest). applied a (snd s)"
      with r True show ?thesis by (intro disjI2 conjI exI [of _ "Suc k"]) (auto simp: st)
    qed (use r True st in auto)
  next
    case False
    with Cons.prems have "r \<noteq> Inr 0 \<and> sent = [name]"
      by (auto simp: st applied_def split: option.splits sum.splits if_splits)
    with False show ?thesis by (intro disjI2 conjI exI [of _ 0]) (auto simp: st)
  qed
qed simp

lemma length_join: "length (join sep xs) = sum_list (map length xs) + (length xs - 1) * length sep"
  by (induction sep xs rule: join.induct) auto

lemma run_ddl_returns: "0 < a_poll_interval a \<Longrightarrow> \<exists>sent r. run_ddl a stmts = Some (sent, r)"
proof (induction stmts)
  case (Cons st rest)
  obtain name sql where st: "st = (name, sql)" by (cases st)
  from Cons obtain sent r where "run_ddl a rest = Some (sent, r)" by auto
  moreover obtain x where "execute a sql = Some x" using execute_total [OF Cons.prems] by blast
  ultimately show ?case by (cases x) (auto simp: st)
qed simp

lemma length_ljust: "length s \<le> w \<Longrightarrow> length (ljust w s) = w"
  by (simp add: ljust_def)

lemma header_fits: "length h \<le> column_width rows h"
  unfolding column_width_def by (rule Max_ge) auto

lemma cell_fits: "row \<in> set rows \<Longrightarrow> length (cell row h) \<le> column_width rows h"
  unfolding column_width_def by (rule Max_ge) auto

lemma line_length:
  assumes "\<And>h. h \<in> set hs \<Longrightarrow> length (f h) \<le> w h"
  shows "length (join ''  '' (map2 ljust (map w hs) (map f hs))) = sum_list (map w hs) + (length hs - 1) * 2"
proof -
  have "map length (map2 ljust (map w hs) (map f hs)) = map w hs"
    using assms by (induction hs) (auto simp: length_ljust)
  then have "sum_list (map length (map2 ljust (map w hs) (map f hs))) = sum_list (map w hs)" by (rule arg_cong)
  then show ?thesis by (simp add: length_join)
qed

subsection \<open>Properties\<close>

text \<open>
  Applying the DDL is idempotent and stops where it must: with a positive poll
  interval it ends; it exits with 0 exactly when every statement succeeded or found its table
  there already, and then every file was sent in the order of its numeric prefix; otherwise it
  stops at the first statement that really failed.
\<close>

theorem ddl_applies_all_or_stops_at_first_failure:
  assumes "0 < a_poll_interval a"
    and "ddl_statements sql (a_database a) (''s3://'' @ bucket @ ''/'') default_projection_start_date = Inr stmts"
  shows "\<exists>sent r k. ddl_main sql a bucket False = Some (sent, r) \<and> sent = take k ddl_files \<and>
    (r = Inr 0 \<longleftrightarrow> (\<forall>s\<in>set stmts. applied a (snd s))) \<and> (r = Inr 0 \<longrightarrow> sent = ddl_files) \<and>
    (\<forall>s\<in>set (take (k - 1) stmts). applied a (snd s)) \<and> (r \<noteq> Inr 0 \<longrightarrow> 0 < k \<and> \<not> applied a (snd (stmts ! (k - 1))))"
proof -
  have names: "map fst stmts = ddl_files"
    using assms(2) unfolding ddl_statements_def Let_def rmap_Inr_iff
  proof -
    assume "list_all2 (\<lambda>name st. rbind (render_file sql (''ddl/'' @ name) [(''database'', a_database a),
        (''warehouse'', if ''s3://'' @ bucket @ ''/'' \<noteq> [] \<and> last (''s3://'' @ bucket @ ''/'') = CHR ''/''
           then ''s3://'' @ bucket @ ''/'' else (''s3://'' @ bucket @ ''/'') @ ''/''),
        (''projection_start_date'', default_projection_start_date)]) (\<lambda>s. Inr (name, s)) = Inr st) ddl_files stmts"
    then show ?thesis by (induction rule: list_all2_induct) (auto simp: res_simps)
  qed
  obtain sent r where run: "run_ddl a stmts = Some (sent, r)" using run_ddl_returns [OF assms(1)] by blast
  have main: "ddl_main sql a bucket False = Some (sent, r)" unfolding ddl_main_def assms(2) by (simp add: run)
  from run_ddl_result [OF run] show ?thesis
  proof (elim disjE conjE exE)
    assume r: "r = Inr 0" and s: "sent = map fst stmts" and all: "\<forall>s\<in>set stmts. applied a (snd s)"
    from names have "length ddl_files = length stmts" by (metis length_map)
    then have "sent = take (length stmts) ddl_files" using s names by simp
    moreover have "\<forall>s\<in>set (take (length stmts - 1) stmts). applied a (snd s)" using all by (blast dest: in_set_takeD)
    ultimately show ?thesis using main r s all names
      by (intro exI [of _ sent] exI [of _ r] exI [of _ "length stmts"]) (simp del: take_all)
  next
    fix k assume "r \<noteq> Inr 0" and k: "k < length stmts" "sent = map fst (take (Suc k) stmts)" "\<not> applied a (snd (stmts ! k))"
      "\<forall>s\<in>set (take k stmts). applied a (snd s)"
    then have "\<not> (\<forall>s\<in>set stmts. applied a (snd s))" by auto
    with \<open>r \<noteq> Inr 0\<close> k main names show ?thesis
      by (intro exI [of _ sent] exI [of _ r] exI [of _ "Suc k"]) (simp add: names [symmetric] take_map)
  qed
qed

theorem ddl_applies_all_or_stops_at_first_failure_witness:
  "\<exists>sent r k. ddl_main (\<lambda>f. Inr ''CREATE TABLE IF NOT EXISTS t'') running_athena ''lake'' False = Some (sent, r) \<and>
     sent = take k ddl_files"
proof -
  have "render ''CREATE TABLE IF NOT EXISTS t'' ps = Inr ''CREATE TABLE IF NOT EXISTS t''" for ps
    using render_pieces [of "[Lit ''CREATE TABLE IF NOT EXISTS t'']" ps] by (simp add: fill_def)
  then have "ddl_statements (\<lambda>f. Inr ''CREATE TABLE IF NOT EXISTS t'') d w p =
      Inr (map (\<lambda>name. (name, ''CREATE TABLE IF NOT EXISTS t'')) ddl_files)" for d w p
    unfolding ddl_statements_def Let_def by (intro rmap_all_Inr) (simp add: render_file_def read_sql_def)
  moreover have "0 < a_poll_interval running_athena" by (simp add: running_athena_def)
  ultimately obtain sent r k where "ddl_main (\<lambda>f. Inr ''CREATE TABLE IF NOT EXISTS t'') running_athena ''lake'' False = Some (sent, r)"
    "sent = take k ddl_files"
    using ddl_applies_all_or_stops_at_first_failure [where a = running_athena and bucket = "''lake''"] by blast
  then show ?thesis by blast
qed

text \<open>
  One failing query never hides the others: when queries fail only with
  AthenaError and results can be fetched, every statement of the file is sent in order, and the
  exit code is 0 exactly when there was a statement and all of them succeeded.
\<close>

theorem query_file_runs_every_statement:
  assumes "0 < a_poll_interval a"
    and "\<forall>sql e. execute a sql = Some (Inl e) \<longrightarrow> exn_kind e = AthenaError"
    and "\<forall>qid. \<exists>rows. fetch_rows a qid max_rows = Inr rows"
  shows "\<exists>log code. query_main a content max_rows = Some (log, Inr code) \<and> map fst log = split_statements content \<and>
    (code = 0 \<longleftrightarrow> split_statements content \<noteq> [] \<and>
       (\<forall>sql\<in>set (split_statements content). \<exists>oc. execute a sql = Some (Inr oc)))"
proof -
  have "\<exists>log n. run_queries a max_rows failures stmts = Some (log, Inr n) \<and> map fst log = stmts \<and> failures \<le> n \<and>
      (n = failures \<longleftrightarrow> (\<forall>sql\<in>set stmts. \<exists>oc. execute a sql = Some (Inr oc)))" for failures stmts
  proof (induction stmts arbitrary: failures)
    case (Cons sql rest)
    obtain x where x: "execute a sql = Some x" using execute_total [OF assms(1)] by blast
    show ?case
    proof (cases x)
      case (Inl e)
      with x assms(2) have "exn_kind e = AthenaError" by blast
      moreover obtain log n where "run_queries a max_rows (failures + 1) rest = Some (log, Inr n)" "map fst log = rest" "failures + 1 \<le> n"
        using Cons [of "failures + 1"] by blast
      ultimately show ?thesis using x Inl by auto
    next
      case (Inr oc)
      obtain rows where "fetch_rows a (o_query_id oc) max_rows = Inr rows" using assms(3) by blast
      with x Inr Cons [of failures] show ?thesis by auto
    qed
  qed simp
  from this [of 0 "split_statements content"] obtain log n where
    "run_queries a max_rows 0 (split_statements content) = Some (log, Inr n)" "map fst log = split_statements content"
    "n = 0 \<longleftrightarrow> (\<forall>sql\<in>set (split_statements content). \<exists>oc. execute a sql = Some (Inr oc))" by auto
  then show ?thesis by (cases "split_statements content = []") (auto simp: query_main_def Let_def)
qed

theorem query_file_runs_every_statement_witness:
  "\<exists>log. query_main finished_athena ''SELECT 1;'' 25 = Some (log, Inr 0)"
proof -
  have "split_statements ''SELECT 1;'' = [''SELECT 1'']"
    by (simp add: split_statements_def newline_def quote_chr_def char_of_def bit_0 strip_def rstrip_def is_space_def)
  moreover have "\<exists>log code. query_main finished_athena ''SELECT 1;'' 25 = Some (log, Inr code) \<and>
      map fst log = split_statements ''SELECT 1;'' \<and>
      (code = 0 \<longleftrightarrow> split_statements ''SELECT 1;'' \<noteq> [] \<and>
        (\<forall>sql\<in>set (split_statements ''SELECT 1;''). \<exists>oc. execute finished_athena sql = Some (Inr oc)))"
    by (rule query_file_runs_every_statement)
      (simp_all add: finished_execute finished_fetch, simp add: finished_athena_def paged_athena_def running_athena_def)
  ultimately show ?thesis by (auto simp: finished_execute)
qed

text \<open>The printed table is aligned: every line has the same length.\<close>

theorem table_lines_aligned:
  assumes "l \<in> set (table_lines rows)" and "l' \<in> set (table_lines rows)"
  shows "length l = length l'"
proof (cases rows)
  case (Cons first rest)
  let ?hs = "map fst first" and ?w = "column_width rows"
  let ?n = "4 + (sum_list (map ?w ?hs) + (length ?hs - 1) * 2)"
  have hd: "length (join ''  '' (map2 ljust (map ?w ?hs) ?hs)) = ?n - 4"
    using line_length [of ?hs id ?w] header_fits by simp
  have rule: "length (join ''  '' (map (\<lambda>w. replicate w CHR ''-'') (map ?w ?hs))) = ?n - 4"
    by (simp add: length_join o_def)
  have row: "length (join ''  '' (map2 ljust (map ?w ?hs) (map (cell row) ?hs))) = ?n - 4" if "row \<in> set rows" for row
    using line_length [of ?hs "cell row" ?w] cell_fits [OF that] by simp
  have "length l = ?n" if "l \<in> set (table_lines rows)" for l
    using that hd rule row by (auto simp: table_lines_def Let_def Cons comp_assoc)
  with assms show ?thesis by simp
qed (use assms in \<open>simp add: table_lines_def\<close>)

end
