(* ===== verification/Target.thy ===== *)
theory Target
  imports Producer Athena
begin

text \<open>
  Where to connect: ingest/settings.py and awsnative/settings.py (the fields and their
  defaults), and devlab/config.py, which resolves a broker target from the settings, from
  Terraform's outputs or from the AWS command line. Subprocesses run in the state of the process:
  its environment, and the commands run so far, each with the environment it ran in. The parameter
  launch says how the k-th subprocess ended, from its environment and arguments; the settings that
  pydantic read are a parameter.
\<close>

subsection \<open>Settings\<close>

record settings =
  st_bootstrap_servers :: string
  st_sasl_username :: "string option"
  st_sasl_password :: "string option"
  st_universe_path :: string
  st_venues :: "string list"
  st_queue_maxsize :: int
  st_trades_topic :: string

definition default_settings :: settings where
  "default_settings = \<lparr> st_bootstrap_servers = ''127.0.0.1:9092'', st_sasl_username = None, st_sasl_password = None,
     st_universe_path = ''config/universe.yaml'', st_venues = [''binance'', ''coinbase''], st_queue_maxsize = 20000,
     st_trades_topic = ''md.trades.v1'' \<rparr>"

record native_settings =
  ns_stream_name :: string
  ns_universe_path :: string
  ns_venues :: "string list"
  ns_queue_maxsize :: int
  ns_trades_topic :: string

definition default_native_settings :: native_settings where
  "default_native_settings = \<lparr> ns_stream_name = ''fdai-native-md-trades-v1'', ns_universe_path = ''config/universe.yaml'',
     ns_venues = [''binance'', ''coinbase''], ns_queue_maxsize = 20000, ns_trades_topic = ''md.trades.v1'' \<rparr>"

subsection \<open>Targets\<close>

definition local_bootstrap :: string where "local_bootstrap = ''127.0.0.1:9092''"

definition default_target :: string where "default_target = ''local''"

definition terraform_timeout_s :: string where "terraform_timeout_s = ''60.0''"

record target =
  tg_name :: string
  tg_bootstrap :: string
  tg_username :: "string option"
  tg_password :: "string option"

definition uses_sasl :: "target \<Rightarrow> bool" where
  "uses_sasl t \<longleftrightarrow> text_true (tg_username t) \<and> text_true (tg_password t)"

definition auth :: "target \<Rightarrow> (string, conf) dict" where
  "auth t = (if \<not> uses_sasl t then [] else
     [(''security.protocol'', CText ''SASL_SSL''), (''sasl.mechanisms'', CText ''SCRAM-SHA-512''),
      (''sasl.username'', CText (the (tg_username t))), (''sasl.password'', CText (the (tg_password t)))])"

definition admin_config :: "target \<Rightarrow> (string, conf) dict" where
  "admin_config t = dict_update [(''bootstrap.servers'', CText (tg_bootstrap t))] (auth t)"

definition consumer_config :: "target \<Rightarrow> string \<Rightarrow> string \<Rightarrow> (string, conf) dict res" where
  "consumer_config t grp offset_reset =
     (if offset_reset \<noteq> ''earliest'' \<and> offset_reset \<noteq> ''latest''
      then Inl (Exn ValueError (''offset_reset must be '' @ py_repr ''earliest'' @ '' or '' @ py_repr ''latest''
        @ '', got '' @ py_repr offset_reset))
      else Inr (dict_update
        [(''bootstrap.servers'', CText (tg_bootstrap t)), (''group.id'', CText grp),
         (''auto.offset.reset'', CText offset_reset), (''enable.auto.commit'', CBool False)] (auth t)))"

definition local_target :: target where
  "local_target = \<lparr> tg_name = ''local'', tg_bootstrap = local_bootstrap, tg_username = None, tg_password = None \<rparr>"

definition msk_target :: "settings \<Rightarrow> target res" where
  "msk_target s =
     (if \<not> (text_true (st_sasl_username s) \<and> text_true (st_sasl_password s))
      then Inl (Exn TargetError (''target '' @ py_repr ''msk'' @ '' needs INGEST_SASL_USERNAME and INGEST_SASL_PASSWORD ''
        @ ''(bootstrap currently '' @ py_repr (st_bootstrap_servers s) @ ''). Either set them in .env, ''
        @ ''or use devlab.from_terraform() to read them straight from the stack outputs.''))
      else Inr \<lparr> tg_name = ''msk'', tg_bootstrap = st_bootstrap_servers s, tg_username = st_sasl_username s,
        tg_password = st_sasl_password s \<rparr>)"

subsection \<open>Terraform and the AWS command line\<close>

text \<open>How a subprocess ended: its exit code and outputs, or not on PATH, or timed out.\<close>

datatype proc = Exited int string string | NotOnPath | TimedOut

type_synonym env = "(string, string) dict"
type_synonym command = "env \<times> string list"
type_synonym launcher = "nat \<Rightarrow> env \<Rightarrow> string list \<Rightarrow> proc"

record shell =
  sh_commands :: "command list"
  sh_environ :: env

definition fresh_shell :: "env \<Rightarrow> shell" where
  "fresh_shell environ = \<lparr> sh_commands = [], sh_environ = environ \<rparr>"

type_synonym 'a shell_op = "shell \<Rightarrow> shell \<times> 'a res"

definition pbind :: "'a shell_op \<Rightarrow> ('a \<Rightarrow> 'b shell_op) \<Rightarrow> 'b shell_op" where
  "pbind m f s = (case m s of (s', Inl e) \<Rightarrow> (s', Inl e) | (s', Inr x) \<Rightarrow> f x s')"

definition lift :: "'a res \<Rightarrow> 'a shell_op" where
  "lift r s = (s, r)"

text \<open>subprocess.run: in the environment given, or else in that of the process.\<close>

definition run_process :: "launcher \<Rightarrow> env option \<Rightarrow> string list \<Rightarrow> proc shell_op" where
  "run_process launch given args s =
     (let e = (case given of Some e \<Rightarrow> e | None \<Rightarrow> sh_environ s)
      in (s\<lparr> sh_commands := sh_commands s @ [(e, args)] \<rparr>, Inr (launch (length (sh_commands s)) e args)))"

definition credential_error_markers :: "string list" where
  "credential_error_markers = [''InvalidClientTokenId'', ''ExpiredToken'', ''could not be validated'',
     ''UnrecognizedClientException'', ''is not authorized to perform'']"

definition credential_hint :: string where
  "credential_hint = ''AWS credentials are invalid or expired in *this process* -- this is not ''
     @ ''necessarily true in another terminal. Fully stop this Jupyter server and ''
     @ ''launch it through `make notebook TARGET=msk`; that command selects the ''
     @ ''configured AWS profile, refreshes SSO when necessary, updates the current ''
     @ ''operator IP through Terraform, and passes the same clean environment to the new kernel.''"

definition terraform_output :: "launcher \<Rightarrow> string \<Rightarrow> string \<Rightarrow> string shell_op" where
  "terraform_output launch chdir name =
     pbind (run_process launch None [''terraform'', ''-chdir='' @ chdir, ''output'', ''-raw'', name]) (\<lambda>result. lift (case result of
        NotOnPath \<Rightarrow> Inl (Exn TargetError (''terraform is not on PATH; see docs/SETUP.md '' @ [char_of (167::nat)] @ ''1''))
      | TimedOut \<Rightarrow> Inl (Exn TargetError (''`terraform output '' @ name @ ''` timed out after '' @ terraform_timeout_s @ ''s''))
      | Exited code out err \<Rightarrow>
          if code \<noteq> 0 then
            (let stderr = strip err in
             if list_ex (\<lambda>marker. occurs_in marker stderr) credential_error_markers
             then Inl (Exn TargetError (credential_hint @ [newline] @ stderr))
             else Inl (Exn TargetError (''`terraform -chdir='' @ chdir @ '' output -raw '' @ name
               @ ''` failed. Is the stack up? Run `make up` first.'' @ [newline] @ stderr)))
          else Inr (strip out)))"

text \<open>cluster_arn.split(':', maxsplit=4)[3], the IndexError turned into the same TargetError.\<close>

definition bad_arn :: "string \<Rightarrow> exn" where
  "bad_arn arn = Exn TargetError (''invalid MSK cluster ARN in Terraform state: '' @ py_repr arn)"

definition arn_region :: "string \<Rightarrow> string option" where
  "arn_region arn = (case split_on CHR '':'' arn of _ # _ # _ # region # _ \<Rightarrow> Some region | _ \<Rightarrow> None)"

definition brokers_command :: "string \<Rightarrow> string \<Rightarrow> string list" where
  "brokers_command arn region = [''aws'', ''kafka'', ''get-bootstrap-brokers'', ''--cluster-arn'', arn, ''--region'', region,
     ''--query'', ''BootstrapBrokerStringPublicSaslScram'', ''--output'', ''text'']"

definition aws_public_brokers :: "launcher \<Rightarrow> string \<Rightarrow> string shell_op" where
  "aws_public_brokers launch arn = (case arn_region arn of
     None \<Rightarrow> lift (Inl (bad_arn arn))
   | Some region \<Rightarrow>
       if region = [] then lift (Inl (bad_arn arn))
       else pbind (run_process launch None (brokers_command arn region)) (\<lambda>result. lift (case result of
           NotOnPath \<Rightarrow> Inl (Exn TargetError (''aws is not on PATH; see docs/SETUP.md '' @ [char_of (167::nat)] @ ''1''))
         | TimedOut \<Rightarrow> Inl (Exn TargetError (''AWS broker discovery timed out after '' @ terraform_timeout_s @ ''s''))
         | Exited code out err \<Rightarrow>
             if code \<noteq> 0 \<or> strip out = [] \<or> strip out = ''None''
             then Inl (Exn TargetError (''Terraform'' @ [char_of (39::nat)] @ ''s public broker output is empty and AWS could not ''
               @ ''return the live endpoint. Run `make notebook TARGET=msk` to refresh and verify notebook access.''
               @ [newline] @ strip err))
             else Inr (strip out))))"

definition from_terraform :: "launcher \<Rightarrow> string \<Rightarrow> target shell_op" where
  "from_terraform launch chdir =
     pbind (terraform_output launch chdir ''bootstrap_brokers_public'') (\<lambda>public.
     pbind (if public \<noteq> [] then lift (Inr public)
            else pbind (terraform_output launch chdir ''cluster_arn'') (aws_public_brokers launch)) (\<lambda>bootstrap.
     pbind (terraform_output launch chdir ''sasl_username'') (\<lambda>username.
     pbind (terraform_output launch chdir ''sasl_password'') (\<lambda>password.
       lift (Inr \<lparr> tg_name = ''msk'', tg_bootstrap = bootstrap, tg_username = Some username, tg_password = Some password \<rparr>)))))"

text \<open>name or $FDAI_TARGET or the default: an empty text counts as missing.\<close>

definition chosen_target :: "string option \<Rightarrow> string option \<Rightarrow> string" where
  "chosen_target name env = lower (strip
     (if text_true name then the name else if text_true env then the env else default_target))"

definition resolve :: "settings \<Rightarrow> launcher \<Rightarrow> string \<Rightarrow> string option \<Rightarrow> target shell_op" where
  "resolve s launch chdir name sh = (let chosen = chosen_target name (map_of (sh_environ sh) ''FDAI_TARGET'') in
     if chosen = ''local'' then lift (Inr local_target) sh
     else if chosen = ''msk'' then lift (msk_target s) sh
     else if chosen = ''terraform'' then from_terraform launch chdir sh
     else lift (Inl (Exn TargetError (''unknown target '' @ py_repr chosen @ ''; expected '' @ py_repr ''local'' @ '', ''
       @ py_repr ''msk'' @ '', or '' @ py_repr ''terraform''))) sh)"

subsection \<open>Facts\<close>

text \<open>Every result of an operation satisfies P.\<close>

definition results :: "('a res \<Rightarrow> bool) \<Rightarrow> 'a shell_op \<Rightarrow> bool" where
  "results P m \<longleftrightarrow> (\<forall>s. P (snd (m s)))"

lemma results_lift [simp]: "results P (lift r) \<longleftrightarrow> P r"
  by (simp add: results_def lift_def)

text \<open>An operation that raises TargetErrors only, then one that answers as P asks.\<close>

definition target_or :: "('a \<Rightarrow> bool) \<Rightarrow> 'a res \<Rightarrow> bool" where
  "target_or P r = (case r of Inl e \<Rightarrow> exn_kind e = TargetError | Inr x \<Rightarrow> P x)"

lemma target_or_simps [simp]: "target_or P (Inl e) = (exn_kind e = TargetError)" "target_or P (Inr x) = P x"
  by (simp_all add: target_or_def)

lemma results_bind: "results (target_or (\<lambda>_. True)) m \<Longrightarrow> (\<And>x. results (target_or P) (f x)) \<Longrightarrow> results (target_or P) (pbind m f)"
  unfolding results_def
proof
  fix s
  assume m: "\<forall>s. target_or (\<lambda>_. True) (snd (m s))" and f: "\<And>x. \<forall>s. target_or P (snd (f x s))"
  obtain t r where "m s = (t, r)" by (cases "m s")
  with m [THEN spec, of s] f show "target_or P (snd (pbind m f s))" by (cases r) (auto simp: pbind_def)
qed

lemma results_process: "results (target_or (\<lambda>_. True)) (run_process launch given args)"
  by (simp add: results_def run_process_def Let_def)

lemma results_terraform: "results (target_or (\<lambda>_. True)) (terraform_output launch chdir name)"
  unfolding terraform_output_def
  by (rule results_bind [OF results_process]) (simp add: Let_def split: proc.splits)

lemma results_brokers: "results (target_or (\<lambda>_. True)) (aws_public_brokers launch arn)"
proof -
  have "results (target_or (\<lambda>_. True)) (pbind (run_process launch None args) (\<lambda>result. lift (case result of
      NotOnPath \<Rightarrow> Inl (Exn TargetError m1) | TimedOut \<Rightarrow> Inl (Exn TargetError m2)
    | Exited code out err \<Rightarrow> if bad code out then Inl (Exn TargetError (m3 err)) else Inr (strip out))))" for args m1 m2 m3 bad
    by (rule results_bind [OF results_process]) (simp split: proc.splits)
  then show ?thesis by (simp add: aws_public_brokers_def bad_arn_def split: option.splits)
qed

lemma results_from_terraform: "results (target_or (\<lambda>t. tg_name t = ''msk'')) (from_terraform launch chdir)"
  unfolding from_terraform_def
  by (intro results_bind results_terraform) (auto intro: results_bind results_terraform results_brokers)

lemma auth_keys: "map_of (dict_update d (auth t)) ''sasl.password'' =
    (if uses_sasl t then Some (CText (the (tg_password t))) else map_of d ''sasl.password'')"
  by (auto simp: auth_def dict_update_def)

subsection \<open>Properties\<close>

text \<open>
  Resolving a target either names it or says why not: whatever the settings, the
  environment and the subprocesses answer, resolve returns the local broker without credentials,
  a target named msk, or a TargetError. It never answers the local name with another
  broker, and asking for msk never gives a target that would connect without SASL.
\<close>

theorem resolve_named_or_target_error:
  "case snd (resolve s launch chdir name sh) of
     Inl e \<Rightarrow> exn_kind e = TargetError
   | Inr t \<Rightarrow> (let chosen = chosen_target name (map_of (sh_environ sh) ''FDAI_TARGET'') in
       if chosen = ''local'' then t = local_target \<and> \<not> uses_sasl t
       else tg_name t = ''msk'' \<and> (chosen = ''msk'' \<longrightarrow> uses_sasl t))"
proof -
  have "target_or (\<lambda>t. tg_name t = ''msk'') (snd (from_terraform launch chdir sh))"
    using results_from_terraform by (simp add: results_def)
  then show ?thesis
    by (auto simp: resolve_def lift_def Let_def msk_target_def local_target_def uses_sasl_def target_or_def split: sum.splits)
qed

text \<open>An environment where the stack is down.\<close>

definition broken_run :: launcher where
  "broken_run k e args = Exited 1 [] ''Error: No outputs found''"

theorem resolve_named_or_target_error_witness:
  "\<exists>e. snd (resolve default_settings broken_run ''infra'' (Some '' MSK '') (fresh_shell [])) = Inl e \<and> exn_kind e = TargetError"
proof -
  have c: "chosen_target (Some '' MSK '') x = ''msk''" for x
    by (simp add: chosen_target_def strip_def rstrip_def is_space_def lower_def lower_chr_def char_of_def bit_0)
  have "\<exists>e. snd (resolve default_settings broken_run ''infra'' (Some '' MSK '') (fresh_shell [])) = Inl e"
    unfolding resolve_def c by (simp add: msk_target_def default_settings_def lift_def)
  with resolve_named_or_target_error [where s = default_settings and launch = broken_run and chdir = "''infra''" and sh = "fresh_shell []" and name = "Some '' MSK ''"] show ?thesis by auto
qed

end
