(* ===== verification/Stream.thy ===== *)
theory Stream
  imports Target Gaps
begin

text \<open>
  Reading a topic back, devlab/stream.py and devlab/health.py. The confluent clients, the clock
  and the Avro reader are the fields of a broker; a loop that polls is partial_function (option),
  so that polling forever is the value None. Times are rationals (seconds). A character of a
  message outside the convention of the prelude (the dash of two error texts) is its UTF-8 bytes.
\<close>

subsection \<open>The client libraries\<close>

record message =
  g_error :: "string option"
  g_value :: string
  g_partition :: int
  g_offset :: int
  g_timestamp_ms :: int
  g_key :: "string option"

record broker =
  b_open :: "(string, conf) dict \<Rightarrow> unit res"
  b_topics :: "(string \<times> int list) list res"
  b_topic :: "string \<Rightarrow> int list option res"
  b_subscribe :: "string list \<Rightarrow> unit res"
  b_poll :: "nat \<Rightarrow> rat \<Rightarrow> message option"
  b_watermarks :: "string \<Rightarrow> int \<Rightarrow> (int \<times> int) res"
  b_committed :: "string \<Rightarrow> int list \<Rightarrow> (int \<times> int) list res"
  b_clock :: "nat \<Rightarrow> rat"
  b_read_avro :: avro_reader
  b_utf8 :: "string \<Rightarrow> string res"
  b_hex8 :: string

definition default_topic :: string where "default_topic = ''md.trades.v1''"

definition dash :: string where "dash = [char_of (226::nat), char_of (128::nat), char_of (148::nat)]"

definition starts_with :: "string \<Rightarrow> string \<Rightarrow> bool" where
  "starts_with prefix s \<longleftrightarrow> take (length prefix) s = prefix"

subsection \<open>A subscribed consumer\<close>

definition check_topic :: "broker \<Rightarrow> string \<Rightarrow> target \<Rightarrow> unit res" where
  "check_topic br topic t = (case b_topics br of
     Inl e \<Rightarrow> if exn_kind e = KafkaException then
         (let hint = (if tg_name t = ''msk''
            then ''For public MSK, verify that the endpoint is current with `devlab.from_terraform()` ''
              @ ''and that this machine'' @ [char_of (39::nat)] @ ''s current public IP is ''
              @ ''allowlisted; after refreshing AWS credentials, re-run `make up` to refresh it.''
            else ''For the local target, start Kafka with `make compose-up`.'')
          in Inl (Exn BrokerUnavailable (''could not reach the broker at '' @ py_repr (tg_bootstrap t)
            @ '' (target '' @ py_repr (tg_name t) @ '') before the topic could be checked: '' @ exn_str e @ ''. '' @ hint)))
       else Inl e
   | Inr topics \<Rightarrow>
       if topic \<in> set (map fst topics) then Inr ()
       else (let known = sort (filter (\<lambda>n. \<not> starts_with ''__'' n) (map fst topics));
                 hint = (if tg_name t = ''local''
                   then ''run `make stream-local` to create the topics and start the producers''
                   else ''run `make up` to provision the cluster and its topics'')
             in Inl (Exn TopicMissing (''topic '' @ py_repr topic @ '' does not exist on '' @ py_repr (tg_bootstrap t)
               @ ''; '' @ hint @ ''. Topics present: '' @ (if known = [] then ''(none)'' else list_repr known)))))"

text \<open>What happens before the with block of consumer starts, and how often close was called.\<close>

definition consumer :: "broker \<Rightarrow> target \<Rightarrow> string \<Rightarrow> string option \<Rightarrow> string \<Rightarrow> nat \<times> unit res" where
  "consumer br t topic grp offset_reset =
     (let g = (if text_true grp then the grp else ''devlab-'' @ b_hex8 br) in
      case rbind (consumer_config t g offset_reset) (b_open br) of
        Inl e \<Rightarrow> (0, Inl e)
      | Inr _ \<Rightarrow> (case rbind (check_topic br topic t) (\<lambda>_. b_subscribe br [topic]) of
            Inl e \<Rightarrow> (1, Inl e)
          | Inr _ \<Rightarrow> (0, Inr ())))"

subsection \<open>Bounded reads\<close>

definition read_message :: "broker \<Rightarrow> string \<Rightarrow> message \<Rightarrow> (string, avro) dict res" where
  "read_message br topic m = (case g_error m of
     Some err \<Rightarrow> Inl (Exn KafkaException err)
   | None \<Rightarrow> (case codec_decode (b_read_avro br) trade_v1 (g_value m) of
       Inl _ \<Rightarrow> Inl (Exn ValueError (''could not decode '' @ topic @ ''['' @ int_str (g_partition m) @ '']@'' @ int_str (g_offset m)
         @ '' as a Trade record '' @ dash @ '' is this topic carrying trade data?''))
     | Inr rec \<Rightarrow> rbind (case g_key m of None \<Rightarrow> Inr ANull | Some k \<Rightarrow> rbind (b_utf8 br k) (\<lambda>s. Inr (AStr s))) (\<lambda>key.
         Inr (dict_update rec [(''kafka_partition'', ALong (g_partition m)), (''kafka_offset'', ALong (g_offset m)),
           (''kafka_timestamp_ms'', ALong (g_timestamp_ms m)), (''kafka_key'', key)]))))"

definition limit_reached :: "int option \<Rightarrow> nat \<Rightarrow> bool" where
  "limit_reached limit seen \<longleftrightarrow> (case limit of Some l \<Rightarrow> l \<le> int seen | None \<Rightarrow> False)"

text \<open>The wait of a poll, None when the deadline has passed.\<close>

definition next_wait :: "rat option \<Rightarrow> rat \<Rightarrow> rat \<Rightarrow> rat option" where
  "next_wait deadline now poll_timeout = (case deadline of
     Some d \<Rightarrow> (let remaining = d - now in if remaining \<le> 0 then None else Some (min poll_timeout remaining))
   | None \<Rightarrow> Some poll_timeout)"

text \<open>The k-th turn reads the clock once (reading 0 set the deadline) and polls once.\<close>

partial_function (option) tail_loop ::
  "broker \<Rightarrow> string \<Rightarrow> int option \<Rightarrow> rat option \<Rightarrow> rat \<Rightarrow> nat \<Rightarrow> (string, avro) dict list
   \<Rightarrow> ((string, avro) dict list \<times> exn option) option" where
  "tail_loop br topic limit deadline pt k got =
     (if limit_reached limit (length got) then Some (got, None)
      else (case next_wait deadline (b_clock br (Suc k)) pt of
          None \<Rightarrow> Some (got, None)
        | Some wait \<Rightarrow> (case b_poll br k wait of
            None \<Rightarrow> tail_loop br topic limit deadline pt (Suc k) got
          | Some m \<Rightarrow> (case read_message br topic m of
              Inl e \<Rightarrow> Some (got, Some e)
            | Inr rec \<Rightarrow> tail_loop br topic limit deadline pt (Suc k) (got @ [rec])))))"

text \<open>tail: the calls of close, the records yielded and the exception that ended them, if any.\<close>

definition tail :: "broker \<Rightarrow> target \<Rightarrow> string \<Rightarrow> int option \<Rightarrow> rat option \<Rightarrow> string \<Rightarrow> string option \<Rightarrow> rat
   \<Rightarrow> (nat \<times> (string, avro) dict list \<times> exn option) option" where
  "tail br t topic limit seconds offset_reset grp poll_timeout =
     (if limit = None \<and> seconds = None
      then Some (0, [], Some (Exn ValueError ''set at least one of limit= or seconds=; an unbounded tail cannot stop''))
      else if (case limit of Some l \<Rightarrow> l \<le> 0 | None \<Rightarrow> False)
      then Some (0, [], Some (Exn ValueError (''limit must be positive, got '' @ int_str (the limit))))
      else (let deadline = map_option (\<lambda>s. b_clock br 0 + s) seconds in
        case consumer br t topic grp offset_reset of
          (closes, Inl e) \<Rightarrow> Some (closes, [], Some e)
        | (closes, Inr _) \<Rightarrow> map_option (Pair (closes + 1)) (tail_loop br topic limit deadline poll_timeout 0 [])))"

definition collect :: "broker \<Rightarrow> target \<Rightarrow> string \<Rightarrow> int option \<Rightarrow> rat option \<Rightarrow> string \<Rightarrow> string option
   \<Rightarrow> (string, avro) dict list res option" where
  "collect br t topic limit seconds offset_reset grp =
     map_option (\<lambda>(_, got, err). case err of Some e \<Rightarrow> Inl e | None \<Rightarrow> Inr got)
       (tail br t topic limit seconds offset_reset grp 1)"

subsection \<open>Facts\<close>

text \<open>The messages the first n polls answered, and what they read as.\<close>

definition polled :: "broker \<Rightarrow> rat option \<Rightarrow> rat \<Rightarrow> nat \<Rightarrow> nat \<Rightarrow> message list" where
  "polled br deadline pt k n = List.map_filter
     (\<lambda>i. case next_wait deadline (b_clock br (Suc i)) pt of None \<Rightarrow> None | Some w \<Rightarrow> b_poll br i w) [k ..< k + n]"

lemma polled_Suc:
  "polled br deadline pt k (Suc n) =
     (case next_wait deadline (b_clock br (Suc k)) pt of None \<Rightarrow> [] | Some w \<Rightarrow>
        (case b_poll br k w of None \<Rightarrow> [] | Some m \<Rightarrow> [m])) @ polled br deadline pt (Suc k) n"
  by (simp add: polled_def upt_conv_Cons List.map_filter_def split: option.splits del: upt_Suc)

text \<open>Once the clock has passed the deadline the loop ends, whatever the broker answers.\<close>

lemma tail_loop_ends:
  "Suc (k + n) = j \<Longrightarrow> d \<le> b_clock br j \<Longrightarrow>
   \<exists>m got' err. tail_loop br topic limit (Some d) pt k got = Some (got @ got', err) \<and>
     (\<forall>e. err = Some e \<longrightarrow> exn_kind e \<in> {KafkaException, ValueError} \<or> (\<exists>bs. b_utf8 br bs = Inl e)) \<and>
     (\<forall>l. limit = Some l \<longrightarrow> int (length got) \<le> l \<longrightarrow> int (length (got @ got')) \<le> l) \<and>
     list_all2 (\<lambda>x y. read_message br topic x = Inr y) (take (length got') (polled br (Some d) pt k m)) got' \<and>
     length got' \<le> length (polled br (Some d) pt k m)"
proof (induction n arbitrary: k got)
  case 0
  then have "next_wait (Some d) (b_clock br (Suc k)) pt = None" by (simp add: next_wait_def)
  then show ?case
    by (intro exI [of _ 0] exI [of _ "[]"] exI [of _ None]) (subst tail_loop.simps, simp add: polled_def)
next
  case (Suc n)
  show ?case
  proof (cases "limit_reached limit (length got) \<or> next_wait (Some d) (b_clock br (Suc k)) pt = None")
    case True
    then show ?thesis
      by (intro exI [of _ 0] exI [of _ "[]"] exI [of _ None]) (subst tail_loop.simps, auto simp: polled_def)
  next
    case False
    then obtain w where w: "\<not> limit_reached limit (length got)" "next_wait (Some d) (b_clock br (Suc k)) pt = Some w" by auto
    note IH = Suc.IH [of "Suc k"]
    show ?thesis
    proof (cases "b_poll br k w")
      case None
      have t: "tail_loop br topic limit (Some d) pt k got = tail_loop br topic limit (Some d) pt (Suc k) got"
        by (subst tail_loop.simps) (simp add: w None)
      from IH [of got] Suc.prems obtain m got' err where i:
        "tail_loop br topic limit (Some d) pt (Suc k) got = Some (got @ got', err)"
        "\<forall>e. err = Some e \<longrightarrow> exn_kind e \<in> {KafkaException, ValueError} \<or> (\<exists>bs. b_utf8 br bs = Inl e)"
        "\<forall>l. limit = Some l \<longrightarrow> int (length got) \<le> l \<longrightarrow> int (length (got @ got')) \<le> l"
        "list_all2 (\<lambda>x y. read_message br topic x = Inr y) (take (length got') (polled br (Some d) pt (Suc k) m)) got'"
        "length got' \<le> length (polled br (Some d) pt (Suc k) m)" by auto
      then show ?thesis unfolding t
        by (intro exI [of _ "Suc m"] exI [of _ got'] exI [of _ err]) (simp add: polled_Suc w None)
    next
      case (Some g)
      show ?thesis
      proof (cases "read_message br topic g")
        case (Inl e)
        then have "exn_kind e \<in> {KafkaException, ValueError} \<or> (\<exists>bs. b_utf8 br bs = Inl e)"
          by (auto simp: read_message_def res_simps split: option.splits sum.splits)
        then show ?thesis
          by (intro exI [of _ 0] exI [of _ "[]"] exI [of _ "Some e"])
            (subst tail_loop.simps, simp add: w Some Inl polled_def)
      next
        case (Inr rec)
        have t: "tail_loop br topic limit (Some d) pt k got = tail_loop br topic limit (Some d) pt (Suc k) (got @ [rec])"
          by (subst tail_loop.simps) (simp add: w Some Inr)
        from IH [of "got @ [rec]"] Suc.prems obtain m got' err where i:
          "tail_loop br topic limit (Some d) pt (Suc k) (got @ [rec]) = Some ((got @ [rec]) @ got', err)"
          "\<forall>e. err = Some e \<longrightarrow> exn_kind e \<in> {KafkaException, ValueError} \<or> (\<exists>bs. b_utf8 br bs = Inl e)"
          "\<forall>l. limit = Some l \<longrightarrow> int (length (got @ [rec])) \<le> l \<longrightarrow> int (length ((got @ [rec]) @ got')) \<le> l"
          "list_all2 (\<lambda>x y. read_message br topic x = Inr y) (take (length got') (polled br (Some d) pt (Suc k) m)) got'"
          "length got' \<le> length (polled br (Some d) pt (Suc k) m)" by auto
        then show ?thesis unfolding t using w(1)
          by (intro exI [of _ "Suc m"] exI [of _ "rec # got'"] exI [of _ err])
            (auto simp: polled_Suc w Some Inr limit_reached_def split: option.splits)
      qed
    qed
  qed
qed

text \<open>Without a deadline a quiet topic is polled for ever.\<close>

lemma tail_loop_quiet:
  "tail_loop br topic limit deadline pt k got = Some r \<Longrightarrow> (\<forall>i w. b_poll br i w = None) \<Longrightarrow>
   deadline = None \<Longrightarrow> limit = Some l \<Longrightarrow> int (length got) < l \<Longrightarrow> False"
  by (induction rule: tail_loop.raw_induct [rotated 1, consumes 1]) (simp add: next_wait_def limit_reached_def)

lemma consumer_closes:
  "consumer br t topic grp rst = (c, Inl e) \<Longrightarrow> c = 0 \<or> c = 1"
  "consumer br t topic grp rst = (c, Inr x) \<Longrightarrow> c = 0"
  by (auto simp: consumer_def Let_def split: sum.splits)

lemma consumer_opened:
  "consumer br t topic grp rst = (c, Inr x) \<Longrightarrow> topic \<in> set (map fst (projr (b_topics br))) \<and> \<not> isl (b_topics br)"
  by (auto simp: consumer_def check_topic_def Let_def res_simps split: sum.splits if_splits)

subsection \<open>Properties\<close>

text \<open>
  Property C21. A read with a wall clock always comes back, whatever the broker does: as
  soon as some reading of the clock reaches the deadline, tail has ended. It closes its consumer
  at most once and yields at most limit records; they are the messages the polls answered, in
  order and without a hole, each decoded with the trade schema and extended with its kafka fields.
\<close>

theorem timed_tail_returns:
  assumes "b_clock br 0 + s \<le> b_clock br j" and "0 < j"
  shows "\<exists>closes got err n. tail br t topic limit (Some s) rst grp pt = Some (closes, got, err) \<and> closes \<le> 1 \<and>
    (\<forall>l. limit = Some l \<longrightarrow> int (length got) \<le> max 0 l) \<and>
    length got \<le> length (polled br (Some (b_clock br 0 + s)) pt 0 n) \<and>
    list_all2 (\<lambda>m rec. read_message br topic m = Inr rec)
      (take (length got) (polled br (Some (b_clock br 0 + s)) pt 0 n)) got"
proof (cases "case limit of Some l \<Rightarrow> l \<le> 0 | None \<Rightarrow> False")
  case True
  then show ?thesis by (auto simp: tail_def split: option.splits)
next
  case valid: False
  obtain c r where c: "consumer br t topic grp rst = (c, r)" by (cases "consumer br t topic grp rst")
  show ?thesis
  proof (cases r)
    case (Inl e)
    with c valid show ?thesis using consumer_closes(1) [of br t topic grp rst c e]
      by (auto simp: tail_def Let_def split: option.splits)
  next
    case (Inr x)
    from assms(2) have "Suc (0 + (j - 1)) = j" by simp
    from tail_loop_ends [OF this assms(1), of topic limit pt "[]"] obtain m got err where l:
      "tail_loop br topic limit (Some (b_clock br 0 + s)) pt 0 [] = Some (got, err)"
      "\<forall>l. limit = Some l \<longrightarrow> 0 \<le> l \<longrightarrow> int (length got) \<le> l"
      "list_all2 (\<lambda>x y. read_message br topic x = Inr y) (take (length got) (polled br (Some (b_clock br 0 + s)) pt 0 m)) got"
      "length got \<le> length (polled br (Some (b_clock br 0 + s)) pt 0 m)" by auto
    have "tail br t topic limit (Some s) rst grp pt = Some (1, got, err)"
      using c Inr valid l(1) consumer_closes(2) [of br t topic grp rst c x] by (simp add: tail_def Let_def)
    moreover have "\<forall>l. limit = Some l \<longrightarrow> int (length got) \<le> max 0 l" using l(2) valid by auto
    ultimately show ?thesis using l(3,4) by (intro exI [of _ 1] exI [of _ got] exI [of _ err] exI [of _ m]) simp
  qed
qed

text \<open>A local broker with one topic on which nothing arrives; the clock ticks once per reading.\<close>

definition quiet_broker :: broker where
  "quiet_broker = \<lparr> b_open = (\<lambda>_. Inr ()), b_topics = Inr [(''md.trades.v1'', [0])], b_topic = (\<lambda>_. Inr (Some [0])),
     b_subscribe = (\<lambda>_. Inr ()), b_poll = (\<lambda>_ _. None), b_watermarks = (\<lambda>_ _. Inr (0, 0)),
     b_committed = (\<lambda>_ _. Inr []), b_clock = of_nat, b_read_avro = (\<lambda>_ _. Inr (NoRecord [])),
     b_utf8 = Inr, b_hex8 = ''0123abcd'' \<rparr>"

theorem timed_tail_returns_witness:
  "\<exists>closes got err. tail quiet_broker local_target ''md.trades.v1'' (Some 100) (Some 30) ''latest'' None 1 =
     Some (closes, got, err) \<and> closes \<le> 1 \<and> length got \<le> 100"
proof -
  have "b_clock quiet_broker 0 + 30 \<le> b_clock quiet_broker 30" by (simp add: quiet_broker_def)
  from timed_tail_returns [OF this, where t = local_target and topic = "''md.trades.v1''" and limit = "Some 100"
      and rst = "''latest''" and grp = None and pt = 1]
  show ?thesis by auto
qed

text \<open>
  Property C40. A read without a wall clock is bounded by nothing on a quiet topic: with only
  limit set, tail accepts the call, opens its consumer and then polls for ever.
\<close>

theorem untimed_tail_never_returns:
  assumes "0 < l" and "\<forall>k w. b_poll br k w = None" and "consumer br t topic grp rst = (c, Inr ())"
  shows "tail br t topic (Some l) None rst grp pt = None"
proof (rule ccontr)
  assume "tail br t topic (Some l) None rst grp pt \<noteq> None"
  with assms(1,3) obtain r where "tail_loop br topic (Some l) None pt 0 [] = Some r"
    by (auto simp: tail_def Let_def)
  from tail_loop_quiet [OF this assms(2)] assms(1) show False by simp
qed

theorem untimed_tail_never_returns_witness:
  "tail quiet_broker local_target ''md.trades.v1'' (Some 5) None ''latest'' None 1 = None"
proof (rule untimed_tail_never_returns)
  show "\<forall>k w. b_poll quiet_broker k w = None" by (simp add: quiet_broker_def)
  show "consumer quiet_broker local_target ''md.trades.v1'' None ''latest'' = (0, Inr ())"
    by (simp add: consumer_def consumer_config_def check_topic_def quiet_broker_def)
qed simp

end
