(* ===== verification/Health.thy ===== *)
theory Health
  imports Stream
begin

text \<open>
  devlab/health.py: what the log holds (watermarks, topics and lag), what is arriving (rate) and
  whether the sequence numbers read back are complete (sequence_gaps, which replays them through
  the SequenceTracker of the ingest process). The clients are the broker of theory Stream.
\<close>

subsection \<open>Watermarks, topics and lag\<close>

record partition_info =
  pi_topic :: string
  pi_partition :: int
  pi_low :: int
  pi_high :: int

definition pi_messages :: "partition_info \<Rightarrow> int" where
  "pi_messages p = pi_high p - pi_low p"

record topic_info =
  ti_name :: string
  ti_partitions :: int
  ti_messages :: int

record lag_info =
  li_topic :: string
  li_partition :: int
  li_committed :: "int option"
  li_high :: int

definition li_lag :: "lag_info \<Rightarrow> int option" where
  "li_lag l = (case li_committed l of None \<Rightarrow> None | Some c \<Rightarrow> Some (li_high l - c))"

definition watermarks :: "broker \<Rightarrow> string \<Rightarrow> int list \<Rightarrow> partition_info list res" where
  "watermarks br topic partition_ids = rmap (\<lambda>pid. rbind (b_watermarks br topic pid) (\<lambda>(low, high).
     Inr \<lparr> pi_topic = topic, pi_partition = pid, pi_low = low, pi_high = high \<rparr>)) (sort partition_ids)"

definition topic_row :: "broker \<Rightarrow> string \<times> int list \<Rightarrow> topic_info res" where
  "topic_row br nt = rbind (watermarks br (fst nt) (snd nt)) (\<lambda>infos.
     Inr \<lparr> ti_name = fst nt, ti_partitions = int (length infos), ti_messages = sum_list (map pi_messages infos) \<rparr>)"

definition listed :: "bool \<Rightarrow> string \<Rightarrow> string \<Rightarrow> bool" where
  "listed include_internal prefix name \<longleftrightarrow> (include_internal \<or> \<not> starts_with ''__'' name) \<and> starts_with prefix name"

definition topics :: "broker \<Rightarrow> target \<Rightarrow> string \<Rightarrow> bool \<Rightarrow> topic_info list res" where
  "topics br t prefix include_internal =
     rbind (b_topics br) (\<lambda>metadata.
     rbind (consumer_config t ''devlab-health'' ''latest'') (\<lambda>cfg.
     rbind (b_open br cfg) (\<lambda>_.
       rmap (topic_row br) (filter (\<lambda>nt. listed include_internal prefix (fst nt)) (sort_key fst metadata)))))"

definition topic_partitions :: "broker \<Rightarrow> target \<Rightarrow> string \<Rightarrow> int list res" where
  "topic_partitions br t topic = rbind (b_topic br topic) (\<lambda>meta. case meta of
     Some (p # ps) \<Rightarrow> Inr (p # ps)
   | _ \<Rightarrow> Inl (Exn ValueError (''topic '' @ py_repr topic @ '' not found on '' @ py_repr (tg_bootstrap t))))"

definition partitions :: "broker \<Rightarrow> target \<Rightarrow> string \<Rightarrow> partition_info list res" where
  "partitions br t topic = rbind (consumer_config t ''devlab-health'' ''latest'') (\<lambda>cfg.
     rbind (b_open br cfg) (\<lambda>_. rbind (topic_partitions br t topic) (watermarks br topic)))"

definition lag_row :: "string \<Rightarrow> (int \<times> int) list \<Rightarrow> partition_info \<Rightarrow> lag_info" where
  "lag_row topic committed info = (let offset = map_of (rev committed) (pi_partition info) in
     \<lparr> li_topic = topic, li_partition = pi_partition info,
       li_committed = (case offset of None \<Rightarrow> None | Some c \<Rightarrow> if c < 0 then None else Some c), li_high = pi_high info \<rparr>)"

definition lag :: "broker \<Rightarrow> target \<Rightarrow> string \<Rightarrow> string \<Rightarrow> lag_info list res" where
  "lag br t grp topic = rbind (consumer_config t grp ''latest'') (\<lambda>cfg.
     rbind (b_open br cfg) (\<lambda>_. rbind (topic_partitions br t topic) (\<lambda>pids.
     rbind (b_committed br topic (sort pids)) (\<lambda>committed.
     rbind (watermarks br topic (sort pids)) (\<lambda>infos. Inr (map (lag_row topic committed) infos))))))"

subsection \<open>Rate\<close>

text \<open>A Counter: storing under a present key keeps its position.\<close>

definition count_up :: "string \<Rightarrow> (string, int) dict \<Rightarrow> (string, int) dict" where
  "count_up k d = dict_set k ((case map_of d k of Some n \<Rightarrow> n | None \<Rightarrow> 0) + 1) d"

text \<open>most_common: by count, the largest first, ties in insertion order.\<close>

definition most_common :: "(string, int) dict \<Rightarrow> (string, int) dict" where
  "most_common d = sort_key (\<lambda>kv. - snd kv) d"

text \<open>record[key] where the trade schema has a string.\<close>

definition text_item :: "(string, avro) dict \<Rightarrow> string \<Rightarrow> string res" where
  "text_item rec k = rbind (dict_item rec k) (\<lambda>v. case v of
     AStr s \<Rightarrow> Inr s | _ \<Rightarrow> Inl (Exn OtherError ''not a record of the trade schema''))"

record rate_report =
  rr_topic :: string
  rr_messages :: int
  rr_seconds :: rat
  rr_by_venue :: "(string, int) dict"
  rr_by_instrument :: "(string, int) dict"

definition per_second :: "rate_report \<Rightarrow> rat" where
  "per_second r = (if 0 < rr_seconds r then of_int (rr_messages r) / rr_seconds r else 0)"

fun rate_count :: "(string, avro) dict list \<Rightarrow> (string, int) dict \<Rightarrow> (string, int) dict \<Rightarrow> int
    \<Rightarrow> ((string, int) dict \<times> (string, int) dict \<times> int) res" where
  "rate_count [] venues instruments total_n = Inr (venues, instruments, total_n)"
| "rate_count (rec # rs) venues instruments total_n =
     rbind (text_item rec ''venue'') (\<lambda>v. rbind (text_item rec ''instrument_id'') (\<lambda>i.
       rate_count rs (count_up v venues) (count_up i instruments) (total_n + 1)))"

text \<open>rate: now is the clock reading when the loop has ended, started the one before it began.\<close>

definition rate :: "broker \<Rightarrow> target \<Rightarrow> string \<Rightarrow> rat \<Rightarrow> rat \<Rightarrow> rat \<Rightarrow> rate_report res option" where
  "rate br t topic seconds started now = map_option (\<lambda>(_, got, err).
     rbind (rate_count got [] [] 0) (\<lambda>(venues, instruments, total_n). case err of
       Some e \<Rightarrow> Inl e
     | None \<Rightarrow> Inr \<lparr> rr_topic = topic, rr_messages = total_n, rr_seconds = now - started,
         rr_by_venue = most_common venues, rr_by_instrument = most_common instruments \<rparr>))
     (tail br t topic None (Some seconds) ''latest'' None 1)"

subsection \<open>Sequence gaps\<close>

definition connection_scoped_sequence_venues :: "string list" where
  "connection_scoped_sequence_venues = [''coinbase'']"

record gap_report =
  gr_checked :: int
  gr_gaps :: "gap list"
  gr_skipped :: "string list"

definition gr_missing :: "gap_report \<Rightarrow> int" where
  "gr_missing r = sum_list (map missing_count (gr_gaps r))"

text \<open>record.get('sequence'): a missing key and a null are both None.\<close>

definition sequence_of :: "(string, avro) dict \<Rightarrow> int option" where
  "sequence_of rec = (case map_of rec ''sequence'' of Some (ALong q) \<Rightarrow> Some q | _ \<Rightarrow> None)"

fun replay :: "(string, avro) dict list \<Rightarrow> tracker \<Rightarrow> gap list \<Rightarrow> int \<Rightarrow> string set
    \<Rightarrow> (gap list \<times> int \<times> string set) res" where
  "replay [] w found checked skipped = Inr (found, checked, skipped)"
| "replay (rec # rs) w found checked skipped =
     rbind (text_item rec ''venue'') (\<lambda>venue.
       if venue \<in> set connection_scoped_sequence_venues then replay rs w found checked (insert venue skipped)
       else (case sequence_of rec of
           None \<Rightarrow> replay rs w found checked skipped
         | Some q \<Rightarrow> rbind (text_item rec ''venue_symbol'') (\<lambda>symbol.
             (case observe w venue symbol (Some q) of (g, w') \<Rightarrow>
               replay rs w' (case g of Some x \<Rightarrow> found @ [x] | None \<Rightarrow> found) (checked + 1) skipped))))"

definition sequence_gaps :: "(string, avro) dict list \<Rightarrow> gap_report res" where
  "sequence_gaps records = rbind (replay records new_tracker [] 0 {}) (\<lambda>(found, checked, skipped).
     Inr \<lparr> gr_checked = checked, gr_gaps = found, gr_skipped = sorted_list_of_set skipped \<rparr>)"

subsection \<open>Facts\<close>

text \<open>The observations the replay makes: every record with a sequence of a venue that is not skipped.\<close>

definition checkable :: "(string, avro) dict \<Rightarrow> observation list" where
  "checkable rec = (case (map_of rec ''venue'', map_of rec ''venue_symbol'', sequence_of rec) of
     (Some (AStr v), Some (AStr s), Some q) \<Rightarrow> if v \<in> set connection_scoped_sequence_venues then [] else [(v, s, Some q)]
   | _ \<Rightarrow> [])"

definition checked_observations :: "(string, avro) dict list \<Rightarrow> observation list" where
  "checked_observations rs = concat (map checkable rs)"

lemma text_item_Inr_iff [res_simps]: "text_item rec k = Inr s \<longleftrightarrow> map_of rec k = Some (AStr s)"
  by (cases "map_of rec k"; cases "the (map_of rec k)") (auto simp: text_item_def dict_item_def)

lemma replay_is_observe_run:
  "replay rs w found checked skipped = Inr (gs, n, sk) \<Longrightarrow>
   gs = found @ run_gaps w (checked_observations rs) \<and> n = checked + int (length (checked_observations rs)) \<and>
   sk = skipped \<union> {v. v \<in> set connection_scoped_sequence_venues \<and> (\<exists>rec\<in>set rs. map_of rec ''venue'' = Some (AStr v))}"
proof (induction rs arbitrary: w found checked skipped)
  case Nil
  then show ?case by (simp add: checked_observations_def)
next
  case (Cons rec rs)
  from Cons.prems obtain v where v: "map_of rec ''venue'' = Some (AStr v)" by (auto simp: res_simps)
  then have tv: "text_item rec ''venue'' = Inr v" by (simp add: res_simps)
  show ?case
  proof (cases "v \<in> set connection_scoped_sequence_venues")
    case True
    with Cons.prems tv have "replay rs w found checked (insert v skipped) = Inr (gs, n, sk)" by simp
    from Cons.IH [OF this] True v show ?thesis
      by (auto simp: checked_observations_def checkable_def split: option.splits avro.splits)
  next
    case skip: False
    show ?thesis
    proof (cases "sequence_of rec")
      case None
      with Cons.prems tv skip have "replay rs w found checked skipped = Inr (gs, n, sk)" by simp
      from Cons.IH [OF this] None skip v show ?thesis
        by (auto simp: checked_observations_def checkable_def split: option.splits avro.splits)
    next
      case (Some q)
      with Cons.prems tv skip obtain s where s: "map_of rec ''venue_symbol'' = Some (AStr s)"
        by (auto simp: res_simps)
      then have ts: "text_item rec ''venue_symbol'' = Inr s" by (simp add: res_simps)
      obtain g w' where o: "observe w v s (Some q) = (g, w')" by (cases "observe w v s (Some q)")
      with Cons.prems tv skip Some ts have
        "replay rs w' (case g of Some x \<Rightarrow> found @ [x] | None \<Rightarrow> found) (checked + 1) skipped = Inr (gs, n, sk)" by simp
      from Cons.IH [OF this] skip v s Some o show ?thesis
        by (auto simp: checked_observations_def checkable_def run_gaps_Cons split: option.splits)
    qed
  qed
qed

lemma gap_venue_seen: "g \<in> set (run_gaps w es) \<Longrightarrow> \<exists>s q. (gap_venue g, s, q) \<in> set es"
proof (induction es arbitrary: w)
  case (Cons e es)
  obtain v s q where e: "e = (v, s, q)" by (cases e)
  from Cons.prems e consider "fst (observe w v s q) = Some g" | "g \<in> set (run_gaps (snd (observe w v s q)) es)"
    by (auto simp: run_gaps_Cons split: option.splits)
  then show ?case
  proof cases
    case 1
    then have "gap_venue g = v" by (auto simp: observe_gap_iff)
    with e show ?thesis by auto
  qed (use Cons.IH in fastforce)
qed simp

lemma checked_not_skipped: "(v, s, q) \<in> set (checked_observations rs) \<Longrightarrow> v \<notin> set connection_scoped_sequence_venues"
  by (auto simp: checked_observations_def checkable_def split: option.splits avro.splits if_splits)

lemma observed_below_watermark:
  assumes "j \<in> set (seqs k es)"
  shows "\<exists>h. run_tracker new_tracker es k = Some h \<and> j \<le> h"
proof (cases "run_tracker new_tracker es k")
  case None
  then have "seqs k es = []" using accounted_run [of k es] by (simp add: accounted_def)
  with assms show ?thesis by simp
next
  case (Some h)
  then have "h = Max (set (seqs k es))" using accounted_run [of k es] unfolding accounted_def option.case by simp
  with assms Some show ?thesis by simp
qed

subsection \<open>Properties\<close>

text \<open>
  Property C22. The notebook's completeness check is the producer's detector on the records
  read back: it reports the gaps observe finds over the records it checks, counts those records,
  lists the venues it skipped, never reports a gap of a venue whose sequence belongs to the
  connection, and leaves no hole between two checked ids of a symbol unreported.
\<close>

theorem sequence_gaps_complete:
  assumes "sequence_gaps rs = Inr rep"
  shows "gr_gaps rep = run_gaps new_tracker (checked_observations rs) \<and>
    gr_checked rep = int (length (checked_observations rs)) \<and>
    set (gr_skipped rep) = {v. v \<in> set connection_scoped_sequence_venues \<and> (\<exists>rec\<in>set rs. map_of rec ''venue'' = Some (AStr v))} \<and>
    (\<forall>g\<in>set (gr_gaps rep). gap_venue g \<notin> set connection_scoped_sequence_venues) \<and>
    (\<forall>k. \<forall>j\<in>set (seqs k (checked_observations rs)). \<forall>n\<in>{hd (seqs k (checked_observations rs)) .. j}.
       n \<in> set (seqs k (checked_observations rs)) \<or> (\<exists>g\<in>set (gr_gaps rep). gap_key g = k \<and> n \<in> gap_ids g))"
proof -
  from assms obtain gs n sk where r: "replay rs new_tracker [] 0 {} = Inr (gs, n, sk)"
    and rep: "rep = \<lparr> gr_checked = n, gr_gaps = gs, gr_skipped = sorted_list_of_set sk \<rparr>"
    by (auto simp: sequence_gaps_def res_simps)
  note run = replay_is_observe_run [OF r, simplified]
  have fin: "finite {v. v \<in> set connection_scoped_sequence_venues \<and> (\<exists>rec\<in>set rs. map_of rec ''venue'' = Some (AStr v))}"
    by (rule finite_subset [of _ "set connection_scoped_sequence_venues"]) auto
  have venues: "\<forall>g\<in>set gs. gap_venue g \<notin> set connection_scoped_sequence_venues"
    using run gap_venue_seen checked_not_skipped by metis
  have cover: "n \<in> set (seqs k (checked_observations rs)) \<or> (\<exists>g\<in>set gs. gap_key g = k \<and> n \<in> gap_ids g)"
    if j: "j \<in> set (seqs k (checked_observations rs))" "hd (seqs k (checked_observations rs)) \<le> n" "n \<le> j" for k j n
  proof -
    obtain h where h: "run_tracker new_tracker (checked_observations rs) k = Some h" "j \<le> h"
      using observed_below_watermark [OF j(1)] by blast
    have gs: "gs = run_gaps new_tracker (checked_observations rs)" using run by simp
    show ?thesis unfolding gs by (rule misses_covered [OF h(1) j(2)]) (use j h in simp)
  qed
  show ?thesis using run rep fin venues cover by simp
qed

definition health_records :: "(string, avro) dict list" where
  "health_records = [to_avro example_trade, to_avro (example_trade\<lparr>t_venue := ''coinbase'', t_sequence := Some 7\<rparr>),
     to_avro (example_trade\<lparr>t_sequence := Some 44\<rparr>)]"

theorem sequence_gaps_complete_witness:
  "\<exists>rep. sequence_gaps health_records = Inr rep \<and> gr_checked rep = 2 \<and> gr_missing rep = 2 \<and>
     ''coinbase'' \<notin> gap_venue ` set (gr_gaps rep)"
proof -
  let ?g = "\<lparr>gap_venue = ''binance'', gap_symbol = ''BTCUSDT'', last_seen = 41, next_seen = 44\<rparr>"
  let ?rep = "\<lparr> gr_checked = 2, gr_gaps = [?g], gr_skipped = [''coinbase''] \<rparr>"
  have l: "sequence_gaps health_records = Inr ?rep"
    by (simp add: sequence_gaps_def health_records_def example_trade_def to_avro_def text_item_def dict_item_def
        connection_scoped_sequence_venues_def sequence_of_def observe_def new_tracker_def)
  from sequence_gaps_complete [OF l] have "\<forall>g\<in>set (gr_gaps ?rep). gap_venue g \<notin> set connection_scoped_sequence_venues"
    by (elim conjE)
  with l show ?thesis
    by (intro exI [of _ ?rep]) (simp add: gr_missing_def missing_count_def connection_scoped_sequence_venues_def)
qed

text \<open>
  The lag of a group is reported once per partition, in ascending order: the
  high watermark minus what the group committed, and nothing where it never committed (no
  offset, or the negative marker of the client).
\<close>

theorem lag_reports_every_partition:
  assumes "lag br t grp topic = Inr rows" and "b_topic br topic = Inr (Some pids)"
    and "b_committed br topic (sort pids) = Inr offsets" and "distinct (map fst offsets)"
  shows "map li_partition rows = sort pids \<and>
    (\<forall>r\<in>set rows. (\<exists>low. b_watermarks br topic (li_partition r) = Inr (low, li_high r)) \<and>
       li_lag r = (case map_of offsets (li_partition r) of
         Some c \<Rightarrow> if 0 \<le> c then Some (li_high r - c) else None | None \<Rightarrow> None))"
proof -
  from assms(1-3) obtain infos where i: "watermarks br topic (sort pids) = Inr infos"
      "rows = map (lag_row topic offsets) infos"
    by (auto simp: lag_def topic_partitions_def res_simps split: option.splits list.splits)
  have rev: "map_of (rev offsets) = map_of offsets"
    using assms(4) by (subst map_of_inject_set) (auto simp: rev_map [symmetric])
  from i(1) have all: "list_all2 (\<lambda>pid info. pi_partition info = pid \<and> (\<exists>low. b_watermarks br topic pid = Inr (low, pi_high info)))
      (sort pids) infos"
    by (auto simp: watermarks_def rmap_Inr_iff res_simps sorted_sort_id elim!: list_all2_mono)
  then have "map pi_partition infos = sort pids"
    by (simp add: list_all2_conv_all_nth list_eq_iff_nth_eq)
  moreover have "\<forall>info\<in>set infos. \<exists>low. b_watermarks br topic (pi_partition info) = Inr (low, pi_high info)"
    using all by (auto simp: list_all2_conv_all_nth in_set_conv_nth)
  ultimately show ?thesis
    by (auto simp: i(2) lag_row_def li_lag_def rev Let_def o_def split: option.splits)
qed

theorem lag_reports_every_partition_witness:
  "\<exists>rows. lag quiet_broker local_target ''g'' ''md.trades.v1'' = Inr rows \<and> map li_partition rows = [0] \<and>
     (\<forall>r\<in>set rows. li_lag r = None)"
proof -
  have l: "lag quiet_broker local_target ''g'' ''md.trades.v1'' =
      Inr [\<lparr> li_topic = ''md.trades.v1'', li_partition = 0, li_committed = None, li_high = 0 \<rparr>]"
    by (simp add: lag_def consumer_config_def quiet_broker_def topic_partitions_def watermarks_def lag_row_def)
  from lag_reports_every_partition [OF l, of "[0]" "[]"] l show ?thesis
    by (simp add: quiet_broker_def)
qed

end
