(* ===== verification/Cli.thy ===== *)
theory Cli
  imports Runner Producer Sink Target
begin

text \<open>
  The entry points ingest/cli.py and awsnative/cli.py: from the settings and the universe file
  to the runners that are started. Reading the YAML file is a parameter. A task that was created
  runs its first step only when main awaits, so an exception before that starts nothing, and the
  result is the exception or the list of the tasks gathered. Signals and logging are left out.
\<close>

definition known_venues :: "string list" where
  "known_venues = [binance, coinbase]"

text \<open>A connector: its venue and the instrument map it was built with.\<close>

definition build_connector :: "string \<Rightarrow> instrument_map \<Rightarrow> (string \<times> instrument_map) res" where
  "build_connector venue m = (if venue \<in> set known_venues then Inr (venue, m)
     else Inl (Exn SystemExit (''unknown venue '' @ py_repr venue @ ''; known: '' @ list_repr (sort known_venues))))"

text \<open>The runner of a venue with the sink and the symbols it is run with.\<close>

record 'k venue_task =
  vt_venue :: string
  vt_symbols :: "string list"
  vt_sink :: 'k
  vt_runner :: runner
  vt_topic :: string

fun start_venues :: "'k res \<Rightarrow> int \<Rightarrow> string \<Rightarrow> instrument_map \<Rightarrow> string list \<Rightarrow> 'k venue_task list res" where
  "start_venues mk maxsize topic m [] = Inr []"
| "start_venues mk maxsize topic m (venue # rest) =
     rbind (build_connector venue m) (\<lambda>connector.
       let symbols = symbols_for m venue in
       if symbols = [] then start_venues mk maxsize topic m rest
       else rbind mk (\<lambda>sk. rbind (dict_item topic_policies topic) (\<lambda>policy.
         rbind (start_venues mk maxsize topic m rest) (\<lambda>tasks.
           Inr (\<lparr> vt_venue = venue, vt_symbols = symbols, vt_sink = sk, vt_runner = new_runner maxsize policy,
             vt_topic = topic \<rparr> # tasks)))))"

definition gather :: "'k venue_task list \<Rightarrow> 'k venue_task list res" where
  "gather tasks = (if tasks = [] then Inl (Exn SystemExit ''no venues to run'') else Inr tasks)"

definition ingest_main :: "string \<Rightarrow> (string \<Rightarrow> universe_entry list res) \<Rightarrow> settings \<Rightarrow> trade_producer venue_task list res" where
  "ingest_main schema_dir read_yaml s =
     rbind (read_yaml (st_universe_path s)) (\<lambda>doc.
     rbind (start_venues (new_producer schema_dir (st_bootstrap_servers s) (st_sasl_username s) (st_sasl_password s))
       (st_queue_maxsize s) (st_trades_topic s) (from_yaml doc) (st_venues s)) gather)"

text \<open>A KinesisSink: the stream and the state of theory Sink.\<close>

definition native_main :: "(string \<Rightarrow> universe_entry list res) \<Rightarrow> native_settings \<Rightarrow> (string \<times> kinesis) venue_task list res" where
  "native_main read_yaml s =
     rbind (read_yaml (ns_universe_path s)) (\<lambda>doc.
     rbind (start_venues (Inr (ns_stream_name s, default_kinesis)) (ns_queue_maxsize s) (ns_trades_topic s)
       (from_yaml doc) (ns_venues s)) gather)"

subsection \<open>Facts\<close>

definition task_of :: "'k \<Rightarrow> int \<Rightarrow> string \<Rightarrow> drop_policy \<Rightarrow> instrument_map \<Rightarrow> string \<Rightarrow> 'k venue_task" where
  "task_of sk maxsize topic policy m venue = \<lparr> vt_venue = venue, vt_symbols = symbols_for m venue, vt_sink = sk,
     vt_runner = new_runner maxsize policy, vt_topic = topic \<rparr>"

lemma start_known:
  assumes "set venues \<subseteq> set known_venues" and "map_of topic_policies topic = Some policy"
  shows "start_venues (Inr sk) maxsize topic m venues =
    Inr (map (task_of sk maxsize topic policy m) (filter (\<lambda>v. symbols_for m v \<noteq> []) venues))"
  using assms(1)
proof (induction venues)
  case (Cons v vs)
  then have "build_connector v m = Inr (v, m)" by (simp add: build_connector_def)
  with Cons assms(2) show ?case by (simp add: Let_def dict_item_def task_of_def)
qed simp

lemma start_unknown:
  assumes "v \<in> set venues" and "v \<notin> set known_venues" and "map_of topic_policies topic = Some policy"
  shows "\<exists>w. w \<in> set venues \<and> w \<notin> set known_venues \<and>
    start_venues (Inr sk) maxsize topic m venues = Inl (Exn SystemExit (''unknown venue '' @ py_repr w @ ''; known: '' @ list_repr (sort known_venues)))"
  using assms(1)
proof (induction venues)
  case (Cons u us)
  show ?case
  proof (cases "u \<in> set known_venues")
    case False
    then show ?thesis by (intro exI [of _ u]) (simp add: build_connector_def)
  next
    case True
    with Cons.prems assms(2) have "v \<in> set us" by auto
    from Cons.IH [OF this] True assms(3) show ?thesis
      by (auto simp: build_connector_def Let_def dict_item_def)
  qed
qed simp

subsection \<open>Properties\<close>

text \<open>
  Property C15. Starting a process is all or nothing: on a topic with a policy, the tasks
  gathered are one per configured venue that has symbols, in order, each with its own fresh runner
  whose queue has the configured bound and the policy of the topic; one unknown venue, wherever it
  stands, starts nothing and exits naming it; and with no symbols at all the process exits.
\<close>

theorem startup_all_or_nothing:
  assumes "read_yaml (ns_universe_path s) = Inr doc" and "map_of topic_policies (ns_trades_topic s) = Some policy"
  shows "case native_main read_yaml s of
      Inr tasks \<Rightarrow> set (ns_venues s) \<subseteq> set known_venues \<and> tasks \<noteq> [] \<and>
        tasks = map (task_of (ns_stream_name s, default_kinesis) (ns_queue_maxsize s) (ns_trades_topic s) policy (from_yaml doc))
          (filter (\<lambda>v. symbols_for (from_yaml doc) v \<noteq> []) (ns_venues s))
    | Inl e \<Rightarrow> exn_kind e = SystemExit \<and>
        (if set (ns_venues s) \<subseteq> set known_venues
         then exn_str e = ''no venues to run'' \<and> (\<forall>v\<in>set (ns_venues s). symbols_for (from_yaml doc) v = [])
         else (\<exists>w\<in>set (ns_venues s). w \<notin> set known_venues \<and>
           exn_str e = ''unknown venue '' @ py_repr w @ ''; known: '' @ list_repr (sort known_venues)))"
proof (cases "set (ns_venues s) \<subseteq> set known_venues")
  case True
  from start_known [OF True assms(2), where sk = "(ns_stream_name s, default_kinesis)"] True show ?thesis
    by (auto simp: native_main_def assms(1) gather_def filter_empty_conv)
next
  case False
  then obtain v where v: "v \<in> set (ns_venues s)" "v \<notin> set known_venues" by blast
  from start_unknown [OF v assms(2), of "(ns_stream_name s, default_kinesis)" "ns_queue_maxsize s" "from_yaml doc"] False
  show ?thesis by (auto simp: native_main_def assms(1))
qed

lemma universe_symbols: "symbols_for (from_yaml universe) binance \<noteq> []" "symbols_for (from_yaml universe) coinbase \<noteq> []"
  by (simp_all add: universe_def universe_row_def from_yaml_def add_entry_def add_symbol_def symbols_for_def binance_def coinbase_def)

theorem startup_all_or_nothing_witness:
  "\<exists>a b. native_main (\<lambda>path. Inr universe) default_native_settings = Inr [a, b] \<and> vt_venue a = ''binance'' \<and>
     vt_venue b = ''coinbase'' \<and> q_policy (r_queue (vt_runner a)) = BLOCK \<and> q_maxsize (r_queue (vt_runner b)) = 20000"
proof -
  have p: "map_of topic_policies (ns_trades_topic default_native_settings) = Some BLOCK"
    by (simp add: topic_policies_def default_native_settings_def)
  have u: "set (ns_venues default_native_settings) \<subseteq> set known_venues"
    and f: "filter (\<lambda>v. symbols_for (from_yaml universe) v \<noteq> []) (ns_venues default_native_settings) = [''binance'', ''coinbase'']"
    using universe_symbols by (simp_all add: default_native_settings_def known_venues_def binance_def coinbase_def)
  let ?r = "native_main (\<lambda>path. Inr universe) default_native_settings"
  have "isl ?r = False" using start_known [OF u p, where sk = "(ns_stream_name default_native_settings, default_kinesis)"] f by (simp add: native_main_def gather_def)
  then obtain tasks where t: "?r = Inr tasks" by (cases ?r) auto
  from startup_all_or_nothing [where read_yaml = "\<lambda>path. Inr universe" and s = default_native_settings and doc = universe, OF refl p] t f
  show ?thesis by (simp add: task_of_def new_runner_def new_queue_def default_native_settings_def)
qed

end
