(* ===== verification/Bars.thy ===== *)
theory Bars
  imports Floats Health
begin

text \<open>
  The additive-measure contract: awsnative/bars.py, and the rolling average of
  scripts/consume_example.py. A Decimal is a rational and every operation rounds to the 28
  significant digits of the default context, half to even (the limits of the exponent are far
  away). The window length and the print interval of the example are naturals. The float part of a bar is binary64 as in theory Floats; log, the square and sqrt of the
  C library are the parameter fmath.
\<close>

subsection \<open>Decimal arithmetic\<close>

function dec :: "rat \<Rightarrow> rat" where
  "dec q = (if q \<le> 0 then 0
     else if q < 10 ^ 27 then dec (10 * q) / 10
     else if 10 ^ 28 \<le> q then 10 * dec (q / 10)
     else of_int (round_half_even q))"
  by pat_completeness auto

definition dec_size :: "rat \<Rightarrow> nat" where
  "dec_size q = (if q < 10 ^ 27 then nat \<lceil>10 ^ 28 / q\<rceil> else nat \<lceil>q / 10 ^ 27\<rceil>)"

lemma ceil_tenth: "2 \<le> x \<Longrightarrow> nat \<lceil>x / 10\<rceil> < nat \<lceil>x :: rat\<rceil>"
proof -
  assume "2 \<le> x"
  then have "x / 10 \<le> x - 1" by simp
  then have "\<lceil>x / 10\<rceil> \<le> \<lceil>x - 1\<rceil>" by (rule ceiling_mono)
  then have "\<lceil>x / 10\<rceil> < \<lceil>x\<rceil>" by simp
  moreover have "0 < \<lceil>x\<rceil>" using \<open>2 \<le> x\<close> by simp
  ultimately show ?thesis by simp
qed

termination dec
proof (relation "measure dec_size", simp, goal_cases)
  case (1 q)
  then have q: "0 < q" "q < 10 ^ 27" by auto
  then have lt: "10 < 10 ^ 28 / q" by (simp add: pos_less_divide_eq)
  show ?case
  proof (cases "10 * q < 10 ^ 27")
    case True
    have "10 ^ 28 / (10 * q) = 10 ^ 28 / q / 10" by simp
    with True q ceil_tenth [of "10 ^ 28 / q"] lt show ?thesis by (simp add: dec_size_def)
  next
    case False
    have "10 * q / 10 ^ 27 \<le> 10" using q by simp
    then have "\<lceil>10 * q / 10 ^ 27\<rceil> \<le> 10" by (simp add: ceiling_le_iff)
    moreover have "10 < \<lceil>10 ^ 28 / q\<rceil>" using lt by (simp add: less_ceiling_iff)
    ultimately have "nat \<lceil>10 * q / 10 ^ 27\<rceil> < nat \<lceil>10 ^ 28 / q\<rceil>" by linarith
    with False q show ?thesis by (simp add: dec_size_def)
  qed
next
  case (2 q)
  then have q: "10 ^ 28 \<le> q" by auto
  then have "2 \<le> q / 10 ^ 27" by (simp add: pos_le_divide_eq)
  from ceil_tenth [OF this] q show ?case by (simp add: dec_size_def)
qed

declare dec.simps [simp del]

definition dec_signed :: "rat \<Rightarrow> rat" where
  "dec_signed q = (if q < 0 then - dec (- q) else dec q)"

text \<open>sum(xs, Decimal(0)): each addition rounds.\<close>

definition dec_sum :: "rat list \<Rightarrow> rat" where
  "dec_sum xs = foldl (\<lambda>acc x. dec_signed (acc + x)) 0 xs"

subsection \<open>bars.py\<close>

definition additive_sum :: "string list" where
  "additive_sum = [''volume'', ''notional'', ''buy_vol'', ''sell_vol'', ''sq_log_return'', ''trade_count'']"

definition additive_extrema :: "string list" where
  "additive_extrema = [''high'', ''low'']"

definition non_additive :: "string list" where
  "non_additive = [''open'', ''close'']"

record bar =
  br_open :: rat
  br_high :: rat
  br_low :: rat
  br_close :: rat
  br_volume :: rat
  br_notional :: rat
  br_buy_vol :: rat
  br_sell_vol :: rat
  br_sq_log_return :: rat
  br_trade_count :: int

record measures =
  me_vwap :: rat
  me_high :: rat
  me_low :: rat
  me_realized_vol :: rat
  me_flow_imbalance :: rat
  me_volume :: rat
  me_trade_count :: int

record fmath =
  fm_log :: "rat \<Rightarrow> rat res"
  fm_square :: "rat \<Rightarrow> rat"
  fm_sqrt :: "rat \<Rightarrow> rat"

text \<open>zip(..., strict=True).\<close>

definition strict_zip :: "'a list \<Rightarrow> 'b list \<Rightarrow> ('a \<times> 'b) list res" where
  "strict_zip xs ys = (if length xs = length ys then Inr (zip xs ys)
     else Inl (Exn ValueError (''zip() argument 2 is '' @ (if length ys < length xs then ''shorter'' else ''longer'') @ '' than argument 1'')))"

definition side_volume :: "string \<Rightarrow> (rat \<times> string) list \<Rightarrow> rat" where
  "side_volume side zs = dec_sum (map fst (filter (\<lambda>z. snd z = side) zs))"

definition float_div :: "rat \<Rightarrow> rat \<Rightarrow> rat res" where
  "float_div a b = (if b = 0 then Inl (Exn ZeroDivisionError ''float division by zero'') else Inr (fl_signed (a / b)))"

text \<open>sum over floats, which the standard library compensates after Neumaier since Python 3.12.\<close>

fun neumaier :: "rat \<Rightarrow> rat \<Rightarrow> rat list \<Rightarrow> rat" where
  "neumaier s c [] = (if c = 0 then s else fl_signed (s + c))"
| "neumaier s c (x # xs) =
     (let t = fl_signed (s + x);
          lost = (if \<bar>x\<bar> \<le> \<bar>s\<bar> then fl_signed (fl_signed (s - t) + x) else fl_signed (fl_signed (x - t) + s))
      in neumaier t (fl_signed (c + lost)) xs)"

definition float_sum :: "rat list \<Rightarrow> rat" where
  "float_sum xs = neumaier 0 0 xs"

definition bar_from_trades :: "fmath \<Rightarrow> rat list \<Rightarrow> rat list \<Rightarrow> string list \<Rightarrow> bar res" where
  "bar_from_trades fm prices sizes sides =
     (if prices = [] then Inl (Exn ValueError ''a bar needs at least one trade'') else
      rbind (strict_zip prices sizes) (\<lambda>ps.
      rbind (strict_zip sizes sides) (\<lambda>ss.
      rbind (float_div (fl_signed (last prices)) (fl_signed (hd prices))) (\<lambda>ratio.
      rbind (fm_log fm ratio) (\<lambda>l.
        Inr \<lparr> br_open = hd prices, br_high = Max (set prices), br_low = Min (set prices), br_close = last prices,
          br_volume = dec_sum sizes, br_notional = dec_sum (map (\<lambda>(p, s). dec_signed (p * s)) ps),
          br_buy_vol = side_volume ''BUY'' ss, br_sell_vol = side_volume ''SELL'' ss,
          br_sq_log_return = fm_square fm l, br_trade_count = int (length prices) \<rparr>)))))"

definition rollup :: "fmath \<Rightarrow> bar list \<Rightarrow> measures res" where
  "rollup fm bars =
     (if bars = [] then Inl (Exn ValueError ''cannot roll up an empty set of bars'') else
      let volume = dec_sum (map br_volume bars) in
      if volume \<le> 0 then Inl (Exn ValueError ''cannot compute volume-weighted measures over zero volume'') else
      let notional = dec_sum (map br_notional bars); buy_vol = dec_sum (map br_buy_vol bars);
          sell_vol = dec_sum (map br_sell_vol bars)
      in Inr \<lparr> me_vwap = dec_signed (notional / volume), me_high = Max (set (map br_high bars)),
           me_low = Min (set (map br_low bars)),
           me_realized_vol = fm_sqrt fm (float_sum (map br_sq_log_return bars)),
           me_flow_imbalance = dec_signed (dec_signed (buy_vol - sell_vol) / volume), me_volume = volume,
           me_trade_count = sum_list (map br_trade_count bars) \<rparr>)"

subsection \<open>consume_example.py\<close>

definition vwap :: "(rat \<times> rat) list \<Rightarrow> rat" where
  "vwap window =
     (let notional = dec_sum (map (\<lambda>(price, sz). dec_signed (price * sz)) window); volume = dec_sum (map snd window)
      in if volume \<noteq> 0 then dec_signed (notional / volume) else 0)"

text \<open>deque(maxlen=n).append.\<close>

definition push :: "nat \<Rightarrow> 'a list \<Rightarrow> 'a \<Rightarrow> 'a list" where
  "push n window x = (let w = window @ [x] in drop (length w - n) w)"

definition push_trade :: "nat \<Rightarrow> (string, (rat \<times> rat) list) dict \<Rightarrow> string \<times> rat \<times> rat \<Rightarrow> (string, (rat \<times> rat) list) dict" where
  "push_trade n windows rec = (case rec of (ident, price, sz) \<Rightarrow>
     dict_set ident (push n (case map_of windows ident of Some w \<Rightarrow> w | None \<Rightarrow> []) (price, sz)) windows)"

text \<open>A snapshot: each instrument in name order with its average and the length of its window.\<close>

definition snapshot :: "(string, (rat \<times> rat) list) dict \<Rightarrow> (string \<times> rat \<times> nat) list" where
  "snapshot windows = map (\<lambda>(ident, window). (ident, vwap window, length window)) (sort_key fst windows)"

definition example_config :: "string \<Rightarrow> string option \<Rightarrow> string option \<Rightarrow> string \<Rightarrow> string \<Rightarrow> (string, conf) dict" where
  "example_config bootstrap username password grp offset_reset =
     (let config = [(''bootstrap.servers'', CText bootstrap), (''group.id'', CText grp), (''auto.offset.reset'', CText offset_reset)]
      in if text_true username \<and> text_true password
      then dict_update config
        [(''security.protocol'', CText ''SASL_SSL''), (''sasl.mechanisms'', CText ''SCRAM-SHA-512''),
         (''sasl.username'', CText (the username)), (''sasl.password'', CText (the password))]
      else config)"

text \<open>The instrument, price and size of a message; decimal is the constructor Decimal(text).\<close>

definition read_trade :: "avro_reader \<Rightarrow> (string \<Rightarrow> rat res) \<Rightarrow> message \<Rightarrow> (string \<times> rat \<times> rat) res" where
  "read_trade read_avro decimal m =
     rbind (codec_decode read_avro trade_v1 (g_value m)) (\<lambda>rec.
     rbind (text_item rec ''instrument_id'') (\<lambda>ident.
     rbind (rbind (text_item rec ''price'') decimal) (\<lambda>price.
     rbind (rbind (text_item rec ''size'') decimal) (\<lambda>sz. Inr (ident, price, sz)))))"

text \<open>
  The loop over what the polls answer until it is interrupted: the snapshots printed, the windows
  at the end, and the exception that ended it, if any.
\<close>

fun consume :: "(message \<Rightarrow> (string \<times> rat \<times> rat) res) \<Rightarrow> nat \<Rightarrow> nat \<Rightarrow> nat \<Rightarrow> (string, (rat \<times> rat) list) dict
    \<Rightarrow> message option list \<Rightarrow> (nat \<times> (string \<times> rat \<times> nat) list) list \<times> (string, (rat \<times> rat) list) dict \<times> exn option" where
  "consume rd n every seen windows [] = ([], windows, None)"
| "consume rd n every seen windows (None # ms) = consume rd n every seen windows ms"
| "consume rd n every seen windows (Some m # ms) =
     (if g_error m \<noteq> None then consume rd n every seen windows ms
      else (case rd m of
          Inl e \<Rightarrow> ([], windows, Some e)
        | Inr rec \<Rightarrow>
            (let w = push_trade n windows rec; s = Suc seen in
             if every = 0 then ([], w, Some (Exn ZeroDivisionError ''integer modulo by zero''))
             else (case consume rd n every s w ms of (out, final, err) \<Rightarrow>
               (if s mod every = 0 then (s, snapshot w) # out else out, final, err)))))"

subsection \<open>Facts\<close>

text \<open>A value with at most 28 digits is not rounded.\<close>

lemma dec_exact: "0 \<le> n \<Longrightarrow> n < 10 ^ 28 \<Longrightarrow> q = of_int n / 10 ^ k \<Longrightarrow> dec q = q"
proof (induction q arbitrary: n k rule: dec.induct)
  case (1 q)
  have big: "q \<le> of_int n" using "1.prems" by (simp add: divide_le_eq mult_le_cancel_left1)
  have lt: "of_int n < (10 ^ 28 :: rat)" using "1.prems"(2) by (metis of_int_less_iff of_int_numeral of_int_power)
  show ?case
  proof (cases "q \<le> 0")
    case True
    moreover have "0 \<le> q" using "1.prems"(1,3) by simp
    ultimately have "q = 0" by simp
    then show ?thesis by (simp add: dec.simps)
  next
    case pos: False
    show ?thesis
    proof (cases "q < 10 ^ 27")
      case True
      have "dec (10 * q) = 10 * q"
      proof (cases k)
        case 0
        then have "q = of_int n" using "1.prems"(3) by simp
        moreover have "10 * n < 10 ^ 28"
        proof -
          have "of_int n < (10 ^ 27 :: rat)" using True \<open>q = of_int n\<close> by simp
          then have "n < 10 ^ 27" by (metis of_int_less_iff of_int_numeral of_int_power)
          then show ?thesis by simp
        qed
        ultimately show ?thesis using "1.IH"(1) [OF pos True, of "10 * n" 0] "1.prems"(1) by simp
      next
        case (Suc j)
        then have "10 * q = of_int n / 10 ^ j" using "1.prems"(3) by simp
        then show ?thesis using "1.IH"(1) [OF pos True "1.prems"(1,2)] by blast
      qed
      with pos True show ?thesis by (subst dec.simps) simp
    next
      case False
      have k0: "k = 0"
      proof (rule ccontr)
        assume "k \<noteq> 0"
        then have "(10 :: rat) \<le> 10 ^ k" by (cases k) simp_all
        moreover have "(10 :: rat) ^ 27 * 10 ^ k \<le> of_int n"
        proof -
          have "(10 :: rat) ^ 27 \<le> of_int n / 10 ^ k" using False "1.prems"(3) by (simp only: not_less)
          moreover have "(0 :: rat) < 10 ^ k" by simp
          ultimately show ?thesis using pos_le_divide_eq by blast
        qed
        ultimately have "(10 :: rat) ^ 27 * 10 \<le> of_int n" by (meson mult_left_mono order_trans zero_le_numeral zero_le_power)
        with lt show False by simp
      qed
      then have "q = of_int n" using "1.prems"(3) by simp
      moreover have "round_half_even (of_int n) = n" by (rule round_half_even_near) simp
      ultimately show ?thesis using pos False lt by (subst dec.simps) simp
    qed
  qed
qed

text \<open>
  Amounts on a grid: not negative, multiples of 1 / 10 ^ k, with a total below 28 digits. A
  partial sum of them is not rounded.
\<close>

definition grid_limit :: "nat \<Rightarrow> rat" where
  "grid_limit k = 10 ^ 28 / 10 ^ k"

definition on_grid :: "nat \<Rightarrow> rat list \<Rightarrow> bool" where
  "on_grid k xs \<longleftrightarrow> (\<forall>x\<in>set xs. 0 \<le> x \<and> (\<exists>n. x = of_int n / 10 ^ k)) \<and> sum_list xs < grid_limit k"

lemma grid_sum: "(\<forall>x\<in>set xs. \<exists>n. x = of_int n / (10 :: rat) ^ k) \<Longrightarrow> \<exists>n. sum_list xs = of_int n / 10 ^ k"
proof (induction xs)
  case Nil
  then show ?case by (intro exI [of _ 0]) simp
next
  case (Cons x xs)
  then obtain m n where "x = of_int m / 10 ^ k" "sum_list xs = of_int n / 10 ^ k" by auto
  then show ?case by (intro exI [of _ "m + n"]) (simp add: add_divide_distrib)
qed

lemma grid_exact: "on_grid k xs \<Longrightarrow> dec_signed (sum_list xs) = sum_list xs"
proof -
  assume g: "on_grid k xs"
  then obtain n where n: "sum_list xs = of_int n / 10 ^ k" using grid_sum [of xs k] by (auto simp: on_grid_def)
  have nn: "0 \<le> sum_list xs" using g by (intro sum_list_nonneg) (auto simp: on_grid_def)
  have p: "(0 :: rat) < 10 ^ k" by simp
  with nn n have "0 \<le> n" by (metis divide_less_0_iff not_less of_int_0_le_iff)
  moreover have "of_int n / 10 ^ k < (10 ^ 28 :: rat) / 10 ^ k" using g n by (simp only: on_grid_def grid_limit_def)
  then have "of_int n < (10 ^ 28 :: rat)" using p divide_less_cancel by (metis not_less_iff_gr_or_eq)
  then have "n < 10 ^ 28" by (metis of_int_less_iff of_int_numeral of_int_power)
  ultimately show ?thesis using nn dec_exact [OF _ _ n] by (simp add: dec_signed_def)
qed

lemma on_grid_prefix: "on_grid k (xs @ ys) \<Longrightarrow> on_grid k xs"
proof -
  assume g: "on_grid k (xs @ ys)"
  then have "0 \<le> sum_list ys" by (intro sum_list_nonneg) (auto simp: on_grid_def)
  then have "sum_list xs \<le> sum_list (xs @ ys)" by simp
  with g show ?thesis unfolding on_grid_def by (auto intro: le_less_trans)
qed

lemma dec_sum_exact: "on_grid k xs \<Longrightarrow> dec_sum xs = sum_list xs"
proof (induction xs rule: rev_induct)
  case Nil
  then show ?case by (simp add: dec_sum_def)
next
  case (snoc x xs)
  then have "dec_sum xs = sum_list xs" using on_grid_prefix by blast
  then have "dec_sum (xs @ [x]) = dec_signed (sum_list (xs @ [x]))" by (simp add: dec_sum_def)
  with grid_exact [OF snoc.prems] show ?case by simp
qed

text \<open>Parts of a grid: the pieces of a split, and what a filter keeps.\<close>

lemma on_grid_sub:
  assumes "on_grid k xs" and "set ys \<subseteq> set xs" and "sum_list ys \<le> sum_list xs"
  shows "on_grid k ys"
  using assms unfolding on_grid_def by (auto intro: le_less_trans)

lemma filter_sum_le: "(\<forall>x\<in>set xs. (0 :: rat) \<le> f x) \<Longrightarrow> sum_list (map f (filter P xs)) \<le> sum_list (map f xs)"
  by (induction xs) (auto intro: add_mono)

lemma on_grid_filter: "on_grid k (map f xs) \<Longrightarrow> on_grid k (map f (filter P xs))"
  by (rule on_grid_sub) (auto simp: on_grid_def intro!: filter_sum_le)

lemma concat_sums: "dec_sums = map sum_list gs \<Longrightarrow> sum_list dec_sums = sum_list (concat gs)" for gs :: "rat list list"
  by (induction gs arbitrary: dec_sums) auto

lemma member_sum_le: "(\<forall>x\<in>set (concat gs). (0 :: rat) \<le> x) \<Longrightarrow> g \<in> set gs \<Longrightarrow> sum_list g \<le> sum_list (concat gs)"
proof (induction gs)
  case (Cons h gs)
  have "0 \<le> sum_list h" "0 \<le> sum_list (concat gs)" using Cons.prems(1) by (auto intro!: sum_list_nonneg)
  with Cons show ?case by fastforce
qed simp

lemma dec_sum_groups:
  assumes "on_grid k (concat gs)"
  shows "dec_sum (map dec_sum gs) = dec_sum (concat gs)"
proof -
  have nn: "\<forall>x\<in>set (concat gs). 0 \<le> x" using assms by (simp add: on_grid_def)
  have "dec_sum g = sum_list g" if "g \<in> set gs" for g
    by (rule dec_sum_exact [of k], rule on_grid_sub [OF assms]) (use that member_sum_le [OF nn that] in auto)
  then have s: "map dec_sum gs = map sum_list gs" by (rule map_cong [OF refl])
  have "\<forall>x\<in>set (map sum_list gs). 0 \<le> x" using nn by (auto intro!: sum_list_nonneg)
  moreover have "\<forall>x\<in>set (map sum_list gs). \<exists>n. x = of_int n / 10 ^ k"
    using assms by (auto simp: on_grid_def intro!: grid_sum)
  moreover have c: "sum_list (map sum_list gs) = sum_list (concat gs)" by (rule concat_sums) simp
  ultimately have "on_grid k (map sum_list gs)" using assms by (simp add: on_grid_def)
  then have "dec_sum (map sum_list gs) = sum_list (map sum_list gs)" by (rule dec_sum_exact)
  with dec_sum_exact [OF assms] c show ?thesis unfolding s by simp
qed

text \<open>The trades of a bar as rows of price, size and side.\<close>

type_synonym bar_row = "rat \<times> rat \<times> string"

definition bar_of :: "fmath \<Rightarrow> bar_row list \<Rightarrow> bar res" where
  "bar_of fm g = bar_from_trades fm (map fst g) (map (\<lambda>r. fst (snd r)) g) (map (\<lambda>r. snd (snd r)) g)"

definition row_size :: "bar_row \<Rightarrow> rat" where "row_size r = fst (snd r)"

definition row_notional :: "bar_row \<Rightarrow> rat" where "row_notional r = dec_signed (fst r * fst (snd r))"

definition sided :: "string \<Rightarrow> bar_row list \<Rightarrow> bar_row list" where
  "sided sd g = filter (\<lambda>r. snd (snd r) = sd) g"

lemma bar_of_fields:
  assumes "bar_of fm g = Inr b"
  shows "g \<noteq> []" and "br_volume b = dec_sum (map row_size g)" and "br_notional b = dec_sum (map row_notional g)"
    and "br_buy_vol b = dec_sum (map row_size (sided ''BUY'' g))" and "br_sell_vol b = dec_sum (map row_size (sided ''SELL'' g))"
    and "br_high b = Max (set (map fst g))" and "br_low b = Min (set (map fst g))" and "br_trade_count b = int (length g)"
proof -
  have z1: "zip (map fst g) (map (\<lambda>r. fst (snd r)) g) = map (\<lambda>r. (fst r, fst (snd r))) g"
    and z2: "zip (map (\<lambda>r. fst (snd r)) g) (map (\<lambda>r. snd (snd r)) g) = map (\<lambda>r. (fst (snd r), snd (snd r))) g"
    by (induction g) auto
  show "g \<noteq> []" and "br_volume b = dec_sum (map row_size g)" and "br_notional b = dec_sum (map row_notional g)"
    and "br_buy_vol b = dec_sum (map row_size (sided ''BUY'' g))" and "br_sell_vol b = dec_sum (map row_size (sided ''SELL'' g))"
    and "br_high b = Max (set (map fst g))" and "br_low b = Min (set (map fst g))" and "br_trade_count b = int (length g)"
    using assms
    by (auto simp: bar_of_def bar_from_trades_def strict_zip_def res_simps z1 z2 side_volume_def filter_map o_def
        sided_def row_size_def [abs_def] row_notional_def [abs_def] split: if_splits)
qed

text \<open>The squared log return from the first to the last trade.\<close>

definition sq_return :: "fmath \<Rightarrow> bar_row list \<Rightarrow> rat res" where
  "sq_return fm g = rbind (float_div (fl_signed (fst (last g))) (fl_signed (fst (hd g)))) (\<lambda>ratio.
     rbind (fm_log fm ratio) (\<lambda>l. Inr (fm_square fm l)))"

lemma bar_of_return: "bar_of fm g = Inr b \<Longrightarrow> sq_return fm g = Inr (br_sq_log_return b)"
  by (auto simp: bar_of_def bar_from_trades_def strict_zip_def sq_return_def res_simps last_map hd_map split: if_splits)

lemma bars_returns: "rmap (bar_of fm) gs = Inr bars \<Longrightarrow> rmap (sq_return fm) gs = Inr (map br_sq_log_return bars)"
  by (auto simp: rmap_Inr_iff list_all2_conv_all_nth bar_of_return)

lemma Max_groups:
  assumes "gs \<noteq> []" and "\<forall>g\<in>set gs. g \<noteq> []"
  shows "Max (set (map (\<lambda>g. Max (set g)) gs)) = Max (set (concat gs) :: 'a :: linorder set)"
  using assms
proof (induction gs rule: list_nonempty_induct)
  case (cons g gs)
  then have "concat gs \<noteq> []" "g \<noteq> []" by (cases gs; auto)+
  then show ?case using cons by (simp add: Max_Un)
qed simp

lemma Min_groups:
  assumes "gs \<noteq> []" and "\<forall>g\<in>set gs. g \<noteq> []"
  shows "Min (set (map (\<lambda>g. Min (set g)) gs)) = Min (set (concat gs) :: 'a :: linorder set)"
  using assms
proof (induction gs rule: list_nonempty_induct)
  case (cons g gs)
  then have "concat gs \<noteq> []" "g \<noteq> []" by (cases gs; auto)+
  then show ?case using cons by (simp add: Min_Un)
qed simp

lemma groups_sum:
  assumes "list_all2 (\<lambda>g b. F b = dec_sum (map h (part g))) gs bars" and "on_grid k (map h (concat (map part gs)))"
  shows "dec_sum (map F bars) = dec_sum (map h (concat (map part gs)))"
    and "dec_sum [dec_sum (map h (concat (map part gs)))] = dec_sum (map h (concat (map part gs)))"
proof -
  have "map F bars = map dec_sum (map (\<lambda>g. map h (part g)) gs)"
    using assms(1) by (induction rule: list_all2_induct) auto
  moreover have "concat (map (\<lambda>g. map h (part g)) gs) = map h (concat (map part gs))"
    by (simp add: map_concat o_def)
  ultimately show "dec_sum (map F bars) = dec_sum (map h (concat (map part gs)))"
    using dec_sum_groups [of k "map (\<lambda>g. map h (part g)) gs"] assms(2) by simp
  show "dec_sum [dec_sum (map h (concat (map part gs)))] = dec_sum (map h (concat (map part gs)))"
    using grid_exact [OF assms(2)] dec_sum_exact [OF assms(2)] by (simp add: dec_sum_def)
qed

lemma sided_concat: "concat (map (sided sd) gs) = sided sd (concat gs)"
  by (simp add: sided_def [abs_def] filter_concat)

subsection \<open>Properties\<close>

text \<open>
  Property C14. The decomposition composes: when no sum needs more than 28 digits, rolling
  up the bars of any grouping of trades gives the volume-weighted price, extremes, flow imbalance,
  volume and count of the single bar over all of them, and where one of them is refused for zero
  volume the other is too. The realized volatility is not invariant and not meant to be: of it the
  component composes, that is, the rollup has the root of the sum of the groups' squared returns,
  the single bar that of the one return from its first trade to its last.
\<close>

theorem rollup_composes:
  assumes "rmap (bar_of fm) gs = Inr bars" and "bar_of fm (concat gs) = Inr whole"
    and "on_grid k (map row_size (concat gs))" and "on_grid j (map row_notional (concat gs))"
  shows "case (rollup fm bars, rollup fm [whole]) of
      (Inr m, Inr w) \<Rightarrow> me_vwap m = me_vwap w \<and> me_high m = me_high w \<and> me_low m = me_low w \<and>
        me_flow_imbalance m = me_flow_imbalance w \<and> me_volume m = me_volume w \<and> me_trade_count m = me_trade_count w \<and>
        (\<exists>rs r. rmap (sq_return fm) gs = Inr rs \<and> me_realized_vol m = fm_sqrt fm (float_sum rs) \<and>
          sq_return fm (concat gs) = Inr r \<and> me_realized_vol w = fm_sqrt fm (float_sum [r]))
    | (Inl e, Inl e') \<Rightarrow> e = e'
    | _ \<Rightarrow> False"
proof -
  have all: "list_all2 (\<lambda>g b. bar_of fm g = Inr b) gs bars" using assms(1) by (simp add: rmap_Inr_iff)
  note w = bar_of_fields [OF assms(2)]
  have ne: "gs \<noteq> []" "bars \<noteq> []" using w(1) all by auto
  have gne: "\<forall>g\<in>set gs. g \<noteq> []"
    using assms(1) rmap_Inr_exists [of "bar_of fm" gs] bar_of_fields(1) by blast
  have part: "on_grid k (map row_size (sided sd (concat gs)))" for sd
    unfolding sided_def by (rule on_grid_filter) (rule assms(3))
  have "list_all2 (\<lambda>g b. br_volume b = dec_sum (map row_size (id g))) gs bars"
    using all by (rule list_all2_mono) (simp add: bar_of_fields)
  from groups_sum [OF this, of k] assms(3)
  have vol: "dec_sum (map br_volume bars) = br_volume whole" "dec_sum [br_volume whole] = br_volume whole" by (simp_all add: w)
  have "list_all2 (\<lambda>g b. br_notional b = dec_sum (map row_notional (id g))) gs bars"
    using all by (rule list_all2_mono) (simp add: bar_of_fields)
  from groups_sum [OF this, of j] assms(4)
  have note1: "dec_sum (map br_notional bars) = br_notional whole" "dec_sum [br_notional whole] = br_notional whole" by (simp_all add: w)
  have "list_all2 (\<lambda>g b. br_buy_vol b = dec_sum (map row_size (sided ''BUY'' g))) gs bars"
    using all by (rule list_all2_mono) (simp add: bar_of_fields)
  from groups_sum [OF this, of k] part [of "''BUY''"]
  have buy: "dec_sum (map br_buy_vol bars) = br_buy_vol whole" "dec_sum [br_buy_vol whole] = br_buy_vol whole"
    by (simp_all add: w sided_concat)
  have "list_all2 (\<lambda>g b. br_sell_vol b = dec_sum (map row_size (sided ''SELL'' g))) gs bars"
    using all by (rule list_all2_mono) (simp add: bar_of_fields)
  from groups_sum [OF this, of k] part [of "''SELL''"]
  have sell: "dec_sum (map br_sell_vol bars) = br_sell_vol whole" "dec_sum [br_sell_vol whole] = br_sell_vol whole"
    by (simp_all add: w sided_concat)
  have "map br_high bars = map (\<lambda>g. Max (set g)) (map (map fst) gs) \<and> map br_low bars = map (\<lambda>g. Min (set g)) (map (map fst) gs) \<and>
      sum_list (map br_trade_count bars) = int (length (concat gs))"
    using all by (induction rule: list_all2_induct) (auto simp: bar_of_fields)
  moreover have "Max (set (map (\<lambda>g. Max (set g)) (map (map fst) gs))) = Max (set (concat (map (map fst) gs)))"
    "Min (set (map (\<lambda>g. Min (set g)) (map (map fst) gs))) = Min (set (concat (map (map fst) gs)))"
    using ne(1) gne by (intro Max_groups Min_groups; simp)+
  ultimately have rest: "Max (set (map br_high bars)) = br_high whole" "Min (set (map br_low bars)) = br_low whole"
    "sum_list (map br_trade_count bars) = br_trade_count whole"
    by (simp_all only: w map_concat)
  show ?thesis
    using ne(2) vol note1 buy sell rest bars_returns [OF assms(1)] bar_of_return [OF assms(2)]
    by (simp add: rollup_def Let_def del: set_map)
qed

lemma push_drop: "push n (drop (length ts - n) ts) x = drop (length (ts @ [x]) - n) (ts @ [x])"
  by (cases "n \<le> length ts") (auto simp: push_def Let_def Suc_diff_le)

text \<open>A logarithm that tells no move from a move.\<close>

definition move_math :: fmath where
  "move_math = \<lparr> fm_log = (\<lambda>x. Inr (if x = 1 then 0 else 1)), fm_square = (\<lambda>x. x * x), fm_sqrt = id \<rparr>"

lemma move_bar: "g \<noteq> [] \<Longrightarrow> fl_signed (fst (hd g)) \<noteq> 0 \<Longrightarrow> \<exists>b. bar_of move_math g = Inr b"
  by (cases g) (simp_all add: bar_of_def bar_from_trades_def strict_zip_def float_div_def move_math_def)

lemma small_dec: "dec_signed 1 = 1" "dec_signed 2 = 2" "dec_signed 4 = 4" "dec_signed 0 = 0"
  using dec_exact [of 1 1 0] dec_exact [of 2 2 0] dec_exact [of 4 4 0] by (simp_all add: dec_signed_def dec.simps [of 0])

lemma small_fl: "fl_signed 0 = 0" "fl_signed 1 = 1" "fl_signed 2 = 2" "fl_signed 4 = 4"
  by (simp_all add: fl_signed_def fl.simps round_half_even_def)

theorem rollup_composes_witness:
  "\<exists>bars whole m w. rmap (bar_of move_math) [[(2, 1, ''BUY'')], [(4, 1, ''SELL'')]] = Inr bars \<and>
     bar_of move_math [(2, 1, ''BUY''), (4, 1, ''SELL'')] = Inr whole \<and>
     rollup move_math bars = Inr m \<and> rollup move_math [whole] = Inr w \<and> me_vwap m = me_vwap w \<and>
     me_realized_vol m = 0 \<and> me_realized_vol w = 1"
proof -
  let ?gs = "[[(2, 1, ''BUY'')], [(4, 1, ''SELL'')]] :: bar_row list list"
  have "\<forall>g\<in>set ?gs. \<exists>b. bar_of move_math g = Inr b" using move_bar small_fl by simp
  then obtain bars where b: "rmap (bar_of move_math) ?gs = Inr bars" using rmap_Inr_exists by blast
  obtain whole where w: "bar_of move_math (concat ?gs) = Inr whole" using move_bar [of "concat ?gs"] small_fl by auto
  have "\<exists>n. (1 :: rat) = of_int n" "\<exists>n. (2 :: rat) = of_int n" "\<exists>n. (4 :: rat) = of_int n"
    by (rule exI [of _ 1], simp, rule exI [of _ 2], simp, rule exI [of _ 4], simp)
  then have g: "on_grid 0 (map row_size (concat ?gs))" "on_grid 0 (map row_notional (concat ?gs))"
    by (simp_all add: on_grid_def row_size_def row_notional_def grid_limit_def small_dec)
  have "br_volume whole = 2" using bar_of_fields(2) [OF w] dec_sum_exact [OF g(1)] by (simp add: row_size_def)
  then have "\<exists>x. rollup move_math [whole] = Inr x"
    by (simp add: rollup_def dec_sum_def small_dec Let_def)
  moreover have "rmap (sq_return move_math) ?gs = Inr [0, 0]" "sq_return move_math (concat ?gs) = Inr 1"
    by (simp_all add: sq_return_def float_div_def small_fl move_math_def)
  moreover have "fm_sqrt move_math (float_sum [0, 0]) = 0" "fm_sqrt move_math (float_sum [1]) = 1"
    by (simp_all add: move_math_def float_sum_def small_fl)
  ultimately show ?thesis using rollup_composes [OF b w g] b w
    by (auto split: sum.splits)
qed

text \<open>The trades among what the polls answered.\<close>

definition trade_at :: "(message \<Rightarrow> (string \<times> rat \<times> rat) res) \<Rightarrow> message option \<Rightarrow> (string \<times> rat \<times> rat) option" where
  "trade_at rd a = (case a of None \<Rightarrow> None | Some m \<Rightarrow>
     if g_error m \<noteq> None then None else (case rd m of Inr rec \<Rightarrow> Some rec | Inl e \<Rightarrow> None))"

definition trades_read :: "(message \<Rightarrow> (string \<times> rat \<times> rat) res) \<Rightarrow> message option list \<Rightarrow> (string \<times> rat \<times> rat) list" where
  "trades_read rd ms = List.map_filter (trade_at rd) ms"

definition window_of :: "nat \<Rightarrow> (string \<times> rat \<times> rat) list \<Rightarrow> string \<Rightarrow> (rat \<times> rat) list option" where
  "window_of n rs i = (let ts = map snd (filter (\<lambda>r. fst r = i) rs)
     in if ts = [] then None else Some (drop (length ts - n) ts))"

lemma push_window:
  assumes "map_of d = window_of n rs"
  shows "map_of (push_trade n d r) = window_of n (rs @ [r])"
proof -
  obtain i p s where r: "r = (i, p, s)" by (cases r)
  let ?ts = "map snd (filter (\<lambda>r. fst r = i) rs)"
  have "push n (case map_of d i of Some w \<Rightarrow> w | None \<Rightarrow> []) (p, s) = drop (length (?ts @ [(p, s)]) - n) (?ts @ [(p, s)])"
    using push_drop [of n ?ts "(p, s)"] by (cases "?ts = []") (auto simp: assms window_of_def Let_def push_def split: if_splits)
  then show ?thesis by (auto simp: fun_eq_iff r push_trade_def window_of_def Let_def assms)
qed

lemma trades_read_simps:
  "trades_read rd [] = []"
  "trades_read rd (None # ms) = trades_read rd ms"
  "g_error m \<noteq> None \<Longrightarrow> trades_read rd (Some m # ms) = trades_read rd ms"
  "g_error m = None \<Longrightarrow> rd m = Inr rec \<Longrightarrow> trades_read rd (Some m # ms) = rec # trades_read rd ms"
  by (simp_all add: trades_read_def trade_at_def List.map_filter_simps)

lemma consume_windows:
  "map_of d = window_of n rs \<Longrightarrow> consume rd n every seen d ms = (out, final, None) \<Longrightarrow>
   map_of final = window_of n (rs @ trades_read rd ms)"
proof (induction rd n every seen d ms arbitrary: rs out rule: consume.induct)
  case (1 rd n every seen d)
  then show ?case by (simp add: trades_read_simps)
next
  case (2 rd n every seen d ms)
  then show ?case by (simp add: trades_read_simps)
next
  case (3 rd n every seen d m ms)
  show ?case
  proof (cases "g_error m \<noteq> None")
    case True
    from "3.prems"(2) True have "consume rd n every seen d ms = (out, final, None)" by simp
    from "3.IH"(1) [OF True "3.prems"(1) this] show ?thesis by (simp only: trades_read_simps(3) [OF True])
  next
    case ok: False
    then obtain rec where rec: "rd m = Inr rec" "every \<noteq> 0"
      using "3.prems"(2) by (cases "rd m") (auto simp: Let_def split: if_splits)
    let ?w = "push_trade n d rec"
    obtain out' where run: "consume rd n every (Suc seen) ?w ms = (out', final, None)"
      using "3.prems"(2) ok rec by (auto simp: Let_def split: prod.splits if_splits)
    have "map_of final = window_of n ((rs @ [rec]) @ trades_read rd ms)"
      by (rule "3.IH"(2) [OF ok rec(1) refl refl rec(2) push_window [OF "3.prems"(1)] run])
    then show ?thesis using ok rec by (simp add: trades_read_simps(4))
  qed
qed

text \<open>
  The rolling window of an instrument is its last trades: when the loop is
  interrupted without an exception, the window of each instrument that traded holds its last
  trades, as many as the window is long, in order, whatever the others did and however polls came
  back empty or with errors, and nothing is held for one that did not trade.
\<close>

theorem windows_hold_last_trades:
  assumes "consume (read_trade read_avro decimal) n every 0 [] ms = (out, windows, None)"
  shows "map_of windows ident =
    (let ts = map snd (filter (\<lambda>r. fst r = ident) (trades_read (read_trade read_avro decimal) ms))
     in if ts = [] then None else Some (drop (length ts - n) ts))"
  using consume_windows [where rs = "[]", OF _ assms] by (simp add: window_of_def [abs_def])

text \<open>A reader whose payload is the price, and the trades it gives.\<close>

definition priced :: "avro_reader" where
  "priced sch data = Inr (Record [(''instrument_id'', AStr ''BTC-USDT''), (''price'', AStr data), (''size'', AStr ''1'')])"

definition priced_at :: "string \<Rightarrow> message option" where
  "priced_at data = Some \<lparr> g_error = None, g_value = data, g_partition = 0, g_offset = 0, g_timestamp_ms = 0, g_key = None \<rparr>"

definition small_decimal :: "string \<Rightarrow> rat res" where
  "small_decimal s = (if s = ''2'' then Inr 2 else Inr 1)"

theorem windows_hold_last_trades_witness:
  "map_of (fst (snd (consume (read_trade priced small_decimal) 1 20 0 [] [priced_at ''1'', None, priced_at ''2'']))) ''BTC-USDT'' = Some [(2, 1)]"
proof -
  let ?rd = "read_trade priced small_decimal" and ?ms = "[priced_at ''1'', None, priced_at ''2'']"
  have r: "?rd m = Inr (''BTC-USDT'', if g_value m = ''2'' then 2 else 1, 1)" for m
    by (simp add: read_trade_def codec_decode_def priced_def text_item_def dict_item_def small_decimal_def)
  obtain out final where c: "consume ?rd 1 20 0 [] ?ms = (out, final, None)"
    by (simp add: priced_at_def r Let_def)
  have t: "trades_read ?rd ?ms = [(''BTC-USDT'', 1, 1), (''BTC-USDT'', 2, 1)]"
    by (simp add: trades_read_def trade_at_def priced_at_def r List.map_filter_simps)
  show ?thesis using windows_hold_last_trades [OF c, of "''BTC-USDT''"] by (simp only: c t fst_conv snd_conv) simp
qed

end
