(* ===== verification/Html.thy ===== *)
theory Html
  imports Prelude
begin

text \<open>
  HTML text for the dashboard (awsnative/dashboard): html.escape of the standard library, a
  reader of documents as an automaton that knows the elements and attributes the dashboard
  uses, and a reader of tables. In the dashboard theories a str is the list of its UTF-8 bytes.
\<close>

subsection \<open>html.escape\<close>

definition esc_chr :: "char \<Rightarrow> string" where
  "esc_chr ch = (if ch = CHR ''&'' then ''&amp;'' else if ch = CHR ''<'' then ''&lt;'' else if ch = CHR ''>'' then ''&gt;''
     else if ch = CHR ''\"'' then ''&quot;'' else if (of_char ch :: nat) = 39 then ''&#x27;'' else [ch])"

definition escape :: "string \<Rightarrow> string" where
  "escape s = concat (map esc_chr s)"

text \<open>The reader of the five entities escape writes.\<close>

function unescape :: "string \<Rightarrow> string" where
  "unescape [] = []"
| "unescape (c # cs) =
     (if c \<noteq> CHR ''&'' then c # unescape cs
      else if take 4 cs = ''amp;'' then CHR ''&'' # unescape (drop 4 cs)
      else if take 3 cs = ''lt;'' then CHR ''<'' # unescape (drop 3 cs)
      else if take 3 cs = ''gt;'' then CHR ''>'' # unescape (drop 3 cs)
      else if take 5 cs = ''quot;'' then CHR ''\"'' # unescape (drop 5 cs)
      else if take 5 cs = ''#x27;'' then char_of (39 :: nat) # unescape (drop 5 cs)
      else c # unescape cs)"
  by pat_completeness auto
termination
  by (relation "measure length") auto

lemma escape_Nil [simp]: "escape [] = []"
  by (simp add: escape_def)

lemma escape_Cons: "escape (c # cs) = esc_chr c @ escape cs"
  by (simp add: escape_def)

lemma unescape_escape [simp]: "unescape (escape s) = s"
proof (induction s)
  case (Cons c cs)
  have "(of_char c :: nat) = 39 \<Longrightarrow> c = char_of (39 :: nat)" by (metis char_of_char)
  with Cons show ?case by (auto simp: escape_Cons esc_chr_def)
qed simp

subsection \<open>Documents\<close>

text \<open>The elements and attributes of the dashboard: none of them loads or runs anything.\<close>

definition elements :: "string list" where
  "elements = [''!doctype'', ''html'', ''/html'', ''head'', ''/head'', ''meta'', ''title'', ''/title'', ''style'', ''/style'',
     ''body'', ''/body'', ''div'', ''/div'', ''header'', ''/header'', ''h1'', ''/h1'', ''h2'', ''/h2'', ''span'', ''/span'',
     ''p'', ''/p'', ''footer'', ''/footer'', ''figure'', ''/figure'', ''figcaption'', ''/figcaption'', ''i'', ''/i'',
     ''strong'', ''/strong'', ''svg'', ''/svg'', ''g'', ''/g'', ''line'', ''path'', ''circle'', ''rect'', ''text'', ''/text'',
     ''details'', ''/details'', ''summary'', ''/summary'', ''table'', ''/table'', ''thead'', ''/thead'',
     ''tbody'', ''/tbody'', ''tr'', ''/tr'', ''th'', ''/th'', ''td'', ''/td'']"

definition attributes :: "string list" where
  "attributes = [''html'', ''lang'', ''charset'', ''name'', ''content'', ''class'', ''style'', ''scope'', ''data-status'',
     ''viewBox'', ''role'', ''aria-label'', ''x'', ''y'', ''x1'', ''y1'', ''x2'', ''y2'', ''cx'', ''cy'', ''r'', ''rx'',
     ''width'', ''height'', ''d'', ''fill'', ''stroke'', ''stroke-width'', ''stroke-linejoin'', ''stroke-linecap'', ''text-anchor'']"

text \<open>
  Where a reader is: in text, in the name of an element, between attributes, in the name of an
  attribute, after its equals sign, in its quoted text. A character that does not fit, or a name
  outside the two lists, is refused.
\<close>

datatype place = Outside | Name string | Gap | Attr string | Equals | Quoted

definition blank :: "char \<Rightarrow> bool" where
  "blank c \<longleftrightarrow> c = CHR '' '' \<or> (of_char c :: nat) = 10"

fun html_step :: "place \<Rightarrow> char \<Rightarrow> place option" where
  "html_step Outside c = (if c = CHR ''<'' then Some (Name []) else if c = CHR ''>'' then None else Some Outside)"
| "html_step (Name n) c =
     (if c = CHR ''<'' \<or> c = CHR ''\"'' then None
      else if c = CHR ''>'' then (if n \<in> set elements then Some Outside else None)
      else if blank c then (if n \<in> set elements then Some Gap else None)
      else Some (Name (n @ [c])))"
| "html_step Gap c =
     (if c = CHR ''<'' \<or> c = CHR ''\"'' \<or> c = CHR ''='' then None
      else if c = CHR ''>'' then Some Outside
      else if blank c \<or> c = CHR ''/'' then Some Gap
      else Some (Attr [c]))"
| "html_step (Attr a) c =
     (if c = CHR ''<'' \<or> c = CHR ''\"'' \<or> blank c then None
      else if c = CHR ''='' then (if a \<in> set attributes then Some Equals else None)
      else if c = CHR ''>'' then (if a \<in> set attributes then Some Outside else None)
      else Some (Attr (a @ [c])))"
| "html_step Equals c = (if c = CHR ''\"'' then Some Quoted else None)"
| "html_step Quoted c = (if c = CHR ''\"'' then Some Gap else if c = CHR ''<'' \<or> c = CHR ''>'' then None else Some Quoted)"

fun html_run :: "place \<Rightarrow> string \<Rightarrow> place option" where
  "html_run p [] = Some p"
| "html_run p (c # cs) = (case html_step p c of None \<Rightarrow> None | Some q \<Rightarrow> html_run q cs)"

text \<open>A document, or a piece of one that stands between elements.\<close>

definition html_ok :: "string \<Rightarrow> bool" where
  "html_ok s \<longleftrightarrow> html_run Outside s = Some Outside"

lemma html_run_append: "html_run p (s @ t) = (case html_run p s of None \<Rightarrow> None | Some q \<Rightarrow> html_run q t)"
  by (induction s arbitrary: p) (auto split: option.splits)

lemma html_ok_append [intro]: "html_ok s \<Longrightarrow> html_ok t \<Longrightarrow> html_ok (s @ t)"
  by (simp add: html_ok_def html_run_append)

lemma html_ok_Nil [simp, intro]: "html_ok []"
  by (simp add: html_ok_def)

lemma html_ok_concat: "(\<And>s. s \<in> set ss \<Longrightarrow> html_ok s) \<Longrightarrow> html_ok (concat ss)"
  by (induction ss) auto

lemma html_ok_join: "html_ok sep \<Longrightarrow> (\<And>s. s \<in> set ss \<Longrightarrow> html_ok s) \<Longrightarrow> html_ok (join sep ss)"
  by (induction sep ss rule: join.induct) auto

text \<open>Text without markup stays where it stands: in text or between quotes.\<close>

definition markup :: "char set" where
  "markup = {CHR ''<'', CHR ''>'', CHR ''\"''}"

definition plain :: "string \<Rightarrow> bool" where
  "plain s \<longleftrightarrow> set s \<inter> markup = {}"

lemma plain_run: "plain s \<Longrightarrow> html_run Outside (s @ t) = html_run Outside t"
  "plain s \<Longrightarrow> html_run Quoted (s @ t) = html_run Quoted t"
  by (induction s) (auto simp: plain_def markup_def)

lemma html_ok_run: "html_ok s \<Longrightarrow> html_run Outside (s @ t) = html_run Outside t"
  by (simp add: html_ok_def html_run_append)

lemma plain_html_ok: "plain s \<Longrightarrow> html_ok s"
  using plain_run(1) [of s "[]"] by (simp add: html_ok_def)

lemma plain_Nil [simp]: "plain []"
  and plain_append [simp]: "plain (s @ t) \<longleftrightarrow> plain s \<and> plain t"
  by (auto simp: plain_def)

lemma plain_Cons [simp]: "plain (c # s) \<longleftrightarrow> c \<notin> markup \<and> plain s"
  by (auto simp: plain_def)

lemma plain_escape [simp]: "plain (escape s)"
  by (induction s) (auto simp: escape_Cons esc_chr_def markup_def)

lemma plain_join: "plain sep \<Longrightarrow> (\<And>s. s \<in> set ss \<Longrightarrow> plain s) \<Longrightarrow> plain (join sep ss)"
  by (induction sep ss rule: join.induct) auto

lemma plain_digits: "(\<And>ch. ch \<in> set s \<Longrightarrow> \<exists>d<10. ch = digit_chr d) \<Longrightarrow> plain s"
  unfolding plain_def markup_def using digit_chr_inj [of _ "CHR ''<''"] digit_chr_inj [of _ "CHR ''>''"] digit_chr_inj [of _ "CHR ''\"''"]
  by fastforce

lemma plain_nat_str [simp]: "plain (nat_str n)"
  by (rule plain_digits) (rule nat_str_digits)

lemma plain_pad [simp]: "plain (pad w n)"
  by (rule plain_digits) (rule pad_digits)

lemma plain_int_str [simp]: "plain (int_str i)"
  by (simp add: int_str_def markup_def)

text \<open>The reader on a literal.\<close>

lemmas html_reading = html_ok_run plain_run elements_def attributes_def blank_def markup_def

end
