(* ===== verification/Formats.thy ===== *)
theory Formats
  imports Floats
begin

text \<open>
  The operators of Python's float and the format specs the dashboard uses. A finite float is the
  rational it stands for, and an operator rounds its exact result (theory Floats); an int operand
  of a mixed operation is small enough to be exact. The sign of a zero is not kept.
\<close>

definition fadd :: "rat \<Rightarrow> rat \<Rightarrow> rat" where "fadd a b = fl_signed (a + b)"

definition fsub :: "rat \<Rightarrow> rat \<Rightarrow> rat" where "fsub a b = fl_signed (a - b)"

definition fmul :: "rat \<Rightarrow> rat \<Rightarrow> rat" where "fmul a b = fl_signed (a * b)"

definition fdiv :: "rat \<Rightarrow> rat \<Rightarrow> rat" where "fdiv a b = fl_signed (a / b)"

subsection \<open>Format specs\<close>

text \<open>A number of 1 / 10 ^ n as digits with n decimals, from its digits before the point on.\<close>

definition with_point :: "(nat \<Rightarrow> string) \<Rightarrow> nat \<Rightarrow> nat \<Rightarrow> string" where
  "with_point whole n m = (if n = 0 then whole m else whole (m div 10 ^ n) @ ''.'' @ pad n (m mod 10 ^ n))"

definition scaled :: "nat \<Rightarrow> rat \<Rightarrow> nat" where
  "scaled n q = nat (round_half_even (\<bar>q\<bar> * 10 ^ n))"

definition minus_sign :: "rat \<Rightarrow> string" where
  "minus_sign q = (if q < 0 then ''-'' else [])"

text \<open>The spec .nf.\<close>

definition fixed :: "nat \<Rightarrow> rat \<Rightarrow> string" where
  "fixed n q = minus_sign q @ with_point nat_str n (scaled n q)"

text \<open>Commas between thousands: the specs ,d and ,.nf.\<close>

fun threes :: "string \<Rightarrow> string" where
  "threes (a # b # c # d # r) = a # b # c # CHR '','' # threes (d # r)"
| "threes r = r"

definition comma_nat :: "nat \<Rightarrow> string" where
  "comma_nat n = rev (threes (rev (nat_str n)))"

definition comma_int :: "int \<Rightarrow> string" where
  "comma_int i = (if i < 0 then ''-'' else []) @ comma_nat (nat \<bar>i\<bar>)"

definition comma_fixed :: "nat \<Rightarrow> rat \<Rightarrow> string" where
  "comma_fixed n q = minus_sign q @ with_point comma_nat n (scaled n q)"

text \<open>s.rstrip("0").rstrip(".").\<close>

definition strip_zeros :: "string \<Rightarrow> string" where
  "strip_zeros s = rstrip (\<lambda>c. c = CHR ''.'') (rstrip (\<lambda>c. c = CHR ''0'') s)"

text \<open>The spec g: six significant digits. The exponent is the one of the leading digit.\<close>

definition exponent10 :: "rat \<Rightarrow> int" where
  "exponent10 q = (if 1 \<le> q then int (length (nat_str (nat \<lfloor>q\<rfloor>))) - 1
     else - int (length (nat_str (nat (\<lceil>1 / q\<rceil> - 1)))))"

definition pow10 :: "int \<Rightarrow> rat" where
  "pow10 e = (if 0 \<le> e then 10 ^ nat e else 1 / 10 ^ nat (- e))"

definition general :: "rat \<Rightarrow> string" where
  "general q = (if q = 0 then ''0'' else
     (let e0 = exponent10 \<bar>q\<bar>; m0 = nat (round_half_even (\<bar>q\<bar> * pow10 (5 - e0)));
          (m, e) = (if m0 = 10 ^ 6 then (10 ^ 5, e0 + 1) else (m0, e0));
          cut = (\<lambda>s. if CHR ''.'' \<in> set s then strip_zeros s else s)
      in minus_sign q @
        (if - 4 \<le> e \<and> e < 6 then cut (with_point nat_str (nat (5 - e)) m)
         else cut (with_point nat_str 5 m) @ ''e'' @ (if e < 0 then ''-'' else ''+'') @ pad 2 (nat \<bar>e\<bar>))))"

subsection \<open>How far an operator is from the exact result\<close>

lemma fl_err: "0 \<le> q \<Longrightarrow> \<bar>fl q - q\<bar> \<le> q / 2 ^ 53"
proof (induction q rule: fl.induct)
  case (1 q)
  consider "q = 0" | "0 < q" "q < 2 ^ 52" | "2 ^ 53 \<le> q" | "2 ^ 52 \<le> q" "q < 2 ^ 53" using "1.prems" by linarith
  then show ?case
  proof cases
    case 1
    then show ?thesis by (simp add: fl.simps)
  next
    case 2
    have "\<bar>fl (2 * q) - 2 * q\<bar> \<le> 2 * q / 2 ^ 53" by (rule "1.IH"(1)) (use 2 in auto)
    moreover have "fl q = fl (2 * q) / 2" using 2 by (subst fl.simps) simp
    ultimately show ?thesis unfolding abs_le_iff by linarith
  next
    case 3
    then have pos: "0 < q" by (rule less_le_trans [rotated]) simp
    have "\<bar>fl (q / 2) - q / 2\<bar> \<le> q / 2 / 2 ^ 53" by (rule "1.IH"(2)) (use 3 pos in auto)
    moreover have "fl q = 2 * fl (q / 2)" using 3 pos by (subst fl.simps) simp
    ultimately show ?thesis unfolding abs_le_iff by linarith
  next
    case 4
    have pos: "0 < q" by (rule less_le_trans [OF _ 4(1)]) simp
    have "fl q = of_int (round_half_even q)" using 4 pos by (subst fl.simps) simp
    moreover have "1 / 2 \<le> q / 2 ^ 53" using 4 by simp
    ultimately show ?thesis using round_half_even_err [of q] by simp
  qed
qed

lemma fl_signed_err: "\<bar>fl_signed q - q\<bar> \<le> \<bar>q\<bar> / 2 ^ 53"
proof (cases "q < 0")
  case True
  then have "\<bar>fl (- q) - - q\<bar> \<le> - q / 2 ^ 53" by (intro fl_err) simp
  with True show ?thesis unfolding fl_signed_def abs_le_iff by simp
next
  case False
  then show ?thesis using fl_err [of q] by (simp add: fl_signed_def)
qed

lemma fl_signed_minus: "fl_signed (- q) = - fl_signed q"
  by (auto simp: fl_signed_def fl.simps [of 0])

lemma fl_signed_nonneg: "0 \<le> q \<Longrightarrow> 0 \<le> fl_signed q"
  by (simp add: fl_signed_def fl_nonneg)

lemma fl_signed_le: "0 \<le> q \<Longrightarrow> fl_signed q \<le> q * (1 + 1 / 2 ^ 53)"
  using fl_signed_err [of q] unfolding abs_le_iff by (simp add: algebra_simps)

lemma fl_signed_ge: "0 \<le> q \<Longrightarrow> q * (1 - 1 / 2 ^ 53) \<le> fl_signed q"
  using fl_signed_err [of q] unfolding abs_le_iff by (simp add: algebra_simps)

lemma fl_signed_0 [simp]: "fl_signed 0 = 0"
  by (simp add: fl_signed_def fl.simps [of 0])

lemma round_half_even_bounds:
  "of_int n - 1 / 2 < q \<Longrightarrow> n \<le> round_half_even q"
  "q < of_int n + 1 / 2 \<Longrightarrow> round_half_even q \<le> n"
proof -
  have e: "\<bar>of_int (round_half_even q) - q\<bar> \<le> 1 / 2" by (rule round_half_even_err)
  show "n \<le> round_half_even q" if "of_int n - 1 / 2 < q"
  proof -
    have "of_int (n - 1) < (of_int (round_half_even q) :: rat)" using that e unfolding abs_le_iff by simp
    then show ?thesis by (simp only: of_int_less_iff)
  qed
  show "round_half_even q \<le> n" if "q < of_int n + 1 / 2"
  proof -
    have "(of_int (round_half_even q) :: rat) < of_int (n + 1)" using that e unfolding abs_le_iff by simp
    then show ?thesis by (simp only: of_int_less_iff)
  qed
qed

end
