(* ===== verification/Charts.thy ===== *)
theory Charts
  imports Html Formats
begin

text \<open>
  awsnative/dashboard/charts.py: every chart builder, from series of numbers to the text of its
  HTML and SVG. A chart is the f-string of the source, piece by piece.
\<close>

definition middot :: string where "middot = [CHR 0xC2, CHR 0xB7]"

definition emdash :: string where "emdash = [CHR 0xE2, CHR 0x80, CHR 0x94]"

definition section_sign :: string where "section_sign = [CHR 0xC2, CHR 0xA7]"

definition series_light :: "string list" where
  "series_light = [''#2a78d6'', ''#eb6834'', ''#1baf7a'']"

definition series_dark :: "string list" where
  "series_dark = [''#3987e5'', ''#d95926'', ''#199e70'']"

definition status_style :: "(string, string \<times> string) dict" where
  "status_style = [(''good'', ''#0ca30c'', ''OK''), (''warning'', ''#fab219'', ''WARN''),
     (''serious'', ''#ec835a'', ''STALE''), (''critical'', ''#d03b3b'', ''FAIL'')]"

record point =
  pt_x :: rat
  pt_y :: rat
  pt_label :: string

record chart_series =
  sr_name :: string
  sr_points :: "point list"
  sr_slot :: nat

definition colour_var :: "chart_series \<Rightarrow> string" where
  "colour_var s = ''var(--series-'' @ nat_str (sr_slot s + 1) @ '')''"

record box =
  bx_width :: int
  bx_height :: int
  bx_left :: int
  bx_right :: int
  bx_top :: int
  bx_bottom :: int

definition default_box :: box where
  "default_box = \<lparr> bx_width = 720, bx_height = 200, bx_left = 64, bx_right = 16, bx_top = 16, bx_bottom = 32 \<rparr>"

definition plot_width :: "box \<Rightarrow> int" where
  "plot_width b = bx_width b - bx_left b - bx_right b"

definition plot_height :: "box \<Rightarrow> int" where
  "plot_height b = bx_height b - bx_top b - bx_bottom b"

definition scale :: "rat \<Rightarrow> rat \<Rightarrow> rat \<Rightarrow> rat \<Rightarrow> rat \<Rightarrow> rat" where
  "scale x lo hi out_lo out_hi =
     (if hi = lo then fdiv (fadd out_lo out_hi) 2
      else fadd out_lo (fdiv (fmul (fsub x lo) (fsub out_hi out_lo)) (fsub hi lo)))"

text \<open>_nice, decimals None or a number.\<close>

definition nice :: "rat \<Rightarrow> nat option \<Rightarrow> string" where
  "nice x decimals =
     (let magnitude = \<bar>x\<bar>; least = (\<lambda>n. case decimals of None \<Rightarrow> n | Some d \<Rightarrow> max d n)
      in if 1000000000 \<le> magnitude then fixed (least 1) (fdiv x 1000000000) @ ''B''
      else if 1000000 \<le> magnitude then fixed (least 1) (fdiv x 1000000) @ ''M''
      else if 1000 \<le> magnitude then fixed (least 1) (fdiv x 1000) @ ''k''
      else if magnitude = 0 then ''0''
      else if 1 \<le> magnitude then strip_zeros (comma_fixed (least 2) x)
      else strip_zeros (fixed (case decimals of None \<Rightarrow> 6 | Some d \<Rightarrow> d) x))"

text \<open>axis_labels: the first number of decimals, up to eight, at which the labels differ.\<close>

definition tick_values :: "rat \<Rightarrow> rat \<Rightarrow> rat list" where
  "tick_values lo hi = map (\<lambda>i. fadd lo (fdiv (fmul (fsub hi lo) (of_nat i)) 4)) [0..<5]"

definition axis_labels :: "rat \<Rightarrow> rat \<Rightarrow> string list" where
  "axis_labels lo hi =
     (let ticks = tick_values lo hi
      in case find (\<lambda>d. distinct (map (\<lambda>v. nice v (Some d)) ticks)) [0..<9] of
        Some d \<Rightarrow> map (\<lambda>v. nice v (Some d)) ticks
      | None \<Rightarrow> map general ticks)"

definition grid_line :: "box \<Rightarrow> rat \<Rightarrow> string \<Rightarrow> string" where
  "grid_line b y lab =
     ''<line class=\"viz-grid\" x1=\"'' @ int_str (bx_left b) @ ''\" y1=\"'' @ fixed 1 y @ ''\" '' @
     ''x2=\"'' @ int_str (bx_width b - bx_right b) @ ''\" y2=\"'' @ fixed 1 y @ ''\"/>'' @
     ''<text class=\"viz-tick\" x=\"'' @ int_str (bx_left b - 8) @ ''\" y=\"'' @ fixed 1 (fadd y 4) @ ''\" '' @
     ''text-anchor=\"end\">'' @ escape lab @ ''</text>''"

definition grid :: "box \<Rightarrow> rat \<Rightarrow> rat \<Rightarrow> (rat \<Rightarrow> rat) \<Rightarrow> string" where
  "grid b lo hi py = concat (map2 (\<lambda>v lab. grid_line b (py v) lab) (tick_values lo hi) (axis_labels lo hi))"

definition empty_panel :: "string \<Rightarrow> string \<Rightarrow> box \<Rightarrow> string" where
  "empty_panel title reason b =
     ''<figure class=\"viz-panel viz-empty\">\<newline>  <figcaption><span class=\"viz-title\">'' @ escape title @ ''</span></figcaption>\<newline>  <div class=\"viz-nodata\" style=\"height:'' @ int_str (bx_height b div 2) @ ''px\">'' @ escape reason @ ''</div>\<newline></figure>''"

text \<open>What the three charts share: the figure around the drawing.\<close>

definition panel :: "string \<Rightarrow> string \<Rightarrow> string \<Rightarrow> box \<Rightarrow> string \<Rightarrow> string" where
  "panel title subtitle legend b drawing =
     ''<figure class=\"viz-panel\">\<newline>  <figcaption><span class=\"viz-title\">'' @ escape title @ ''</span>\<newline>    <span class=\"viz-sub\">'' @ escape subtitle @ ''</span></figcaption>\<newline>'' @ legend @ ''  <svg viewBox=\"0 0 '' @ int_str (bx_width b) @ '' '' @ int_str (bx_height b) @ ''\" role=\"img\"\<newline>       aria-label=\"'' @ escape title @ ''. '' @ escape subtitle @ ''\">\<newline>    '' @ drawing @ ''\<newline>  </svg>\<newline></figure>''"

subsection \<open>line_panel\<close>

text \<open>The range of the y axis, and px and py of the source.\<close>

definition y_range :: "bool \<Rightarrow> rat list \<Rightarrow> rat \<times> rat" where
  "y_range zero_baseline ys =
     (let lo = Min (set ys); hi = Max (set ys);
          (lo, hi) = (if zero_baseline then (min lo 0, max hi 0) else (lo, hi))
      in if lo = hi then (fsub lo 1, fadd hi 1) else (lo, hi))"

definition line_x :: "box \<Rightarrow> rat list \<Rightarrow> rat \<Rightarrow> rat" where
  "line_x b xs x = scale x (Min (set xs)) (Max (set xs)) (of_int (bx_left b)) (of_int (bx_width b - bx_right b))"

definition line_y :: "box \<Rightarrow> rat \<times> rat \<Rightarrow> rat \<Rightarrow> rat" where
  "line_y b lohi y = scale y (fst lohi) (snd lohi) (of_int (bx_height b - bx_bottom b)) (of_int (bx_top b))"

definition path_step :: "(rat \<Rightarrow> rat) \<Rightarrow> (rat \<Rightarrow> rat) \<Rightarrow> nat \<Rightarrow> point \<Rightarrow> string" where
  "path_step px py i p = (if i = 0 then ''M'' else ''L'') @ fixed 1 (px (pt_x p)) @ '','' @ fixed 1 (py (pt_y p))"

definition hover_mark :: "(rat \<Rightarrow> rat) \<Rightarrow> (rat \<Rightarrow> rat) \<Rightarrow> point \<Rightarrow> string" where
  "hover_mark px py p =
     ''<g class=\"viz-hit\"><circle cx=\"'' @ fixed 1 (px (pt_x p)) @ ''\" cy=\"'' @ fixed 1 (py (pt_y p)) @ ''\" r=\"10\" '' @
     ''fill=\"transparent\"/><title>'' @ escape (pt_label p) @ '': '' @ escape (nice (pt_y p) None) @ ''</title></g>''"

definition zero_line :: "box \<Rightarrow> (rat \<Rightarrow> rat) \<Rightarrow> string" where
  "zero_line b py =
     ''<line class=\"viz-zero\" x1=\"'' @ int_str (bx_left b) @ ''\" y1=\"'' @ fixed 1 (py 0) @ ''\" '' @
     ''x2=\"'' @ int_str (bx_width b - bx_right b) @ ''\" y2=\"'' @ fixed 1 (py 0) @ ''\"/>''"

definition end_mark :: "box \<Rightarrow> string \<Rightarrow> (rat \<Rightarrow> rat) \<Rightarrow> (rat \<Rightarrow> rat) \<Rightarrow> point \<Rightarrow> string" where
  "end_mark b colour px py p =
     ''<circle class=\"viz-end\" cx=\"'' @ fixed 1 (px (pt_x p)) @ ''\" cy=\"'' @ fixed 1 (py (pt_y p)) @ ''\" r=\"4.5\" '' @
     ''fill=\"'' @ colour @ ''\"/>'' @
     ''<text class=\"viz-direct\" x=\"'' @ fixed 1 (min (fadd (px (pt_x p)) 10) (of_int (bx_width b - bx_right b - 4))) @
     ''\" y=\"'' @ fixed 1 (fsub (py (pt_y p)) 9) @ ''\" '' @
     ''text-anchor=\"end\">'' @ escape (nice (pt_y p) None) @ ''</text>''"

definition line_path :: "string \<Rightarrow> (rat \<Rightarrow> rat) \<Rightarrow> (rat \<Rightarrow> rat) \<Rightarrow> point list \<Rightarrow> string" where
  "line_path colour px py points =
     ''<path d=\"'' @ join '' '' (map2 (path_step px py) [0..<length points] points) @ ''\" fill=\"none\" stroke=\"'' @ colour @ ''\" stroke-width=\"2\"\<newline>          stroke-linejoin=\"round\" stroke-linecap=\"round\"/>''"

definition line_panel :: "chart_series \<Rightarrow> string \<Rightarrow> string \<Rightarrow> box option \<Rightarrow> bool \<Rightarrow> string" where
  "line_panel s title subtitle bx zero_baseline =
     (let b = (case bx of Some b \<Rightarrow> b | None \<Rightarrow> default_box); points = sr_points s
      in if points = [] then empty_panel title ''no rows in the window'' b
      else let lohi = y_range zero_baseline (map pt_y points);
               px = line_x b (map pt_x points); py = line_y b lohi
        in panel title subtitle [] b (grid b (fst lohi) (snd lohi) py
          @ (if zero_baseline \<and> fst lohi < 0 \<and> 0 < snd lohi then zero_line b py else [])
          @ ''\<newline>    '' @ line_path (colour_var s) px py points @ ''\<newline>    '' @ end_mark b (colour_var s) px py (last points) @ concat (map (hover_mark px py) points)))"

subsection \<open>grouped_bars\<close>

definition bar_mark :: "string \<Rightarrow> rat \<Rightarrow> rat \<Rightarrow> rat \<Rightarrow> rat \<Rightarrow> string \<Rightarrow> string" where
  "bar_mark colour x y width height label =
     ''<g class=\"viz-hit\"><rect x=\"'' @ fixed 1 x @ ''\" y=\"'' @ fixed 1 y @ ''\" width=\"'' @ fixed 1 width @ ''\" '' @
     ''height=\"'' @ fixed 1 height @ ''\" rx=\"4\" fill=\"'' @ colour @ ''\"/>'' @
     ''<title>'' @ label @ ''</title></g>''"

definition category_tick :: "box \<Rightarrow> rat \<Rightarrow> nat \<Rightarrow> string \<Rightarrow> string" where
  "category_tick b slot i c =
     ''<text class=\"viz-tick\" x=\"'' @ fixed 1 (fadd (fadd (of_int (bx_left b)) (fmul (of_nat i) slot)) (fdiv slot 2)) @ ''\" '' @
     ''y=\"'' @ int_str (bx_height b - 10) @ ''\" text-anchor=\"middle\">'' @ escape c @ ''</text>''"

definition category_ticks :: "box \<Rightarrow> rat \<Rightarrow> string list \<Rightarrow> string" where
  "category_ticks b slot categories = concat (map2 (category_tick b slot) [0..<length categories] categories)"

text \<open>max(..., default=0.0) or 1.0.\<close>

definition highest_of :: "rat list \<Rightarrow> rat" where
  "highest_of ys = (let m = (if ys = [] then 0 else Max (set ys)) in if m = 0 then 1 else m)"

text \<open>The first point of a series with the label of a category, or 0.0.\<close>

definition bar_value :: "chart_series \<Rightarrow> string \<Rightarrow> rat" where
  "bar_value s category = (case find (\<lambda>p. pt_label p = category) (sr_points s) of Some p \<Rightarrow> pt_y p | None \<Rightarrow> 0)"

definition group_bar :: "box \<Rightarrow> rat \<Rightarrow> rat \<Rightarrow> rat \<Rightarrow> nat \<Rightarrow> string \<Rightarrow> nat \<Rightarrow> chart_series \<Rightarrow> string" where
  "group_bar b highest group_width bar_width g category i s =
     (let v = bar_value s category; height = scale v 0 highest 0 (of_int (plot_height b));
          x = fadd (fadd (fadd (of_int (bx_left b)) (fmul (of_nat g) group_width)) 6) (fmul (of_nat i) (fadd bar_width 2));
          y = fsub (of_int (bx_height b - bx_bottom b)) height
      in bar_mark (colour_var s) x y bar_width (max height (1 / 2))
        (escape (sr_name s) @ '' '' @ middot @ '' '' @ escape category @ '': '' @ escape (nice v None)))"

definition legend_key :: "chart_series \<Rightarrow> string" where
  "legend_key s = ''<span class=\"viz-key\"><i style=\"background:'' @ colour_var s @ ''\"></i>'' @ escape (sr_name s) @ ''</span>''"

definition legend_of :: "chart_series list \<Rightarrow> string" where
  "legend_of series = ''  <div class=\"viz-legend\">'' @ concat (map legend_key series) @ ''</div>\<newline>''"

definition grouped_bars :: "chart_series list \<Rightarrow> string \<Rightarrow> string \<Rightarrow> string list \<Rightarrow> box option \<Rightarrow> string res" where
  "grouped_bars series title subtitle categories bx =
     (if length series_light < length series
      then Inl (Exn ValueError (nat_str (length series) @ '' series exceeds the '' @ nat_str (length series_light)
        @ '' validated slots; fold the rest into '' @ py_repr ''Other'' @ '' or use small multiples''))
      else let b = (case bx of Some b \<Rightarrow> b | None \<Rightarrow> default_box\<lparr> bx_height := 240 \<rparr>)
        in if categories = [] \<or> series = [] then Inr (empty_panel title ''no rows in the window'' b)
        else let highest = highest_of (concat (map (\<lambda>s. map pt_y (sr_points s)) series));
                 group_width = fdiv (of_int (plot_width b)) (of_nat (length categories));
                 bar_width = max (fsub (fdiv (fsub group_width 12) (of_nat (length series))) 2) 3
          in Inr (panel title subtitle
            (legend_of series) b
            (grid b 0 highest (\<lambda>v. scale v 0 highest (of_int (bx_height b - bx_bottom b)) (of_int (bx_top b)))
             @ ''\<newline>    ''
             @ concat (map2 (\<lambda>g category. concat (map2 (group_bar b highest group_width bar_width g category) [0..<length series] series))
                 [0..<length categories] categories)
             @ category_ticks b group_width categories)))"

subsection \<open>rate_bars\<close>

definition rate_bar :: "box \<Rightarrow> rat \<Rightarrow> rat \<Rightarrow> rat \<Rightarrow> string \<Rightarrow> string \<Rightarrow> nat \<Rightarrow> (string, rat) dict \<Rightarrow> nat \<Rightarrow> string \<Rightarrow> string" where
  "rate_bar b highest slot_width bar_width colour suffix decimals values i category =
     (let v = (case map_of values category of Some v \<Rightarrow> v | None \<Rightarrow> 0);
          height = scale v 0 highest 0 (of_int (plot_height b - 14));
          x = fadd (fadd (of_int (bx_left b)) (fmul (of_nat i) slot_width)) (fdiv (fsub slot_width bar_width) 2);
          y = fsub (of_int (bx_height b - bx_bottom b)) height
      in bar_mark colour x y bar_width (max height 1) (escape category @ '': '' @ escape (nice v None) @ escape suffix) @
         ''<text class=\"viz-direct\" x=\"'' @ fixed 1 (fadd x (fdiv bar_width 2)) @ ''\" y=\"'' @ fixed 1 (fsub y 6) @ ''\" '' @
         ''text-anchor=\"middle\">'' @ escape (nice v (Some decimals)) @ escape suffix @ ''</text>'')"

text \<open>{p.label: p.y for p in points}.\<close>

definition rate_values :: "point list \<Rightarrow> (string, rat) dict" where
  "rate_values points = foldl (\<lambda>d p. dict_set (pt_label p) (pt_y p) d) [] points"

definition rate_bars :: "chart_series \<Rightarrow> string \<Rightarrow> string \<Rightarrow> string list \<Rightarrow> string \<Rightarrow> nat \<Rightarrow> box option \<Rightarrow> string" where
  "rate_bars s title subtitle categories suffix decimals bx =
     (let b = (case bx of Some b \<Rightarrow> b | None \<Rightarrow> default_box\<lparr> bx_height := 200 \<rparr>)
      in if categories = [] \<or> sr_points s = [] then empty_panel title ''no rows in the window'' b
      else let values = rate_values (sr_points s); highest = highest_of (map snd values);
               slot_width = fdiv (of_int (plot_width b)) (of_nat (length categories));
               bar_width = min (fsub slot_width 16) 56
        in panel title subtitle [] b
          (concat (map2 (rate_bar b highest slot_width bar_width (colour_var s) suffix decimals values) [0..<length categories] categories)
           @ category_ticks b slot_width categories))"

subsection \<open>stat_tile and table\<close>

definition stat_tile :: "string \<Rightarrow> string \<Rightarrow> string \<Rightarrow> string \<Rightarrow> string res" where
  "stat_tile label value status note = rbind (dict_item status_style status) (\<lambda>(colour, token). Inr (
     ''<div class=\"viz-tile\" data-status=\"'' @ escape status @ ''\">\<newline>  <div class=\"viz-tile-label\">'' @ escape label @ ''</div>\<newline>  <div class=\"viz-tile-value\">'' @ escape value @ ''</div>\<newline>  <div class=\"viz-tile-state\"><span class=\"viz-dot\" style=\"background:'' @ colour @ ''\"></span>\<newline>    <strong>'' @ escape token @ ''</strong> '' @ escape note @ ''</div>\<newline></div>''))"

definition table_row :: "string list \<Rightarrow> string" where
  "table_row row = ''<tr>'' @ concat (map (\<lambda>c. ''<td>'' @ escape c @ ''</td>'') row) @ ''</tr>''"

definition table :: "string list \<Rightarrow> string list list \<Rightarrow> string \<Rightarrow> string" where
  "table headers rows caption =
     ''<details class=\"viz-table\">\<newline>  <summary>'' @ escape caption @ '' '' @ emdash @ '' table view</summary>\<newline>  <table><thead><tr>'' @ concat (map (\<lambda>h. ''<th scope=\"col\">'' @ escape h @ ''</th>'') headers) @ ''</tr></thead><tbody>'' @
     concat (map table_row rows) @ ''</tbody></table>\<newline></details>''"

subsection \<open>Every chart reads as HTML\<close>

lemma plain_rstrip: "plain s \<Longrightarrow> plain (rstrip P s)"
  unfolding plain_def rstrip_def using set_dropWhileD by fastforce

lemma plain_threes: "plain s \<Longrightarrow> plain (threes s)"
  by (induction s rule: threes.induct) (simp_all add: markup_def)

lemma plain_rev [simp]: "plain (rev s) \<longleftrightarrow> plain s"
  by (simp add: plain_def)

lemma plain_comma_nat [simp]: "plain (comma_nat n)"
  by (simp add: comma_nat_def plain_threes)

lemma plain_with_point: "(\<And>n. plain (whole n)) \<Longrightarrow> plain (with_point whole n m)"
  by (simp add: with_point_def markup_def)

lemma plain_fixed [simp]: "plain (fixed n q)" and plain_comma_fixed [simp]: "plain (comma_fixed n q)"
  by (simp_all add: fixed_def comma_fixed_def minus_sign_def markup_def plain_with_point)

lemma plain_comma_int [simp]: "plain (comma_int i)"
  by (simp add: comma_int_def markup_def)

lemma plain_colour_var [simp]: "plain (colour_var s)"
  by (simp add: colour_var_def markup_def)

lemma plain_path_step [simp]: "plain (path_step px py i p)"
  by (simp add: path_step_def markup_def)

lemma ok_grid_line [intro]: "html_ok (grid_line b y lab)"
  unfolding grid_line_def html_ok_def by (simp add: html_reading)

lemma html_ok_map2: "(\<And>x y. html_ok (f x y)) \<Longrightarrow> html_ok (concat (map2 f xs ys))"
  by (rule html_ok_concat) auto

lemma html_ok_map: "(\<And>x. html_ok (f x)) \<Longrightarrow> html_ok (concat (map f xs))"
  by (rule html_ok_concat) auto

lemma ok_grid [simp, intro]: "html_ok (grid b lo hi py)"
  unfolding grid_def by (rule html_ok_map2) (rule ok_grid_line)

lemma ok_empty_panel [simp, intro]: "html_ok (empty_panel title reason b)"
  unfolding empty_panel_def html_ok_def by (simp add: html_reading)

lemma ok_panel: "html_ok legend \<Longrightarrow> html_ok drawing \<Longrightarrow> html_ok (panel title subtitle legend b drawing)"
  unfolding panel_def html_ok_def [of "_ @ _"] by (simp add: html_reading)

lemma ok_hover_mark: "html_ok (hover_mark px py p)"
  unfolding hover_mark_def html_ok_def by (simp add: html_reading)

lemma ok_zero_line: "html_ok (zero_line b py)"
  unfolding zero_line_def html_ok_def by (simp add: html_reading)

lemma ok_end_mark: "plain colour \<Longrightarrow> html_ok (end_mark b colour px py p)"
  unfolding end_mark_def html_ok_def by (simp add: html_reading)

lemma plain_path: "plain (join '' '' (map2 (path_step px py) ns ps))"
  by (rule plain_join) (auto simp: markup_def)

lemma ok_line_path: "plain colour \<Longrightarrow> html_ok (line_path colour px py ps)"
  unfolding line_path_def html_ok_def by (simp add: html_reading plain_path)

lemma ok_hover_marks: "html_ok (concat (map (hover_mark px py) ps))"
  by (rule html_ok_map) (rule ok_hover_mark)

lemma html_ok_Cons: "c \<noteq> CHR ''<'' \<Longrightarrow> c \<noteq> CHR ''>'' \<Longrightarrow> html_ok (c # s) \<longleftrightarrow> html_ok s"
  by (simp add: html_ok_def)

lemma ok_line_panel: "html_ok (line_panel s title subtitle bx zero_baseline)"
  by (auto simp: line_panel_def Let_def ok_zero_line html_ok_Cons ok_end_mark ok_line_path ok_hover_marks
      intro!: ok_panel html_ok_append)

lemma ok_bar_mark: "plain colour \<Longrightarrow> plain label \<Longrightarrow> html_ok (bar_mark colour x y width height label)"
  unfolding bar_mark_def html_ok_def by (simp add: html_reading)

lemma ok_category_ticks [simp, intro]: "html_ok (category_ticks b slot categories)"
  unfolding category_ticks_def by (rule html_ok_map2) (simp add: category_tick_def html_ok_def html_reading)

lemma plain_middot [simp]: "plain middot" and plain_emdash [simp]: "plain emdash" and plain_section_sign [simp]: "plain section_sign"
  by (simp_all add: middot_def emdash_def section_sign_def markup_def)

lemma ok_group_bar: "html_ok (group_bar b highest gw bw g category i s)"
  unfolding group_bar_def Let_def by (rule ok_bar_mark) (simp_all add: markup_def)

lemma ok_legend: "html_ok (legend_of series)"
proof -
  have "html_ok (concat (map legend_key series))"
    by (rule html_ok_map) (simp add: legend_key_def html_ok_def html_reading)
  then show ?thesis by (simp add: legend_of_def html_ok_def [of "_ # _"] html_reading)
qed

lemma ok_grouped_bars: "grouped_bars series title subtitle categories bx = Inr html \<Longrightarrow> html_ok html"
  by (auto simp: grouped_bars_def Let_def html_ok_Cons ok_legend ok_group_bar split: if_splits
      intro!: ok_panel html_ok_append html_ok_map2)

lemma ok_rate_bar: "html_ok (rate_bar b highest slot bw (colour_var s) suffix decimals values i category)"
  unfolding rate_bar_def Let_def
  by (rule html_ok_append, rule ok_bar_mark) (simp_all add: markup_def html_ok_def html_reading)

lemma ok_rate_bars: "html_ok (rate_bars s title subtitle categories suffix decimals bx)"
  by (auto simp: rate_bars_def Let_def ok_rate_bar intro!: ok_panel html_ok_append html_ok_map2)

lemma status_cases: "map_of status_style status = Some (colour, token) \<Longrightarrow> plain colour"
  by (auto simp: status_style_def markup_def split: if_splits)

lemma ok_stat_tile: "stat_tile label v status note = Inr html \<Longrightarrow> html_ok html"
  by (auto simp: stat_tile_def res_simps html_ok_def html_reading dest!: status_cases)

lemma ok_table_row: "html_ok (table_row row)"
proof -
  have "html_ok (concat (map (\<lambda>c. ''<td>'' @ escape c @ ''</td>'') row))"
    by (rule html_ok_map) (simp add: html_ok_def html_reading)
  then show ?thesis by (simp add: table_row_def html_ok_def [of "_ # _"] html_reading)
qed

lemma ok_table: "html_ok (table headers rows caption)"
proof -
  have "html_ok (concat (map (\<lambda>h. ''<th scope=\"col\">'' @ escape h @ ''</th>'') headers))"
    by (rule html_ok_map) (simp add: html_ok_def html_reading)
  moreover have "html_ok (concat (map table_row rows))" by (rule html_ok_map) (rule ok_table_row)
  ultimately show ?thesis by (simp add: table_def html_ok_def [of "_ # _"] html_reading)
qed

subsection \<open>The table view is the data\<close>

text \<open>A reader of tables: the cells of each row, from the pieces between the opening brackets.\<close>

definition read_cell :: "string \<Rightarrow> string option" where
  "read_cell p = (if take 3 p = ''td>'' then Some (unescape (drop 3 p))
     else if take 15 p = ''th scope=\"col\">'' then Some (unescape (drop 15 p)) else None)"

definition read_piece :: "string \<Rightarrow> string list \<times> string list list \<Rightarrow> string list \<times> string list list" where
  "read_piece p acc = (if p = ''tr>'' then ([], fst acc # snd acc)
     else case read_cell p of Some c \<Rightarrow> (c # fst acc, snd acc) | None \<Rightarrow> acc)"

definition read_table :: "string \<Rightarrow> string list list" where
  "read_table s = snd (foldr read_piece (split_on (CHR ''<'') s) ([], []))"

lemma escape_no_lt: "CHR ''<'' \<notin> set (escape s)"
  using plain_escape [of s] by (auto simp: plain_def markup_def)

lemma split_tag: "CHR ''<'' \<notin> set x \<Longrightarrow> split_on (CHR ''<'') s = [] # ps \<Longrightarrow> split_on (CHR ''<'') (CHR ''<'' # x @ s) = [] # x # ps"
proof -
  assume x: "CHR ''<'' \<notin> set x" and s: "split_on (CHR ''<'') s = [] # ps"
  from x have "split_on (CHR ''<'') (x @ s) = x # ps" by (induction x) (auto simp: s)
  then show ?thesis by simp
qed

definition cell_pieces :: "string \<Rightarrow> string \<Rightarrow> string list \<Rightarrow> string list" where
  "cell_pieces tg close row = concat (map (\<lambda>c. [tg @ escape c, close]) row)"

definition row_pieces :: "string list \<Rightarrow> string list" where
  "row_pieces row = ''tr>'' # cell_pieces ''td>'' ''/td>'' row @ [''/tr>'']"

lemma split_cells:
  assumes "CHR ''<'' \<notin> set tg" and "CHR ''<'' \<notin> set close" and "split_on (CHR ''<'') s = [] # ps"
  shows "split_on (CHR ''<'') (concat (map (\<lambda>c. (CHR ''<'' # tg) @ escape c @ (CHR ''<'' # close)) row) @ s)
    = [] # cell_pieces tg close row @ ps"
proof (induction row)
  case (Cons c row)
  have "split_on (CHR ''<'') ((CHR ''<'' # tg) @ escape c @ (CHR ''<'' # close) @ (concat (map (\<lambda>c. (CHR ''<'' # tg) @ escape c @ (CHR ''<'' # close)) row) @ s))
      = [] # (tg @ escape c) # close # cell_pieces tg close row @ ps"
    using split_tag [OF _ split_tag [OF assms(2) Cons], of "tg @ escape c"] assms(1) escape_no_lt by simp
  then show ?case by (simp add: cell_pieces_def)
qed (simp add: assms(3) cell_pieces_def)

lemma read_cells:
  "foldr read_piece (cell_pieces ''td>'' ''/td>'' row) acc = (row @ fst acc, snd acc)"
  "foldr read_piece (cell_pieces ''th scope=\"col\">'' ''/th>'' row) acc = (row @ fst acc, snd acc)"
  by (induction row) (simp_all add: cell_pieces_def read_piece_def read_cell_def)

lemma split_row:
  assumes "split_on (CHR ''<'') s = [] # ps"
  shows "split_on (CHR ''<'') (table_row row @ s) = [] # row_pieces row @ ps"
proof -
  have "split_on (CHR ''<'') (''</tr>'' @ s) = [] # ''/tr>'' # ps" using split_tag [OF _ assms, of "''/tr>''"] by simp
  from split_cells [OF _ _ this, of "''td>''" "''/td>''" row] split_tag [of "''tr>''"] show ?thesis
    by (simp add: table_row_def row_pieces_def)
qed

lemma split_table_rows:
  assumes "split_on (CHR ''<'') s = [] # ps"
  shows "split_on (CHR ''<'') (concat (map table_row rows) @ s) = [] # concat (map row_pieces rows) @ ps"
proof (induction rows)
  case (Cons row rows)
  from split_row [OF Cons] show ?case by simp
qed (simp add: assms)

lemma read_rows:
  "fst acc = [] \<Longrightarrow> foldr read_piece (concat (map row_pieces rows)) acc = ([], rows @ snd acc)"
proof (induction rows)
  case Nil
  then show ?case by (simp add: prod_eq_iff)
next
  case (Cons row rows)
  moreover have "read_piece ''/tr>'' a = a" and "read_piece ''tr>'' a = ([], fst a # snd a)" for a
    by (simp_all add: read_piece_def read_cell_def)
  ultimately show ?case by (simp add: row_pieces_def read_cells)
qed

text \<open>
  Property C32. The table view under a chart is the data: read back, the table of any headers and
  rows is those headers and rows, whatever characters the cells and the caption hold.
\<close>

theorem table_reads_back: "read_table (table headers rows caption) = headers # rows"
proof -
  let ?lt = "CHR ''<''" and ?th = "''th scope=\"col\">''" and ?tail = "''</tbody></table>\<newline></details>''"
  let ?rows = "concat (map row_pieces rows)"
    and ?heads = "cell_pieces ?th ''/th>'' headers"
    and ?tails = "[''/tbody>'', ''/table>\<newline>'', ''/details>'']"
  let ?body = "''</tr></thead><tbody>'' @ concat (map table_row rows) @ ?tail"
  let ?head = "concat (map (\<lambda>h. (?lt # ?th) @ escape h @ (?lt # ''/th>'')) headers) @ ?body"
  have "split_on ?lt ?tail = [] # ?tails" by simp
  from split_table_rows [OF this, of rows]
  have "split_on ?lt ?body = [] # ''/tr>'' # ''/thead>'' # ''tbody>'' # ?rows @ ?tails" by simp
  from split_cells [OF _ _ this, of ?th "''/th>''" headers]
  have h: "split_on ?lt ?head = [] # ?heads @ ''/tr>'' # ''/thead>'' # ''tbody>'' # ?rows @ ?tails" by simp
  have "CHR ''<'' \<notin> set (''summary>'' @ escape caption @ '' '' @ emdash @ '' table view'')"
    by (simp add: escape_no_lt emdash_def)
  moreover have "split_on ?lt (''</summary>\<newline>  <table><thead><tr>'' @ ?head) = [] # ''/summary>\<newline>  '' # ''table>'' # ''thead>'' # ''tr>'' # ?heads @ ''/tr>'' # ''/thead>'' # ''tbody>'' # ?rows @ ?tails"
    using h by simp
  ultimately have "split_on ?lt (?lt # (''summary>'' @ escape caption @ '' '' @ emdash @ '' table view'') @ (''</summary>\<newline>  <table><thead><tr>'' @ ?head)) = [] # (''summary>'' @ escape caption @ '' '' @ emdash @ '' table view'') # ''/summary>\<newline>  '' # ''table>'' # ''thead>'' # ''tr>'' # ?heads @ ''/tr>'' # ''/thead>'' # ''tbody>'' # ?rows @ ?tails"
    by (rule split_tag)
  then have "split_on ?lt (table headers rows caption) = [] # ''details class=\"viz-table\">\<newline>  '' # (''summary>'' @ escape caption @ '' '' @ emdash @ '' table view'') # ''/summary>\<newline>  '' # ''table>'' # ''thead>'' # ''tr>'' # ?heads @ ''/tr>'' # ''/thead>'' # ''tbody>'' # ?rows @ ?tails"
    by (simp add: table_def)
  moreover have "foldr read_piece ?tails acc = acc" for acc by (simp add: read_piece_def read_cell_def)
  moreover have "read_piece p acc = acc" if "p \<in> {[], ''details class=\"viz-table\">\<newline>  '', ''/summary>\<newline>  '', ''table>'', ''thead>'', ''/tr>'', ''/thead>'', ''tbody>''}" for p acc
    using that by (auto simp: read_piece_def read_cell_def)
  moreover have "read_piece (''summary>'' @ x) acc = acc" for x acc by (simp add: read_piece_def read_cell_def)
  moreover have "read_piece ''tr>'' acc = ([], fst acc # snd acc)" for acc by (simp add: read_piece_def)
  ultimately show ?thesis by (simp add: read_table_def read_rows read_cells)
qed

subsection \<open>Axis labels\<close>

lemmas nice_simps = nice_def fixed_def comma_fixed_def scaled_def round_half_even_def with_point_def minus_sign_def
  comma_nat_def nat_str.simps digit_chr_def char_of_def pad_def strip_zeros_def rstrip_def bit_0 Let_def

lemma quarter_ticks: "tick_values (1 / 4) (17 / 4) = [1 / 4, 5 / 4, 9 / 4, 13 / 4, 17 / 4]"
  by (simp add: tick_values_def upt_rec fadd_def fdiv_def fmul_def fsub_def fl_signed_def fl.simps round_half_even_def)

lemma quarter_nice: "nice (1 / 4) (Some 0) = []" "nice (5 / 4) (Some 0) = ''1.25''" "nice (9 / 4) (Some 0) = ''2.25''"
  "nice (13 / 4) (Some 0) = ''3.25''" "nice (17 / 4) (Some 0) = ''4.25''"
  by (simp_all add: nice_simps)

text \<open>
  An axis can have a tick without a label: on the axis from 0.25 to 4.25 the
  labels already differ with no decimals, where a number below one half is printed as a zero and
  the zero is then stripped as a trailing one.
\<close>

lemma axis_label_can_be_empty: "axis_labels (1 / 4) (17 / 4) = [[], ''1.25'', ''2.25'', ''3.25'', ''4.25'']"
  by (simp add: axis_labels_def quarter_ticks quarter_nice upt_rec Let_def)

subsection \<open>The points of a line stay in its plot\<close>

lemma fl_le: "0 \<le> q \<Longrightarrow> q \<le> r \<Longrightarrow> fl_signed q \<le> r * (1 + 1 / 2 ^ 53)"
  using fl_signed_le [of q] by (meson mult_right_mono order_trans zero_le_divide_1_iff zero_le_numeral zero_le_power add_nonneg_nonneg zero_le_one)

lemma scale_share:
  assumes "lo \<le> x" and "x \<le> hi" and "lo < hi" and "0 \<le> w" and "w \<le> 2000000"
  shows "0 \<le> fdiv (fmul (fsub x lo) (fl_signed w)) (fsub hi lo)"
    and "fdiv (fmul (fsub x lo) (fl_signed w)) (fsub hi lo) \<le> w + 1 / 1000"
proof -
  let ?u = "1 / 2 ^ 53 :: rat" and ?a = "fsub x lo" and ?d = "fsub hi lo" and ?w = "fl_signed w"
  have a0: "0 \<le> ?a" and w0: "0 \<le> ?w" using assms by (simp_all add: fsub_def fl_signed_nonneg)
  have a: "?a \<le> (hi - lo) * (1 + ?u)" unfolding fsub_def by (rule fl_le) (use assms in auto)
  have d: "(hi - lo) * (1 - ?u) \<le> ?d" unfolding fsub_def by (rule fl_signed_ge) (use assms in auto)
  have d0: "0 < ?d" by (rule less_le_trans [OF _ d]) (use assms in simp)
  have "?a \<le> (hi - lo) * (1 - ?u) * (1 + 3 * ?u)"
    by (rule order_trans [OF a]) (use assms(3) in \<open>simp add: mult.assoc\<close>)
  also have "\<dots> \<le> ?d * (1 + 3 * ?u)" by (rule mult_right_mono [OF d]) simp
  finally have ad: "?a / ?d \<le> 1 + 3 * ?u" using d0 by (simp add: pos_divide_le_eq mult.commute)
  have aw: "0 \<le> ?a * ?w" using a0 w0 by simp
  have b: "fmul ?a ?w \<le> ?a * ?w * (1 + ?u)" unfolding fmul_def by (rule fl_signed_le [OF aw])
  have b0: "0 \<le> fmul ?a ?w" unfolding fmul_def by (rule fl_signed_nonneg [OF aw])
  show "0 \<le> fdiv (fmul ?a ?w) ?d" unfolding fdiv_def using b0 d0 by (simp add: fl_signed_nonneg)
  have "fdiv (fmul ?a ?w) ?d \<le> fmul ?a ?w / ?d * (1 + ?u)"
    unfolding fdiv_def using b0 d0 by (intro fl_signed_le) simp
  also have "fmul ?a ?w / ?d \<le> ?a / ?d * (?w * (1 + ?u))"
    using divide_right_mono [OF b, of ?d] d0 by (simp add: mult.assoc)
  then have "fmul ?a ?w / ?d * (1 + ?u) \<le> ?a / ?d * (?w * (1 + ?u)) * (1 + ?u)" by (rule mult_right_mono) simp
  also have "\<dots> \<le> (1 + 3 * ?u) * (?w * (1 + ?u)) * (1 + ?u)"
    by (intro mult_right_mono ad) (use w0 in auto)
  also have "\<dots> \<le> (1 + 3 * ?u) * ((w * (1 + ?u)) * (1 + ?u)) * (1 + ?u)"
    using fl_signed_le [OF assms(4)] by (intro mult_right_mono mult_left_mono) auto
  also have "\<dots> = w + w * ((1 + 3 * ?u) * (1 + ?u) * (1 + ?u) * (1 + ?u) - 1)" by (simp add: algebra_simps)
  also have "\<dots> \<le> w + 2000000 * ((1 + 3 * ?u) * (1 + ?u) * (1 + ?u) * (1 + ?u) - 1)"
    using assms(5) by (intro add_left_mono mult_right_mono) auto
  also have "\<dots> \<le> w + 1 / 1000" by simp
  finally show "fdiv (fmul ?a ?w) ?d \<le> w + 1 / 1000" .
qed

lemma fadd_near: "\<bar>a + b\<bar> \<le> 4000000 \<Longrightarrow> \<bar>fadd a b - (a + b)\<bar> \<le> 1 / 1000"
proof -
  assume "\<bar>a + b\<bar> \<le> 4000000"
  then have "\<bar>a + b\<bar> / 2 ^ 53 \<le> 1 / 1000" by simp
  with fl_signed_err [of "a + b"] show ?thesis unfolding fadd_def by linarith
qed

lemma scale_range:
  assumes "lo \<le> x" and "x \<le> hi" and "0 \<le> l" and "l \<le> 1000000" and "0 \<le> h" and "h \<le> 1000000"
  shows "min l h - 1 / 100 \<le> scale x lo hi l h" and "scale x lo hi l h \<le> max l h + 1 / 100"
proof -
  have "min l h - 1 / 100 \<le> scale x lo hi l h \<and> scale x lo hi l h \<le> max l h + 1 / 100"
  proof (cases "lo = hi")
    case True
    have s: "\<bar>fadd l h - (l + h)\<bar> \<le> 1 / 1000" by (rule fadd_near) (use assms in simp)
    then have "\<bar>fadd l h\<bar> \<le> 3000000" using assms unfolding abs_le_iff by simp
    then have "\<bar>fadd l h / 2\<bar> / 2 ^ 53 \<le> 1 / 1000" by simp
    with fl_signed_err [of "fadd l h / 2"] have "\<bar>fdiv (fadd l h) 2 - fadd l h / 2\<bar> \<le> 1 / 1000"
      unfolding fdiv_def by linarith
    with s True show ?thesis unfolding scale_def abs_le_iff by (auto simp: min_def max_def)
  next
    case False
    with assms have lt: "lo < hi" by simp
    let ?c = "fdiv (fmul (fsub x lo) (fsub h l)) (fsub hi lo)"
    have c: "if l \<le> h then 0 \<le> ?c \<and> ?c \<le> h - l + 1 / 1000 else ?c \<le> 0 \<and> h - l - 1 / 1000 \<le> ?c"
    proof (cases "l \<le> h")
      case True
      then show ?thesis using scale_share [OF assms(1,2) lt, of "h - l"] assms by (simp add: fsub_def)
    next
      case False
      have "fsub h l = - fl_signed (l - h)" using fl_signed_minus [of "l - h"] by (simp add: fsub_def)
      then have "?c = - fdiv (fmul (fsub x lo) (fl_signed (l - h))) (fsub hi lo)"
        by (simp add: fdiv_def fmul_def fl_signed_minus)
      then show ?thesis using False scale_share [OF assms(1,2) lt, of "l - h"] assms by simp
    qed
    have "\<bar>fadd l ?c - (l + ?c)\<bar> \<le> 1 / 1000"
      by (rule fadd_near) (use c assms in \<open>auto simp: abs_le_iff split: if_splits\<close>)
    then show ?thesis using False c unfolding scale_def abs_le_iff by (auto simp: min_def max_def split: if_splits)
  qed
  then show "min l h - 1 / 100 \<le> scale x lo hi l h" and "scale x lo hi l h \<le> max l h + 1 / 100" by simp_all
qed

lemma y_range_holds:
  assumes "\<forall>y\<in>set ys. \<bar>y\<bar> \<le> 2 ^ 50" and "y \<in> set ys"
  shows "fst (y_range zero ys) \<le> y" and "y \<le> snd (y_range zero ys)"
proof -
  have l: "Min (set ys) \<le> y" "y \<le> Max (set ys)" using assms(2) by auto
  have below: "fsub a 1 \<le> a" and above: "a \<le> fadd a 1" if "\<bar>a\<bar> \<le> 2 ^ 50" for a
  proof -
    have "\<bar>a - 1\<bar> / 2 ^ 53 \<le> 1" and "\<bar>a + 1\<bar> / 2 ^ 53 \<le> 1" using that unfolding abs_le_iff by (auto simp: abs_if)
    with fl_signed_err [of "a - 1"] fl_signed_err [of "a + 1"] show "fsub a 1 \<le> a" and "a \<le> fadd a 1"
      unfolding fsub_def fadd_def abs_le_iff by linarith+
  qed
  let ?lo = "if zero then min (Min (set ys)) 0 else Min (set ys)" and ?hi = "if zero then max (Max (set ys)) 0 else Max (set ys)"
  have b: "?lo \<le> y" "y \<le> ?hi" using l by auto
  have r: "y_range zero ys = (if ?lo = ?hi then (fsub ?lo 1, fadd ?hi 1) else (?lo, ?hi))"
    by (simp add: y_range_def Let_def)
  have "\<bar>y\<bar> \<le> 2 ^ 50" using assms by simp
  from below [OF this] above [OF this] b have "?lo = ?hi \<Longrightarrow> fsub ?lo 1 \<le> y \<and> y \<le> fadd ?hi 1" by (metis order_antisym)
  then show "fst (y_range zero ys) \<le> y" and "y \<le> snd (y_range zero ys)" using b unfolding r by (simp_all del: split_paired_All)
qed

text \<open>A number of tenths as it is printed.\<close>

definition tenths :: "nat \<Rightarrow> string" where
  "tenths n = nat_str (n div 10) @ ''.'' @ pad 1 (n mod 10)"

lemma fixed_in_range:
  assumes "of_int l - 1 / 100 \<le> q" and "q \<le> of_int h + 1 / 100" and "1 \<le> l"
  shows "\<exists>n. fixed 1 q = tenths n \<and> 10 * l \<le> int n \<and> int n \<le> 10 * h"
proof -
  have "(1 :: rat) \<le> of_int l" using assms(3) by simp
  with assms(1) have q: "0 \<le> q" by linarith
  have "10 * l \<le> round_half_even (q * 10)" by (rule round_half_even_bounds) (use assms(1) in simp)
  moreover have "round_half_even (q * 10) \<le> 10 * h" by (rule round_half_even_bounds) (use assms(2) in simp)
  ultimately show ?thesis using q assms(3)
    by (intro exI [of _ "scaled 1 q"]) (simp add: fixed_def minus_sign_def with_point_def tenths_def scaled_def)
qed

text \<open>
  Property C33. Nothing is drawn outside the plot: every point of a line panel with values below
  2 ^ 50 is printed at tenths of a pixel between the margins of its box, rounding included.
\<close>

theorem points_stay_in_the_plot:
  assumes "p \<in> set points" and "\<forall>y\<in>set (map pt_y points). \<bar>y\<bar> \<le> 2 ^ 50"
    and "1 \<le> bx_left b" and "bx_left b \<le> bx_width b - bx_right b" and "bx_width b - bx_right b \<le> 1000000"
    and "1 \<le> bx_top b" and "bx_top b \<le> bx_height b - bx_bottom b" and "bx_height b - bx_bottom b \<le> 1000000"
  shows "\<exists>n m. path_step (line_x b (map pt_x points)) (line_y b (y_range zero (map pt_y points))) i p =
      (if i = 0 then ''M'' else ''L'') @ tenths n @ '','' @ tenths m \<and>
    10 * bx_left b \<le> int n \<and> int n \<le> 10 * (bx_width b - bx_right b) \<and>
    10 * bx_top b \<le> int m \<and> int m \<le> 10 * (bx_height b - bx_bottom b)"
proof -
  let ?x = "line_x b (map pt_x points) (pt_x p)" and ?y = "line_y b (y_range zero (map pt_y points)) (pt_y p)"
  let ?l = "bx_left b" and ?r = "bx_width b - bx_right b" and ?t = "bx_top b" and ?d = "bx_height b - bx_bottom b"
  have r: "(0 :: rat) \<le> of_int ?l" "of_int ?l \<le> (of_int ?r :: rat)" "of_int ?r \<le> (1000000 :: rat)"
    "(0 :: rat) \<le> of_int ?t" "of_int ?t \<le> (of_int ?d :: rat)" "of_int ?d \<le> (1000000 :: rat)"
    using assms(3-8) by (simp_all only: of_int_le_iff of_int_0_le_iff of_int_le_numeral_iff)
  have x: "Min (set (map pt_x points)) \<le> pt_x p" "pt_x p \<le> Max (set (map pt_x points))" using assms(1) by auto
  have y: "fst (y_range zero (map pt_y points)) \<le> pt_y p" "pt_y p \<le> snd (y_range zero (map pt_y points))"
    using y_range_holds [OF assms(2), of "pt_y p"] assms(1) by auto
  have "of_int ?l - 1 / 100 \<le> ?x" and "?x \<le> of_int ?r + 1 / 100"
    using scale_range [OF x, of "of_int ?l" "of_int ?r"] r unfolding line_x_def by (simp_all add: min_absorb1 max_absorb2)
  from fixed_in_range [OF this assms(3)] obtain n where n: "fixed 1 ?x = tenths n" "10 * ?l \<le> int n" "int n \<le> 10 * ?r" by blast
  have "of_int ?t - 1 / 100 \<le> ?y" and "?y \<le> of_int ?d + 1 / 100"
    using scale_range [OF y, of "of_int ?d" "of_int ?t"] r unfolding line_y_def by (simp_all add: min_absorb2 max_absorb1)
  from fixed_in_range [OF this assms(6)] obtain m where m: "fixed 1 ?y = tenths m" "10 * ?t \<le> int m" "int m \<le> 10 * ?d" by blast
  show ?thesis unfolding path_step_def n(1) m(1) using n m by blast
qed

theorem points_stay_in_the_plot_witness:
  "\<exists>n m. path_step (line_x default_box [0, 1]) (line_y default_box (y_range False [0, 5])) 1 \<lparr> pt_x = 1, pt_y = 5, pt_label = [] \<rparr> =
    ''L'' @ tenths n @ '','' @ tenths m \<and> 640 \<le> int n \<and> int n \<le> 7040 \<and> 160 \<le> int m \<and> int m \<le> 1680"
  using points_stay_in_the_plot [where p = "\<lparr> pt_x = 1, pt_y = 5, pt_label = [] \<rparr>" and zero = False and i = 1 and b = default_box
      and points = "[\<lparr> pt_x = 0, pt_y = 0, pt_label = [] \<rparr>, \<lparr> pt_x = 1, pt_y = 5, pt_label = [] \<rparr>]"]
  by (simp add: default_box_def)

end
