(* ===== verification/Dashboard.thy ===== *)
theory Dashboard
  imports Charts Render Monitoring
begin

text \<open>
  awsnative/dashboard/page.py and cli.py: the document around the charts, the freshness bands,
  the panels, the page from the results of the queries, and the main program over the Athena
  client. flt is Python's float() of a text, None where it raises ValueError; a number that is
  not finite is outside the model.
\<close>

subsection \<open>page.py\<close>

definition page_style :: string where
  "page_style = concat [
     ''\<newline>'',
     '':root { color-scheme: light dark; }\<newline>'',
     ''.viz-root {\<newline>'',
     ''  --surface-1: #fcfcfb; --surface-2: #f4f3f0; --border: #e2e1dc;\<newline>'',
     ''  --text-primary: #0b0b0b; --text-secondary: #52514e; --text-muted: #6f6e6a;\<newline>'',
     ''  --series-1: '' @ series_light ! 0 @ ''; --series-2: '' @ series_light ! 1 @ ''; --series-3: '' @ series_light ! 2 @ '';\<newline>'',
     ''  --grid: #e8e7e2;\<newline>'',
     ''}\<newline>'',
     ''@media (prefers-color-scheme: dark) {\<newline>'',
     ''  :root:where(:not([data-theme=\"light\"])) .viz-root {\<newline>'',
     ''    --surface-1: #1a1a19; --surface-2: #232322; --border: #383835;\<newline>'',
     ''    --text-primary: #ffffff; --text-secondary: #c3c2b7; --text-muted: #9a9990;\<newline>'',
     ''    --series-1: '' @ series_dark ! 0 @ ''; --series-2: '' @ series_dark ! 1 @ ''; --series-3: '' @ series_dark ! 2 @ '';\<newline>'',
     ''    --grid: #2e2e2c;\<newline>'',
     ''  }\<newline>'',
     ''}\<newline>'',
     '':root[data-theme=\"dark\"] .viz-root {\<newline>'',
     ''  --surface-1: #1a1a19; --surface-2: #232322; --border: #383835;\<newline>'',
     ''  --text-primary: #ffffff; --text-secondary: #c3c2b7; --text-muted: #9a9990;\<newline>'',
     ''  --series-1: '' @ series_dark ! 0 @ ''; --series-2: '' @ series_dark ! 1 @ ''; --series-3: '' @ series_dark ! 2 @ '';\<newline>'',
     ''  --grid: #2e2e2c;\<newline>'',
     ''}\<newline>'',
     ''* { box-sizing: border-box; }\<newline>'',
     ''body { margin: 0; background: var(--surface-2); }\<newline>'',
     ''.viz-root {\<newline>'',
     ''  background: var(--surface-2); color: var(--text-primary); min-height: 100vh;\<newline>'',
     ''  font: 14px/1.5 ui-sans-serif, -apple-system, \"Segoe UI\", Roboto, sans-serif;\<newline>'',
     ''  padding: 28px clamp(16px, 4vw, 48px) 64px;\<newline>'',
     ''}\<newline>'',
     ''header.viz-head { display:flex; align-items:baseline; gap:16px;\<newline>'',
     ''                    flex-wrap:wrap; margin-bottom:4px; }\<newline>'',
     ''h1 { font-size: 20px; margin: 0; letter-spacing: -0.01em; }\<newline>'',
     ''.viz-meta { color: var(--text-muted); font-size: 12px; font-variant-numeric: tabular-nums; }\<newline>'',
     ''.viz-lede { color: var(--text-secondary); max-width: 68ch; margin: 8px 0 24px; }\<newline>'',
     ''h2 { font-size: 13px; text-transform: uppercase; letter-spacing: .07em;\<newline>'',
     ''     color: var(--text-secondary); margin: 32px 0 12px; font-weight: 600; }\<newline>'',
     ''.viz-tiles { display:grid; gap:12px;\<newline>'',
     ''               grid-template-columns:repeat(auto-fit,minmax(190px,1fr)); }\<newline>'',
     ''.viz-tile { background: var(--surface-1); border:1px solid var(--border);\<newline>'',
     ''              border-radius:10px; padding:14px 16px; }\<newline>'',
     ''.viz-tile-label { color: var(--text-secondary); font-size:12px; }\<newline>'',
     ''.viz-tile-value { font-size:26px; font-weight:600; letter-spacing:-0.02em;\<newline>'',
     ''                   font-variant-numeric: tabular-nums; margin:2px 0 6px; }\<newline>'',
     ''.viz-tile-state { font-size:12px; color: var(--text-secondary);\<newline>'',
     ''                    display:flex; align-items:center; gap:6px; }\<newline>'',
     ''.viz-tile-state strong { color: var(--text-primary); }\<newline>'',
     ''.viz-dot { width:9px; height:9px; border-radius:50%; flex:none; }\<newline>'',
     ''.viz-flow { display:flex; flex-direction:column; gap:16px; }\<newline>'',
     ''.viz-grid-2 { display:grid; gap:16px;\<newline>'',
     ''                grid-template-columns:repeat(auto-fit,minmax(340px,1fr)); }\<newline>'',
     ''.viz-panel { background: var(--surface-1); border:1px solid var(--border);\<newline>'',
     ''              border-radius:10px; padding:14px 16px 8px; margin:0; }\<newline>'',
     ''.viz-panel svg { width:100%; height:auto; display:block; overflow:visible; }\<newline>'',
     ''figcaption { display:flex; gap:10px; align-items:baseline;\<newline>'',
     ''               flex-wrap:wrap; margin-bottom:6px; }\<newline>'',
     ''.viz-title { font-weight:600; }\<newline>'',
     ''.viz-sub { color: var(--text-muted); font-size:12px; }\<newline>'',
     ''.viz-legend { display:flex; gap:14px; flex-wrap:wrap; margin:2px 0 8px; font-size:12px;\<newline>'',
     ''               color: var(--text-secondary); }\<newline>'',
     ''.viz-key { display:inline-flex; align-items:center; gap:6px; }\<newline>'',
     ''.viz-key i { width:10px; height:10px; border-radius:3px; display:inline-block; }\<newline>'',
     ''.viz-grid { stroke: var(--grid); stroke-width:1; }\<newline>'',
     ''.viz-zero { stroke: var(--text-muted); stroke-width:1; stroke-dasharray:3 3; }\<newline>'',
     ''.viz-tick { fill: var(--text-muted); font-size:10px; font-variant-numeric: tabular-nums; }\<newline>'',
     ''.viz-direct { fill: var(--text-primary); font-size:11px; font-weight:600;\<newline>'',
     ''               font-variant-numeric: tabular-nums; }\<newline>'',
     ''.viz-end { stroke: var(--surface-1); stroke-width:2; }\<newline>'',
     ''.viz-hit { cursor: crosshair; }\<newline>'',
     ''.viz-hit:hover circle[r=\"10\"] {\<newline>'',
     ''  fill: color-mix(in oklab, var(--text-primary) 12%, transparent); }\<newline>'',
     ''.viz-nodata { display:grid; place-items:center; color: var(--text-muted); font-size:13px;\<newline>'',
     ''               border:1px dashed var(--border); border-radius:8px; }\<newline>'',
     ''.viz-table { margin-top:10px; font-size:12px; }\<newline>'',
     ''.viz-table summary { cursor:pointer; color: var(--text-secondary); }\<newline>'',
     ''.viz-table table { border-collapse:collapse; margin-top:8px; width:100%; }\<newline>'',
     ''.viz-table th, .viz-table td { border-bottom:1px solid var(--border);\<newline>'',
     ''                                 padding:4px 8px;\<newline>'',
     ''                                text-align:right; font-variant-numeric: tabular-nums; }\<newline>'',
     ''.viz-table th:first-child, .viz-table td:first-child { text-align:left; }\<newline>'',
     ''footer.viz-foot { margin-top:40px; color: var(--text-muted); font-size:12px;\<newline>'',
     ''                   border-top:1px solid var(--border); padding-top:12px; max-width:80ch; }\<newline>'',
     ''@media print { .viz-panel { break-inside: avoid; } }\<newline>'']"

record section_of_page =
  sc_heading :: string
  sc_blocks :: "string list"
  sc_layout :: string

definition flow :: "string \<Rightarrow> string list \<Rightarrow> section_of_page" where
  "flow heading blocks = \<lparr> sc_heading = heading, sc_blocks = blocks, sc_layout = ''flow'' \<rparr>"

definition wrappers :: "(string, string) dict" where
  "wrappers = [(''tiles'', ''viz-tiles''), (''grid'', ''viz-grid-2''), (''flow'', ''viz-flow'')]"

definition headed :: "string \<Rightarrow> string \<Rightarrow> string list \<Rightarrow> string" where
  "headed heading wrapper blocks =
     ''<h2>'' @ escape heading @ ''</h2>'' @ ''<div class=\"'' @ wrapper @ ''\">'' @ concat blocks @ ''</div>''"

definition section_html :: "section_of_page \<Rightarrow> string res" where
  "section_html sc = (if sc_blocks sc = [] then Inr [] else
     rbind (dict_item wrappers (sc_layout sc)) (\<lambda>wrapper. Inr (headed (sc_heading sc) wrapper (sc_blocks sc))))"

definition footnotes_html :: "string list \<Rightarrow> string" where
  "footnotes_html notes = concat (map (\<lambda>n. ''<p>'' @ escape n @ ''</p>'') notes)"

definition document :: "string \<Rightarrow> string \<Rightarrow> string \<Rightarrow> string \<Rightarrow> string list \<Rightarrow> string list \<Rightarrow> string" where
  "document title generated_at database lede body footnotes =
     ''<!doctype html>\<newline><html lang=\"en\">\<newline><head>\<newline><meta charset=\"utf-8\">\<newline><meta name=\"viewport\" content=\"width=device-width, initial-scale=1\">\<newline><title>'' @ escape title @ ''</title>\<newline><style>'' @ page_style @ ''</style>\<newline></head>\<newline><body>\<newline><div class=\"viz-root\">\<newline><header class=\"viz-head\">\<newline>  <h1>'' @ escape title @ ''</h1>\<newline>  <span class=\"viz-meta\">'' @ escape database @ '' '' @ middot @ '' generated '' @ escape generated_at @ '' UTC</span>\<newline></header>\<newline><p class=\"viz-lede\">'' @ escape lede @ ''</p>\<newline>'' @ concat body @ ''\<newline><footer class=\"viz-foot\">'' @ footnotes_html footnotes @ ''</footer>\<newline></div>\<newline></body>\<newline></html>''"

definition build_page :: "string \<Rightarrow> string \<Rightarrow> string \<Rightarrow> string \<Rightarrow> section_of_page list \<Rightarrow> string list \<Rightarrow> string res" where
  "build_page title generated_at database lede sections footnotes =
     rbind (rmap section_html sections) (\<lambda>body. Inr (document title generated_at database lede body footnotes))"

subsection \<open>cli.py\<close>

definition queries :: "string list" where
  "queries = [''01_layer_counts.sql'', ''02_freshness.sql'', ''03_quarantine.sql'', ''04_perp_context.sql'', ''05_macro.sql'']"

definition fresh_seconds :: rat where "fresh_seconds = 15 * 60"

definition warn_seconds :: rat where "warn_seconds = 60 * 60"

definition serious_seconds :: rat where "serious_seconds = 24 * 60 * 60"

type_synonym rows = "(string, string) dict list"

type_synonym to_float = "string \<Rightarrow> rat option"

text \<open>_f(value) or 0.0.\<close>

definition cell_or_zero :: "to_float \<Rightarrow> string option \<Rightarrow> rat" where
  "cell_or_zero flt v = (case cell_float flt v of Some x \<Rightarrow> x | None \<Rightarrow> 0)"

text \<open>The status and note of a table that has rows and a timestamp.\<close>

definition freshness_band :: "rat \<Rightarrow> string \<times> string" where
  "freshness_band secs =
     (if secs < fresh_seconds then (''good'', ''within the 5-minute cadence'')
      else if secs < warn_seconds then (''warning'', ''a tick or more behind'')
      else if secs < serious_seconds then (''serious'', ''hours behind'')
      else (''critical'', ''over a day behind''))"

definition freshness_tile :: "to_float \<Rightarrow> (string, string) dict \<Rightarrow> string res" where
  "freshness_tile flt row =
     (let name = (case map_of row ''table_name'' of Some s \<Rightarrow> s | None \<Rightarrow> ''?'');
          age = cell_float flt (map_of row ''lag_seconds'');
          count = rat_trunc (cell_or_zero flt (map_of row ''row_count''))
      in if count = 0 then stat_tile name ''no rows'' ''critical'' ''never written''
      else case age of
        None \<Rightarrow> stat_tile name (comma_int count) ''warning'' ''no timestamp''
      | Some secs \<Rightarrow>
          (let minutes = fdiv secs 60; (status, note) = freshness_band secs;
               shown = (if minutes < 600 then comma_fixed 0 minutes @ '' min'' else comma_fixed 1 (fdiv minutes 60) @ '' h'')
           in stat_tile name shown status (comma_int count @ '' rows '' @ middot @ '' '' @ note)))"

definition no_value_point :: "to_float \<Rightarrow> string \<Rightarrow> string \<Rightarrow> (string, string) dict \<Rightarrow> point res" where
  "no_value_point flt key value_field row =
     rbind (dict_item row value_field) (\<lambda>v. rbind (dict_item row key) (\<lambda>k.
       Inr \<lparr> pt_x = 0, pt_y = cell_or_zero flt (Some v), pt_label = k \<rparr>))"

text \<open>tuple(dict.fromkeys(xs)).\<close>

definition fromkeys :: "string list \<Rightarrow> string list" where
  "fromkeys xs = map fst (foldl (\<lambda>d x. dict_set x () d) [] xs)"

definition pivot :: "to_float \<Rightarrow> rows \<Rightarrow> string \<Rightarrow> string \<Rightarrow> string \<Rightarrow> (string list \<times> chart_series list) res" where
  "pivot flt rows key series_field value_field =
     rbind (rmap (\<lambda>r. dict_item r key) rows) (\<lambda>keys.
     rbind (rmap (\<lambda>r. dict_item r series_field) rows) (\<lambda>labels.
     rbind (rmap (\<lambda>(index, name).
         rbind (rmap (no_value_point flt key value_field) (filter (\<lambda>r. map_of r series_field = Some name) rows)) (\<lambda>points.
           Inr \<lparr> sr_name = name, sr_points = points, sr_slot = index \<rparr>)) (zip [0..<length (fromkeys labels)] (fromkeys labels))) (\<lambda>series.
       Inr (fromkeys keys, series))))"

text \<open>The counts of a day: those accepted and those of any other kind.\<close>

definition count_row :: "to_float \<Rightarrow> (string, rat) dict \<times> (string, rat) dict \<Rightarrow> (string, string) dict
    \<Rightarrow> ((string, rat) dict \<times> (string, rat) dict) res" where
  "count_row flt acc row =
     rbind (dict_item row ''kind'') (\<lambda>kind. rbind (dict_item row ''row_count'') (\<lambda>n. rbind (dict_item row ''dt'') (\<lambda>day.
       Inr (if kind = ''Accepted'' then (dict_set day (cell_or_zero flt (Some n)) (fst acc), snd acc)
         else (fst acc, dict_set day (cell_or_zero flt (Some n)) (snd acc))))))"

fun count_rows :: "to_float \<Rightarrow> (string, rat) dict \<times> (string, rat) dict \<Rightarrow> rows \<Rightarrow> ((string, rat) dict \<times> (string, rat) dict) res" where
  "count_rows flt acc [] = Inr acc"
| "count_rows flt acc (row # rows) = rbind (count_row flt acc row) (\<lambda>acc. count_rows flt acc rows)"

definition day_count :: "(string, rat) dict \<Rightarrow> string \<Rightarrow> rat" where
  "day_count d day = (case map_of d day of Some n \<Rightarrow> n | None \<Rightarrow> 0)"

definition quarantine_rate :: "(string, rat) dict \<Rightarrow> (string, rat) dict \<Rightarrow> string \<Rightarrow> rat" where
  "quarantine_rate accepted quarantined day =
     (let both = fadd (day_count accepted day) (day_count quarantined day)
      in if both \<noteq> 0 then fdiv (fmul 100 (day_count quarantined day)) both else 0)"

definition quarantine_panel :: "to_float \<Rightarrow> rows \<Rightarrow> string res" where
  "quarantine_panel flt rows = rbind (count_rows flt ([], []) rows) (\<lambda>(accepted, quarantined).
     let days = sort (remdups (map fst accepted @ map fst quarantined));
         points = map (\<lambda>day. \<lparr> pt_x = 0, pt_y = quarantine_rate accepted quarantined day, pt_label = day \<rparr>) days
     in Inr (rate_bars \<lparr> sr_name = ''Quarantine rate'', sr_points = points, sr_slot = 1 \<rparr> ''Quarantine rate''
       (''violations are never dropped, only diverted (spec '' @ section_sign @ ''5.4)'') days ''%'' 3 None))"

text \<open>The blocks of each section.\<close>

definition results_get :: "(string, rows) dict \<Rightarrow> string \<Rightarrow> rows" where
  "results_get results name = (case map_of results name of Some rs \<Rightarrow> rs | None \<Rightarrow> [])"

text \<open>tuple(tuple(r[f] for f in fields) for r in rows).\<close>

definition cells_of :: "string list \<Rightarrow> rows \<Rightarrow> string list list res" where
  "cells_of names rows = rmap (\<lambda>r. rmap (dict_item r) names) rows"

definition volume_blocks :: "to_float \<Rightarrow> int \<Rightarrow> rows \<Rightarrow> string list res" where
  "volume_blocks flt lookback_days counts =
     rbind (pivot flt counts ''dt'' ''layer'' ''row_count'') (\<lambda>(categories, series).
       if counts = [] then Inr [] else
       rbind (grouped_bars series ''Rows landed per day, by layer'' (''last '' @ int_str lookback_days @ '' days'') categories None) (\<lambda>bars.
       rbind (cells_of [''dt'', ''layer'', ''row_count''] counts) (\<lambda>cells.
         Inr [bars, table [''Day'', ''Layer'', ''Rows''] cells ''Rows landed per day''])))"

definition quarantine_blocks :: "to_float \<Rightarrow> rows \<Rightarrow> string list res" where
  "quarantine_blocks flt quarantine =
     (if quarantine = [] then Inr [] else rbind (quarantine_panel flt quarantine) (\<lambda>p. Inr [p]))"

text \<open>The points of one perpetual measure: the rows where it is a number.\<close>

fun measure_points :: "to_float \<Rightarrow> string \<Rightarrow> rows \<Rightarrow> point list res" where
  "measure_points flt field [] = Inr []"
| "measure_points flt field (r # rs) =
     rbind (dict_item r field) (\<lambda>v. case cell_float flt (Some v) of
       None \<Rightarrow> measure_points flt field rs
     | Some y \<Rightarrow> rbind (dict_item r ''ts'') (\<lambda>ts. rbind (dict_item r ''label'') (\<lambda>lab.
         rbind (measure_points flt field rs) (\<lambda>ps. Inr (\<lparr> pt_x = cell_or_zero flt (Some ts), pt_y = y, pt_label = lab \<rparr> # ps)))))"

definition perp_measures :: "(string \<times> string \<times> string \<times> bool) list" where
  "perp_measures =
     [(''mark_price'', ''Mark price'', ''what the tape already told you'', False),
      (''funding_rate'', ''Funding rate'', ''who is paying to hold the position'', True),
      (''open_interest'', ''Open interest'', ''is the move new money or shorts covering'', False)]"

definition measure_panel :: "to_float \<Rightarrow> string \<Rightarrow> rows \<Rightarrow> nat \<times> string \<times> string \<times> string \<times> bool \<Rightarrow> string res" where
  "measure_panel flt instrument_id perp = (\<lambda>(index, field, title, subtitle, zero).
     rbind (measure_points flt field perp) (\<lambda>points.
       Inr (line_panel \<lparr> sr_name = title, sr_points = points, sr_slot = index \<rparr> (instrument_id @ '' '' @ middot @ '' '' @ title) subtitle
         (Some (default_box\<lparr> bx_height := 170 \<rparr>)) zero)))"

definition showcase :: "to_float \<Rightarrow> string \<Rightarrow> rows \<Rightarrow> string list res" where
  "showcase flt instrument_id perp =
     rbind (rmap (measure_panel flt instrument_id perp) (zip [0..<3] perp_measures)) (\<lambda>panels.
       if perp = [] then Inr panels else
       rbind (cells_of [''label'', ''mark_price'', ''funding_rate'', ''open_interest''] (drop (length perp - 40) perp)) (\<lambda>cells.
         Inr (panels @ [table [''Time'', ''Mark price'', ''Funding rate'', ''Open interest''] cells
           (instrument_id @ '' perpetual context (last 40 points)'')])))"

definition macro_tile :: "(string, string) dict \<Rightarrow> string res" where
  "macro_tile r =
     rbind (dict_item r ''series_id'') (\<lambda>sid. rbind (dict_item r ''value'') (\<lambda>v.
     rbind (dict_item r ''observation_date'') (\<lambda>observed. rbind (dict_item r ''vintage_date'') (\<lambda>vintage.
       stat_tile sid v ''good'' (''obs '' @ observed @ '' '' @ middot @ '' vintage '' @ vintage)))))"

definition macro_table :: "rows \<Rightarrow> string list res" where
  "macro_table macro = (if macro = [] then Inr [] else
     rbind (cells_of [''series_id'', ''observation_date'', ''vintage_date'', ''value''] macro) (\<lambda>cells.
       Inr [table [''Series'', ''Observation'', ''Vintage'', ''Value''] cells ''Macro, as known now'']))"

definition page_footnotes :: "string list" where
  "page_footnotes = [
     ''Macro values are filtered on vintage_date, never observation_date: a CPI '' @
     ''print is stamped with the month it measures and published about six weeks '' @
     ''later, then revised. Filtering on the observation date would show a '' @
     ''backtest numbers that did not exist yet.'',
     ''The three perpetual panels share one x-axis and have separate y-axes on '' @
     ''purpose. Price, a funding rate near zero and an open interest in the tens '' @
     ''of thousands share no scale, and putting two of them on one plot with two '' @
     ''y-scales would let the author choose the correlation you see.'',
     ''Every chart has a table view. Numbers here are whatever the tables held '' @
     ''when the page was generated; the account is wiped weekly.'']"

definition page_title :: string where
  "page_title = ''Data layer '' @ emdash @ '' daily health and enrichment''"

definition page_lede :: string where
  "page_lede = ''Top row: is the pipeline running and is anything being dropped. '' @
     ''Below: what the derivatives and macro enrichment lets you see that '' @
     ''price and size alone cannot.''"

definition build_page_from_rows :: "to_float \<Rightarrow> (string, rows) dict \<Rightarrow> string \<Rightarrow> string \<Rightarrow> int \<Rightarrow> string \<Rightarrow> string res" where
  "build_page_from_rows flt results database instrument_id lookback_days generated_at =
     rbind (rmap (freshness_tile flt) (results_get results ''02_freshness.sql'')) (\<lambda>health_blocks.
     rbind (volume_blocks flt lookback_days (results_get results ''01_layer_counts.sql'')) (\<lambda>volume.
     rbind (quarantine_blocks flt (results_get results ''03_quarantine.sql'')) (\<lambda>quarantine.
     rbind (showcase flt instrument_id (results_get results ''04_perp_context.sql'')) (\<lambda>perp.
     rbind (rmap macro_tile (results_get results ''05_macro.sql'')) (\<lambda>macro_tiles.
     rbind (macro_table (results_get results ''05_macro.sql'')) (\<lambda>macro_detail.
       build_page page_title generated_at database page_lede
         [(flow ''Freshness'' health_blocks)\<lparr> sc_layout := ''tiles'' \<rparr>,
          flow ''Volume and quarantine'' (volume @ quarantine),
          flow (''Perpetual context '' @ middot @ '' '' @ instrument_id) perp,
          (flow ''Macro regime'' macro_tiles)\<lparr> sc_layout := ''tiles'' \<rparr>,
          flow ''Macro detail'' macro_detail]
         page_footnotes))))))"

text \<open>The loop of main over the queries: the results by name, and the bytes scanned.\<close>

fun run_panels :: "sql_dir \<Rightarrow> athena \<Rightarrow> string \<Rightarrow> int \<Rightarrow> string \<Rightarrow> string list \<Rightarrow> ((string, rows) dict \<times> int) res option" where
  "run_panels sql a database lookback_days instrument [] = Some (Inr ([], 0))"
| "run_panels sql a database lookback_days instrument (name # names) =
     (case rbind (sql (''dashboard/'' @ name)) (\<lambda>template. render template
          [(''database'', database), (''lookback_days'', int_str lookback_days), (''instrument_id'', instrument)]) of
        Inl e \<Rightarrow> Some (Inl e)
      | Inr statement \<Rightarrow> (case execute a statement of
          None \<Rightarrow> None
        | Some (Inl e) \<Rightarrow>
            if exn_kind e = AthenaError
            then map_option (\<lambda>r. rbind r (\<lambda>(results, scanned). Inr ((name, []) # results, scanned)))
              (run_panels sql a database lookback_days instrument names)
            else Some (Inl e)
        | Some (Inr oc) \<Rightarrow> (case fetch_rows a (o_query_id oc) 1000 of
            Inl e \<Rightarrow> Some (Inl e)
          | Inr rows \<Rightarrow> map_option (\<lambda>r. rbind r (\<lambda>(results, scanned). Inr ((name, rows) # results, scanned + o_scanned_bytes oc)))
              (run_panels sql a database lookback_days instrument names))))"

text \<open>main, from the parsed arguments and the time of day to the page it writes.\<close>

definition dashboard_main :: "sql_dir \<Rightarrow> athena \<Rightarrow> to_float \<Rightarrow> string \<Rightarrow> int \<Rightarrow> string \<Rightarrow> string res option" where
  "dashboard_main sql a flt instrument lookback_days now =
     map_option (\<lambda>r. rbind r (\<lambda>(results, scanned).
       build_page_from_rows flt results (a_database a) instrument lookback_days now))
       (run_panels sql a (a_database a) lookback_days instrument queries)"

subsection \<open>The page reads as HTML\<close>

lemma html_ok_no_tags: "CHR ''<'' \<notin> set s \<Longrightarrow> CHR ''>'' \<notin> set s \<Longrightarrow> html_ok s"
  by (induction s) (auto simp: html_ok_Cons)

lemma ok_page_style: "html_ok page_style"
  by (rule html_ok_no_tags) (simp_all add: page_style_def series_light_def series_dark_def)

lemma rmap_html_ok: "rmap f xs = Inr ys \<Longrightarrow> (\<And>x y. x \<in> set xs \<Longrightarrow> f x = Inr y \<Longrightarrow> html_ok y) \<Longrightarrow> y \<in> set ys \<Longrightarrow> html_ok y"
  using rmap_set [of f xs ys y] by blast

lemma wrapper_plain: "map_of wrappers l = Some w \<Longrightarrow> plain w"
  by (auto simp: wrappers_def markup_def split: if_splits)

lemma ok_headed: "plain w \<Longrightarrow> html_ok (concat bs) \<Longrightarrow> html_ok (headed h w bs)"
  unfolding headed_def html_ok_def [of "_ @ _"] by (simp add: html_reading)

lemma ok_section:
  assumes "section_html sc = Inr html" and "\<And>b. b \<in> set (sc_blocks sc) \<Longrightarrow> html_ok b"
  shows "html_ok html"
proof -
  have "html_ok (concat (sc_blocks sc))" by (rule html_ok_concat) (rule assms(2))
  with assms(1) show ?thesis by (auto simp: section_html_def res_simps ok_headed dest!: wrapper_plain split: if_splits)
qed

lemma ok_footnotes: "html_ok (footnotes_html notes)"
  unfolding footnotes_html_def by (rule html_ok_map) (simp add: html_ok_def html_reading)

lemma ok_document: "html_ok (concat body) \<Longrightarrow> html_ok (document title generated_at database lede body ns)"
  using ok_footnotes [of ns] ok_page_style unfolding document_def html_ok_def [of "_ @ _"] by (simp add: html_reading)

lemma ok_build_page:
  assumes "build_page title generated_at database lede sections footnotes = Inr html"
    and "\<And>sc b. sc \<in> set sections \<Longrightarrow> b \<in> set (sc_blocks sc) \<Longrightarrow> html_ok b"
  shows "html_ok html"
proof -
  obtain body where body: "rmap section_html sections = Inr body"
    using assms(1) by (auto simp: build_page_def res_simps)
  have "html_ok (concat body)"
    by (rule html_ok_concat) (rule rmap_html_ok [OF body], rule ok_section, assumption, rule assms(2))
  then show ?thesis using assms(1) body by (auto simp: build_page_def ok_document)
qed

lemma ok_volume_blocks: "volume_blocks flt n counts = Inr bs \<Longrightarrow> b \<in> set bs \<Longrightarrow> html_ok b"
  by (auto simp: volume_blocks_def res_simps ok_grouped_bars ok_table split: if_splits)

lemma ok_quarantine_panel: "quarantine_panel flt rows = Inr b \<Longrightarrow> html_ok b"
  by (auto simp: quarantine_panel_def res_simps ok_rate_bars Let_def)

lemma ok_measure_panel: "measure_panel flt i perp m = Inr b \<Longrightarrow> html_ok b"
  by (auto simp: measure_panel_def res_simps ok_line_panel split: prod.splits)

lemma ok_showcase: "showcase flt i perp = Inr bs \<Longrightarrow> b \<in> set bs \<Longrightarrow> html_ok b"
  by (auto simp: showcase_def res_simps ok_table split: if_splits dest: rmap_html_ok [OF _ ok_measure_panel])

lemma ok_freshness_tile: "freshness_tile flt row = Inr b \<Longrightarrow> html_ok b"
  by (auto simp: freshness_tile_def Let_def ok_stat_tile split: if_splits option.splits prod.splits)

lemma ok_macro_tile: "macro_tile row = Inr b \<Longrightarrow> html_ok b"
  by (auto simp: macro_tile_def res_simps ok_stat_tile)

lemma ok_macro_table: "macro_table rows = Inr bs \<Longrightarrow> b \<in> set bs \<Longrightarrow> html_ok b"
  by (auto simp: macro_table_def res_simps ok_table split: if_splits)

text \<open>
  Property C12. The page is self-contained and inert: whatever text the tables, the arguments or
  the query answers hold, a page that is built reads as HTML from end to end with nothing but the
  elements and attributes of the dashboard, none of which loads or runs anything; no value can
  open an element, close one, or leave its quotes.
\<close>

theorem page_is_inert:
  assumes "build_page_from_rows flt results database instrument_id lookback_days generated_at = Inr html"
  shows "html_run Outside html = Some Outside"
proof -
  obtain health volume quarantine perp tiles detail where b:
    "rmap (freshness_tile flt) (results_get results ''02_freshness.sql'') = Inr health"
    "volume_blocks flt lookback_days (results_get results ''01_layer_counts.sql'') = Inr volume"
    "quarantine_blocks flt (results_get results ''03_quarantine.sql'') = Inr quarantine"
    "showcase flt instrument_id (results_get results ''04_perp_context.sql'') = Inr perp"
    "rmap macro_tile (results_get results ''05_macro.sql'') = Inr tiles"
    "macro_table (results_get results ''05_macro.sql'') = Inr detail"
    using assms unfolding build_page_from_rows_def by (elim rbind_Inr_iff [THEN iffD1, elim_format] exE conjE) blast
  have q: "b \<in> set quarantine \<Longrightarrow> html_ok b" for b
    using b(3) by (auto simp: quarantine_blocks_def res_simps ok_quarantine_panel split: if_splits)
  have h: "b \<in> set health \<Longrightarrow> html_ok b" for b by (rule rmap_html_ok [OF b(1)]) (rule ok_freshness_tile)
  have t: "b \<in> set tiles \<Longrightarrow> html_ok b" for b by (rule rmap_html_ok [OF b(5)]) (rule ok_macro_tile)
  have "html_ok html"
    by (rule ok_build_page [OF assms [unfolded build_page_from_rows_def b rbind.simps]])
      (auto simp: flow_def q h t dest: ok_volume_blocks [OF b(2)] ok_showcase [OF b(4)] ok_macro_table [OF b(6)])
  then show ?thesis by (simp add: html_ok_def)
qed

subsection \<open>The pivot\<close>

lemma set_fromkeys [simp]: "set (fromkeys xs) = set xs"
proof -
  have "set (map fst (foldl (\<lambda>d x. dict_set x () d) d xs)) = set (map fst d) \<union> set xs" for d
    by (induction xs arbitrary: d) (auto simp: keys_dict_set simp del: set_map)
  from this [of "[]"] show ?thesis by (simp add: fromkeys_def)
qed

lemma distinct_fromkeys [simp]: "distinct (fromkeys xs)"
proof -
  have "distinct (map fst d) \<Longrightarrow> distinct (map fst (foldl (\<lambda>d x. dict_set x () d) d xs))" for d
    by (induction xs arbitrary: d) simp_all
  then show ?thesis by (simp add: fromkeys_def)
qed

text \<open>A bar as the pivot sees it: series, category and height; and the one a row stands for.\<close>

definition bars_of :: "chart_series list \<Rightarrow> (string \<times> string \<times> rat) list" where
  "bars_of series = concat (map (\<lambda>s. map (\<lambda>p. (sr_name s, pt_label p, pt_y p)) (sr_points s)) series)"

definition row_bar :: "to_float \<Rightarrow> string \<Rightarrow> string \<Rightarrow> string \<Rightarrow> (string, string) dict \<Rightarrow> string \<times> string \<times> rat" where
  "row_bar flt key series_field value_field r =
     (the (map_of r series_field), the (map_of r key), cell_or_zero flt (map_of r value_field))"

lemma mset_by_key:
  assumes "distinct ks" and "\<forall>x\<in>set xs. f x \<in> set ks"
  shows "mset (concat (map (\<lambda>k. filter (\<lambda>x. f x = k) xs) ks)) = mset xs"
proof -
  have "count (mset (concat (map (\<lambda>k. filter (\<lambda>x. f x = k) xs) ks))) a = (if f a \<in> set ks then count (mset xs) a else 0)" for a
    using assms(1) by (induction ks) auto
  then show ?thesis using assms(2) by (intro multiset_eqI) (auto simp: count_eq_zero_iff)
qed

lemma rmap_nth: "rmap f xs = Inr ys \<Longrightarrow> i < length xs \<Longrightarrow> f (xs ! i) = Inr (ys ! i)"
  by (simp add: rmap_Inr_iff list_all2_conv_all_nth)

lemma dict_items_the: "rmap (\<lambda>r. dict_item r k) rows = Inr vs \<Longrightarrow> vs = map (\<lambda>r. the (map_of r k)) rows"
  by (induction rows arbitrary: vs) (auto simp: res_simps)

lemma points_of_rows:
  "rmap (no_value_point flt key value_field) (filter (\<lambda>r. the (map_of r series_field) = name) rows) = Inr points \<Longrightarrow>
   map (\<lambda>p. (name, pt_label p, pt_y p)) points =
   map (row_bar flt key series_field value_field) (filter (\<lambda>r. the (map_of r series_field) = name) rows)"
  by (induction rows arbitrary: points) (auto simp: res_simps no_value_point_def row_bar_def split: if_splits)

lemma pivot_keeps:
  assumes "pivot flt rows key series_field value_field = Inr (categories, series)"
  shows "mset (bars_of series) = mset (map (row_bar flt key series_field value_field) rows) \<and>
    map sr_name series = fromkeys (map (\<lambda>r. the (map_of r series_field)) rows) \<and>
    categories = fromkeys (map (\<lambda>r. the (map_of r key)) rows) \<and> map sr_slot series = [0..<length series]"
proof -
  obtain keys labels where k: "rmap (\<lambda>r. dict_item r key) rows = Inr keys" and l: "rmap (\<lambda>r. dict_item r series_field) rows = Inr labels"
    and c: "categories = fromkeys keys"
    and s: "rmap (\<lambda>(index, name). rbind (rmap (no_value_point flt key value_field) (filter (\<lambda>r. map_of r series_field = Some name) rows))
      (\<lambda>points. Inr \<lparr> sr_name = name, sr_points = points, sr_slot = index \<rparr>)) (zip [0..<length (fromkeys labels)] (fromkeys labels)) = Inr series"
    using assms by (auto simp: pivot_def res_simps)
  have keys: "keys = map (\<lambda>r. the (map_of r key)) rows" by (rule dict_items_the [OF k])
  have labels: "labels = map (\<lambda>r. the (map_of r series_field)) rows" by (rule dict_items_the [OF l])
  let ?names = "fromkeys labels" and ?f = "\<lambda>r. the (map_of r series_field)" and ?bar = "row_bar flt key series_field value_field"
  have here: "map_of r series_field = Some name \<longleftrightarrow> ?f r = name" if "r \<in> set rows" for r name
    using that l rmap_Inr_exists [of "\<lambda>r. dict_item r series_field" rows] by (auto simp: res_simps)
  have len: "length series = length ?names" using rmap_length [OF s] by simp
  have nth: "\<exists>points. rmap (no_value_point flt key value_field) (filter (\<lambda>r. ?f r = ?names ! i) rows) = Inr points \<and>
      series ! i = \<lparr> sr_name = ?names ! i, sr_points = points, sr_slot = i \<rparr>" if "i < length ?names" for i
  proof -
    have "filter (\<lambda>r. map_of r series_field = Some (?names ! i)) rows = filter (\<lambda>r. ?f r = ?names ! i) rows"
      by (rule filter_cong [OF refl]) (rule here)
    with rmap_nth [OF s, of i] that show ?thesis by (auto simp: rbind_Inr_iff)
  qed
  have names: "map sr_name series = ?names" and slots: "map sr_slot series = [0..<length series]"
    using nth len by (auto intro!: nth_equalityI) (metis chart_series.select_convs)+
  have "map (\<lambda>s. map (\<lambda>p. (sr_name s, pt_label p, pt_y p)) (sr_points s)) series = map (\<lambda>n. map ?bar (filter (\<lambda>r. ?f r = n) rows)) ?names"
  proof (rule nth_equalityI)
    fix i
    assume "i < length (map (\<lambda>s. map (\<lambda>p. (sr_name s, pt_label p, pt_y p)) (sr_points s)) series)"
    with len have i: "i < length ?names" by simp
    from nth [OF i] obtain points where p: "rmap (no_value_point flt key value_field) (filter (\<lambda>r. ?f r = ?names ! i) rows) = Inr points"
      "series ! i = \<lparr> sr_name = ?names ! i, sr_points = points, sr_slot = i \<rparr>" by blast
    from points_of_rows [OF p(1)] p(2) i len
    show "map (\<lambda>s. map (\<lambda>p. (sr_name s, pt_label p, pt_y p)) (sr_points s)) series ! i = map (\<lambda>n. map ?bar (filter (\<lambda>r. ?f r = n) rows)) ?names ! i"
      by simp
  qed (simp add: len)
  then have "bars_of series = map ?bar (concat (map (\<lambda>n. filter (\<lambda>r. ?f r = n) rows) ?names))"
    by (simp add: bars_of_def map_concat o_def)
  moreover have "mset (concat (map (\<lambda>n. filter (\<lambda>r. ?f r = n) rows) ?names)) = mset rows"
    by (rule mset_by_key) (simp_all add: labels)
  ultimately show ?thesis using names slots by (simp add: c keys labels)
qed

text \<open>
  The pivot of the volume chart loses nothing and invents nothing: its series
  are the names of the rows, each once and in the order they first appear, its categories the keys
  likewise, and the bars of all series together are exactly the rows.
\<close>

theorem pivot_keeps_every_row:
  assumes "pivot flt rows key series_field value_field = Inr (categories, series)"
  shows "mset (bars_of series) = mset (map (row_bar flt key series_field value_field) rows) \<and>
    map sr_name series = fromkeys (map (\<lambda>r. the (map_of r series_field)) rows) \<and>
    categories = fromkeys (map (\<lambda>r. the (map_of r key)) rows) \<and> map sr_slot series = [0..<length series]"
  by (rule pivot_keeps [OF assms])

subsection \<open>The page is written\<close>

definition has_columns :: "string list \<Rightarrow> rows \<Rightarrow> bool" where
  "has_columns cs rows \<longleftrightarrow> (\<forall>r\<in>set rows. \<forall>c\<in>set cs. \<exists>v. map_of r c = Some v)"

lemma has_columns_item: "has_columns cs rows \<Longrightarrow> r \<in> set rows \<Longrightarrow> c \<in> set cs \<Longrightarrow> \<exists>v. dict_item r c = Inr v"
  by (auto simp: has_columns_def dict_item_Inr_iff)

lemma has_columns_cells: "has_columns cs rows \<Longrightarrow> set names \<subseteq> set cs \<Longrightarrow> set rows' \<subseteq> set rows \<Longrightarrow> \<exists>cells. cells_of names rows' = Inr cells"
  unfolding cells_of_def rmap_Inr_exists using has_columns_item by blast

lemma stat_tile_shown: "status \<in> {''good'', ''warning'', ''serious'', ''critical''} \<Longrightarrow> \<exists>b. stat_tile label v status note = Inr b"
  by (auto simp: stat_tile_def status_style_def dict_item_def)

lemma freshness_shown: "\<exists>b. freshness_tile flt row = Inr b"
  by (auto simp: freshness_tile_def Let_def freshness_band_def stat_tile_shown split: option.splits)

lemma pivot_shown:
  assumes "has_columns [key, series_field, value_field] rows"
  shows "\<exists>categories series. pivot flt rows key series_field value_field = Inr (categories, series) \<and>
    length series = length (fromkeys (map (\<lambda>r. the (map_of r series_field)) rows))"
proof -
  have item: "\<exists>vs. rmap (\<lambda>r. dict_item r c) rows = Inr vs" if "c \<in> set [key, series_field, value_field]" for c
    unfolding rmap_Inr_exists using has_columns_item [OF assms _ that] by blast
  obtain keys labels where k: "rmap (\<lambda>r. dict_item r key) rows = Inr keys" "rmap (\<lambda>r. dict_item r series_field) rows = Inr labels"
    using item by force
  have "\<exists>p. no_value_point flt key value_field r = Inr p" if "r \<in> set rows" for r
    using has_columns_item [OF assms that, of key] has_columns_item [OF assms that, of value_field] by (auto simp: no_value_point_def res_simps)
  then have pts: "\<exists>points. rmap (no_value_point flt key value_field) (filter P rows) = Inr points" for P
    unfolding rmap_Inr_exists by simp
  have "\<exists>s. (\<lambda>(index, name). rbind (rmap (no_value_point flt key value_field) (filter (\<lambda>r. map_of r series_field = Some name) rows))
      (\<lambda>points. Inr \<lparr> sr_name = name, sr_points = points, sr_slot = index \<rparr>)) z = Inr s" for z :: "nat \<times> string"
    using pts [of "\<lambda>r. map_of r series_field = Some (snd z)"] by (cases z) (auto simp: rbind_Inr_iff)
  then have "\<exists>series. rmap (\<lambda>(index, name). rbind (rmap (no_value_point flt key value_field) (filter (\<lambda>r. map_of r series_field = Some name) rows))
      (\<lambda>points. Inr \<lparr> sr_name = name, sr_points = points, sr_slot = index \<rparr>)) (zip [0..<length (fromkeys labels)] (fromkeys labels)) = Inr series"
    by (subst rmap_Inr_exists) blast
  with k obtain series where "pivot flt rows key series_field value_field = Inr (fromkeys keys, series)"
    by (auto simp: pivot_def res_simps)
  with pivot_keeps [OF this] show ?thesis by (metis length_map)
qed

lemma volume_shown:
  assumes "has_columns [''dt'', ''layer'', ''row_count''] counts"
    and "length (fromkeys (map (\<lambda>r. the (map_of r ''layer'')) counts)) \<le> 3"
  shows "\<exists>bs. volume_blocks flt n counts = Inr bs"
proof -
  obtain cells where c: "cells_of [''dt'', ''layer'', ''row_count''] counts = Inr cells"
    using has_columns_cells [OF assms(1)] by force
  obtain categories series where p: "pivot flt counts ''dt'' ''layer'' ''row_count'' = Inr (categories, series)" "length series \<le> 3"
    using pivot_shown [OF assms(1)] assms(2) by fastforce
  then have "\<exists>b. grouped_bars series t st categories None = Inr b" for t st
    by (simp add: grouped_bars_def series_light_def Let_def)
  with p c show ?thesis by (auto simp: volume_blocks_def res_simps)
qed

lemma count_rows_shown: "has_columns [''dt'', ''kind'', ''row_count''] rows \<Longrightarrow> \<exists>d. count_rows flt acc rows = Inr d"
proof (induction rows arbitrary: acc)
  case (Cons r rows)
  have item: "c \<in> {''dt'', ''kind'', ''row_count''} \<Longrightarrow> \<exists>v. dict_item r c = Inr v" for c
    by (rule has_columns_item [OF Cons.prems]) auto
  obtain k n d where "dict_item r ''kind'' = Inr k" "dict_item r ''row_count'' = Inr n" "dict_item r ''dt'' = Inr d"
    using item [of "''kind''"] item [of "''row_count''"] item [of "''dt''"] by auto
  then have "\<exists>acc'. count_row flt acc r = Inr acc'" by (simp add: count_row_def)
  moreover have "has_columns [''dt'', ''kind'', ''row_count''] rows" using Cons.prems by (simp add: has_columns_def)
  ultimately show ?case using Cons.IH by (auto simp: res_simps)
qed simp

lemma measure_points_shown: "has_columns [field, ''ts'', ''label''] rows \<Longrightarrow> \<exists>ps. measure_points flt field rows = Inr ps"
proof (induction rows)
  case (Cons r rows)
  then obtain ps where "measure_points flt field rows = Inr ps" by (auto simp: has_columns_def)
  moreover have item: "c \<in> {field, ''ts'', ''label''} \<Longrightarrow> \<exists>v. dict_item r c = Inr v" for c
    by (rule has_columns_item [OF Cons.prems]) auto
  obtain v ts lab where "dict_item r field = Inr v" "dict_item r ''ts'' = Inr ts" "dict_item r ''label'' = Inr lab"
    using item [of field] item [of "''ts''"] item [of "''label''"] by auto
  ultimately show ?case by (auto split: option.splits)
qed simp

lemma showcase_shown:
  assumes "has_columns [''ts'', ''label'', ''mark_price'', ''funding_rate'', ''open_interest''] perp"
  shows "\<exists>bs. showcase flt i perp = Inr bs"
proof -
  have "\<exists>b. measure_panel flt i perp m = Inr b" if "m \<in> set (zip [0..<3] perp_measures)" for m
  proof -
    obtain k field title st z where m: "m = (k, field, title, st, z)" by (cases m)
    then have "field \<in> {''mark_price'', ''funding_rate'', ''open_interest''}"
      using that by (auto simp: perp_measures_def upt_rec)
    then have "has_columns [field, ''ts'', ''label''] perp" using assms by (auto simp: has_columns_def)
    from measure_points_shown [OF this] show ?thesis by (auto simp: m measure_panel_def res_simps)
  qed
  then have "\<exists>panels. rmap (measure_panel flt i perp) (zip [0..<3] perp_measures) = Inr panels"
    unfolding rmap_Inr_exists by (rule ballI)
  moreover have "set (drop k perp) \<subseteq> set perp" for k by (rule set_drop_subset)
  then have "\<exists>cells. cells_of [''label'', ''mark_price'', ''funding_rate'', ''open_interest''] (drop k perp) = Inr cells" for k
    by (intro has_columns_cells [OF assms]) auto
  ultimately obtain panels cells where "rmap (measure_panel flt i perp) (zip [0..<3] perp_measures) = Inr panels"
    "cells_of [''label'', ''mark_price'', ''funding_rate'', ''open_interest''] (drop (length perp - 40) perp) = Inr cells" by blast
  then show ?thesis by (simp add: showcase_def)
qed

lemma macro_shown:
  assumes "has_columns [''series_id'', ''observation_date'', ''vintage_date'', ''value''] macro"
  shows "\<exists>bs. rmap macro_tile macro = Inr bs" and "\<exists>bs. macro_table macro = Inr bs"
proof -
  have "\<exists>b. macro_tile r = Inr b" if "r \<in> set macro" for r
  proof -
    have item: "c \<in> {''series_id'', ''observation_date'', ''vintage_date'', ''value''} \<Longrightarrow> \<exists>v. dict_item r c = Inr v" for c
      by (rule has_columns_item [OF assms that]) auto
    obtain s ob v x where "dict_item r ''series_id'' = Inr s" "dict_item r ''observation_date'' = Inr ob"
        "dict_item r ''vintage_date'' = Inr v" "dict_item r ''value'' = Inr x"
      using item [of "''series_id''"] item [of "''observation_date''"] item [of "''vintage_date''"] item [of "''value''"] by auto
    then show ?thesis using stat_tile_shown [of "''good''"] by (simp add: macro_tile_def)
  qed
  then show "\<exists>bs. rmap macro_tile macro = Inr bs" by (simp add: rmap_Inr_exists)
  show "\<exists>bs. macro_table macro = Inr bs" using has_columns_cells [OF assms, of "[''series_id'', ''observation_date'', ''vintage_date'', ''value'']" macro]
    by (auto simp: macro_table_def rbind_Inr_iff)
qed

text \<open>Results whose rows have the columns their queries select, with at most three layers.\<close>

definition good_results :: "(string, rows) dict \<Rightarrow> bool" where
  "good_results results \<longleftrightarrow>
     has_columns [''dt'', ''layer'', ''row_count''] (results_get results ''01_layer_counts.sql'') \<and>
     length (fromkeys (map (\<lambda>r. the (map_of r ''layer'')) (results_get results ''01_layer_counts.sql''))) \<le> 3 \<and>
     has_columns [''dt'', ''kind'', ''row_count''] (results_get results ''03_quarantine.sql'') \<and>
     has_columns [''ts'', ''label'', ''mark_price'', ''funding_rate'', ''open_interest''] (results_get results ''04_perp_context.sql'') \<and>
     has_columns [''series_id'', ''observation_date'', ''vintage_date'', ''value''] (results_get results ''05_macro.sql'')"

text \<open>
  The page one reads off the blocks of each section: a section without blocks is left out, heading
  and all.
\<close>

definition shown_section :: "string \<Rightarrow> string \<Rightarrow> string list \<Rightarrow> string" where
  "shown_section heading wrapper blocks = (if blocks = [] then [] else headed heading wrapper blocks)"

definition page_of :: "string \<Rightarrow> string \<Rightarrow> string \<Rightarrow> string list \<Rightarrow> string list \<Rightarrow> string list \<Rightarrow> string list \<Rightarrow> string list \<Rightarrow> string list \<Rightarrow> string" where
  "page_of database instrument_id now health volume quarantine perp tiles detail =
     document page_title now database page_lede
       [shown_section ''Freshness'' ''viz-tiles'' health,
        shown_section ''Volume and quarantine'' ''viz-flow'' (volume @ quarantine),
        shown_section (''Perpetual context '' @ middot @ '' '' @ instrument_id) ''viz-flow'' perp,
        shown_section ''Macro regime'' ''viz-tiles'' tiles,
        shown_section ''Macro detail'' ''viz-flow'' detail] page_footnotes"

lemma section_shown:
  "section_html (flow h bs) = Inr (shown_section h ''viz-flow'' bs)"
  "section_html ((flow h bs)\<lparr> sc_layout := ''tiles'' \<rparr>) = Inr (shown_section h ''viz-tiles'' bs)"
  by (simp_all add: section_html_def shown_section_def flow_def dict_item_def wrappers_def)

text \<open>Each list of blocks comes from the rows of one query alone.\<close>

definition blocks_of :: "to_float \<Rightarrow> string \<Rightarrow> int \<Rightarrow> (string \<Rightarrow> rows) \<Rightarrow> string list \<Rightarrow> string list \<Rightarrow> string list \<Rightarrow> string list
    \<Rightarrow> string list \<Rightarrow> string list \<Rightarrow> bool" where
  "blocks_of flt instrument_id n found health volume quarantine perp tiles detail \<longleftrightarrow>
     rmap (freshness_tile flt) (found ''02_freshness.sql'') = Inr health \<and>
     volume_blocks flt n (found ''01_layer_counts.sql'') = Inr volume \<and>
     quarantine_blocks flt (found ''03_quarantine.sql'') = Inr quarantine \<and>
     showcase flt instrument_id (found ''04_perp_context.sql'') = Inr perp \<and>
     rmap macro_tile (found ''05_macro.sql'') = Inr tiles \<and>
     macro_table (found ''05_macro.sql'') = Inr detail"

lemma page_of_blocks:
  assumes "blocks_of flt instrument_id n (results_get results) health volume quarantine perp tiles detail"
  shows "build_page_from_rows flt results database instrument_id n now =
    Inr (page_of database instrument_id now health volume quarantine perp tiles detail)"
  using assms by (simp add: blocks_of_def build_page_from_rows_def build_page_def page_of_def section_shown)

lemma blocks_shown:
  assumes "good_results results"
  shows "\<exists>health volume quarantine perp tiles detail.
    blocks_of flt instrument_id n (results_get results) health volume quarantine perp tiles detail"
proof -
  have "\<exists>health. rmap (freshness_tile flt) (results_get results ''02_freshness.sql'') = Inr health"
    unfolding rmap_Inr_exists by (intro ballI freshness_shown)
  moreover have "\<exists>volume. volume_blocks flt n (results_get results ''01_layer_counts.sql'') = Inr volume"
    using volume_shown assms unfolding good_results_def by blast
  moreover obtain d where "count_rows flt ([], []) (results_get results ''03_quarantine.sql'') = Inr d"
    using count_rows_shown assms unfolding good_results_def by blast
  then have "\<exists>q. quarantine_blocks flt (results_get results ''03_quarantine.sql'') = Inr q"
    by (cases d) (simp add: quarantine_blocks_def quarantine_panel_def Let_def)
  moreover have "\<exists>perp. showcase flt instrument_id (results_get results ''04_perp_context.sql'') = Inr perp"
    using showcase_shown assms unfolding good_results_def by blast
  moreover have "\<exists>tiles. rmap macro_tile (results_get results ''05_macro.sql'') = Inr tiles"
    "\<exists>detail. macro_table (results_get results ''05_macro.sql'') = Inr detail"
    using macro_shown assms unfolding good_results_def by blast+
  ultimately show ?thesis unfolding blocks_of_def by blast
qed

lemma page_shown:
  assumes "good_results results"
  shows "\<exists>html. build_page_from_rows flt results database instrument_id n now = Inr html"
  using blocks_shown [OF assms, of flt instrument_id n] page_of_blocks by blast

text \<open>The three panels of the perpetual context without a single point.\<close>

definition empty_panels :: "string \<Rightarrow> string list" where
  "empty_panels instrument_id = map (\<lambda>(index, field, title, subtitle, zero).
     line_panel \<lparr> sr_name = title, sr_points = [], sr_slot = index \<rparr> (instrument_id @ '' '' @ middot @ '' '' @ title) subtitle
       (Some (default_box\<lparr> bx_height := 170 \<rparr>)) zero) (zip [0..<3] perp_measures)"

lemma showcase_empty: "showcase flt instrument_id [] = Inr (empty_panels instrument_id)"
  by (simp add: showcase_def empty_panels_def measure_panel_def perp_measures_def eval_nat_numeral)

lemma blocks_of_nothing:
  assumes "blocks_of flt instrument_id n found health volume quarantine perp tiles detail"
  shows "found ''02_freshness.sql'' = [] \<Longrightarrow> health = []" and "found ''01_layer_counts.sql'' = [] \<Longrightarrow> volume = []"
    and "found ''03_quarantine.sql'' = [] \<Longrightarrow> quarantine = []"
    and "found ''04_perp_context.sql'' = [] \<Longrightarrow> perp = empty_panels instrument_id"
    and "found ''05_macro.sql'' = [] \<Longrightarrow> tiles = [] \<and> detail = []"
  using assms by (auto simp: blocks_of_def quarantine_blocks_def macro_table_def volume_blocks_def showcase_empty res_simps)

text \<open>The statement of a query file, and what the run finds for it: its rows, or none if it failed.\<close>

definition statement_of :: "sql_dir \<Rightarrow> string \<Rightarrow> int \<Rightarrow> string \<Rightarrow> string \<Rightarrow> string res" where
  "statement_of sql database n instrument name = rbind (sql (''dashboard/'' @ name)) (\<lambda>template. render template
     [(''database'', database), (''lookback_days'', int_str n), (''instrument_id'', instrument)])"

definition answered :: "athena \<Rightarrow> string \<Rightarrow> rows \<Rightarrow> bool" where
  "answered a stmt rows \<longleftrightarrow>
     (\<exists>oc. execute a stmt = Some (Inr oc) \<and> fetch_rows a (o_query_id oc) 1000 = Inr rows) \<or>
     (\<exists>e. execute a stmt = Some (Inl e) \<and> exn_kind e = AthenaError \<and> rows = [])"

lemma run_panels_answered:
  "(\<And>name. name \<in> set names \<Longrightarrow> \<exists>stmt. statement_of sql database n instrument name = Inr stmt \<and> answered a stmt (found name)) \<Longrightarrow>
   \<exists>scanned. run_panels sql a database n instrument names = Some (Inr (map (\<lambda>name. (name, found name)) names, scanned))"
proof (induction names)
  case (Cons name names)
  obtain stmt where s: "statement_of sql database n instrument name = Inr stmt" "answered a stmt (found name)"
    using Cons.prems [of name] by auto
  obtain scanned where "run_panels sql a database n instrument names = Some (Inr (map (\<lambda>name. (name, found name)) names, scanned))"
    using Cons.IH Cons.prems by auto
  with s show ?case by (auto simp: answered_def statement_of_def)
qed simp

text \<open>
  Property C27. One query failing does not cost the rest of the page: when every query either
  answers or fails in Athena, and the rows have the columns of their queries and at most three
  layers, the program writes a page whose every section is made of the rows of its own queries
  alone, headed and wrapped, in a fixed order. A failed query adds nothing to its section, and a
  section with nothing in it is left out, with one exception: a failed perpetual query leaves its
  three panels, each without points, and no table.
\<close>

theorem failed_query_costs_only_its_section:
  assumes "\<And>name. name \<in> set queries \<Longrightarrow>
      \<exists>stmt. statement_of sql (a_database a) n instrument name = Inr stmt \<and> answered a stmt (found name)"
    and "good_results (map (\<lambda>name. (name, found name)) queries)"
  shows "\<exists>health volume quarantine perp tiles detail.
    dashboard_main sql a flt instrument n now =
      Some (Inr (page_of (a_database a) instrument now health volume quarantine perp tiles detail)) \<and>
    blocks_of flt instrument n found health volume quarantine perp tiles detail \<and>
    (found ''02_freshness.sql'' = [] \<longrightarrow> health = []) \<and> (found ''01_layer_counts.sql'' = [] \<longrightarrow> volume = []) \<and>
    (found ''03_quarantine.sql'' = [] \<longrightarrow> quarantine = []) \<and>
    (found ''04_perp_context.sql'' = [] \<longrightarrow> perp = empty_panels instrument) \<and>
    (found ''05_macro.sql'' = [] \<longrightarrow> tiles = [] \<and> detail = [])"
proof -
  let ?results = "map (\<lambda>name. (name, found name)) queries"
  obtain scanned where run: "run_panels sql a (a_database a) n instrument queries = Some (Inr (?results, scanned))"
    using run_panels_answered [of queries, OF assms(1)] by blast
  obtain health volume quarantine perp tiles detail where
    b: "blocks_of flt instrument n (results_get ?results) health volume quarantine perp tiles detail"
    using blocks_shown [OF assms(2)] by blast
  then have f: "blocks_of flt instrument n found health volume quarantine perp tiles detail"
    by (simp add: blocks_of_def results_get_def queries_def)
  have "dashboard_main sql a flt instrument n now =
      Some (Inr (page_of (a_database a) instrument now health volume quarantine perp tiles detail))"
    using run page_of_blocks [OF b] by (simp add: dashboard_main_def)
  with f blocks_of_nothing [OF f] show ?thesis by blast
qed

text \<open>
  Two queries told apart by their text, and a client where the one on the perpetual context fails,
  the one on macro data has a row and the others have none.
\<close>

definition perp_or_macro :: sql_dir where
  "perp_or_macro file = Inr (if file = ''dashboard/04_perp_context.sql'' then ''PERP''
     else if file = ''dashboard/05_macro.sql'' then ''MACRO'' else ''REST'')"

definition perp_down :: athena where
  "perp_down = \<lparr> a_database = ''db'', a_workgroup = ''wg'',
     a_client = \<lparr> c_start = (\<lambda>stmt d w. Inr stmt),
       c_status = (\<lambda>qid k. Inr \<lparr> x_state = (if qid = ''PERP'' then ''FAILED'' else ''SUCCEEDED''), x_scanned = None,
         x_elapsed = None, x_reason = None \<rparr>),
       c_results = (\<lambda>qid n. Inr (if qid = ''MACRO''
         then [map Some [''series_id'', ''observation_date'', ''vintage_date'', ''value''], map Some [''CPI'', ''2025-01'', ''2025-02'', ''3'']]
         else [])) \<rparr>, a_poll_interval = 2, a_timeout = 900 \<rparr>"

definition macro_row :: "(string, string) dict" where
  "macro_row = [(''series_id'', ''CPI''), (''observation_date'', ''2025-01''), (''vintage_date'', ''2025-02''), (''value'', ''3'')]"

definition macro_only :: "string \<Rightarrow> rows" where
  "macro_only name = (if name = ''05_macro.sql'' then [macro_row] else [])"

lemma perp_down_answers:
  assumes "name \<in> set queries"
  shows "\<exists>stmt. statement_of perp_or_macro db n i name = Inr stmt \<and> answered perp_down stmt (macro_only name)"
proof -
  have t: "query_text ''PERP'' = ''PERP''" "query_text ''MACRO'' = ''MACRO''" "query_text ''REST'' = ''REST''"
    by (simp_all add: query_text_def rstrip_def is_space_def)
  have s: "statement_of perp_or_macro db n i name = perp_or_macro (''dashboard/'' @ name)"
    using assms by (auto simp: statement_of_def perp_or_macro_def render_def id_start_def queries_def)
  note run = answered_def execute_def start_and_wait_def perp_down_def t poll_loop.simps terminal_def outcome_ok_def
  have "answered perp_down ''PERP'' []" "answered perp_down ''REST'' []" "answered perp_down ''MACRO'' [macro_row]"
    by (simp_all add: run fetch_rows_def row_dict_def cell_text_def macro_row_def)
  then show ?thesis using assms unfolding s by (auto simp: perp_or_macro_def queries_def macro_only_def)
qed

theorem failed_query_costs_only_its_section_witness:
  "\<exists>tile detail. dashboard_main perp_or_macro perp_down (\<lambda>_. None) ''BTC-USD'' 7 ''now'' =
      Some (Inr (page_of ''db'' ''BTC-USD'' ''now'' [] [] [] (empty_panels ''BTC-USD'') [tile] [detail])) \<and>
    macro_tile macro_row = Inr tile"
proof -
  have good: "good_results (map (\<lambda>name. (name, macro_only name)) queries)"
    by (simp add: good_results_def results_get_def queries_def has_columns_def fromkeys_def macro_only_def macro_row_def)
  have db: "a_database perp_down = ''db''" by (simp add: perp_down_def)
  from failed_query_costs_only_its_section [where a = perp_down and sql = perp_or_macro and n = 7 and instrument = "''BTC-USD''"
      and found = macro_only and flt = "\<lambda>_. None" and now = "''now''", OF perp_down_answers good]
  show ?thesis by (auto simp: macro_only_def blocks_of_def macro_table_def res_simps db)
qed

lemma empty_page: "\<exists>html. build_page_from_rows (\<lambda>_. None) [] d i n now = Inr html"
  by (rule page_shown) (simp add: good_results_def results_get_def has_columns_def fromkeys_def)

theorem page_is_inert_witness:
  "\<exists>html. build_page_from_rows (\<lambda>_. None) [] ''<script>'' ''BTC-USD'' 7 ''now'' = Inr html \<and> html_run Outside html = Some Outside"
  using page_is_inert empty_page [of "''<script>''" "''BTC-USD''" 7 "''now''"] by blast

theorem pivot_keeps_every_row_witness:
  "\<exists>c s. pivot (\<lambda>_. Some 1) [[(''dt'', ''d''), (''layer'', ''Gold''), (''row_count'', ''1'')]] ''dt'' ''layer'' ''row_count'' = Inr (c, s) \<and>
     mset (bars_of s) = {#(''Gold'', ''d'', 1)#} \<and> map sr_name s = [''Gold'']"
proof -
  let ?rows = "[[(''dt'', ''d''), (''layer'', ''Gold''), (''row_count'', ''1'')]]"
  have "has_columns [''dt'', ''layer'', ''row_count''] ?rows" by (simp add: has_columns_def)
  from pivot_shown [OF this] obtain c s where p: "pivot (\<lambda>_. Some 1) ?rows ''dt'' ''layer'' ''row_count'' = Inr (c, s)" by blast
  from pivot_keeps_every_row [OF p] p show ?thesis
    by (simp add: row_bar_def fromkeys_def cell_or_zero_def cell_float_def)
qed

end
