(* ===== verification/Frames.thy ===== *)
theory Frames
  imports Formats Health
begin

text \<open>
  devlab/frames.py, trades_frame and dedupe. A DataFrame is its columns and its rows; pandas is a
  parameter where it decides: float parsing, sorting, and dropping duplicates. The records of a
  read have one shape (theory Stream), so the columns are the keys of the first.
\<close>

definition natural_key :: "string list" where
  "natural_key = [''venue'', ''venue_symbol'', ''trade_id'']"

definition trade_columns :: "string list" where
  "trade_columns = [''event_ts'', ''ingest_ts'', ''venue'', ''venue_symbol'', ''instrument_id'', ''trade_id'', ''price'',
     ''size'', ''notional'', ''side'', ''sequence'', ''source'', ''is_backfill'', ''latency_ms'', ''price_str'', ''size_str'',
     ''kafka_partition'', ''kafka_offset'']"

datatype cell = Raw avro | Flt rat | Time int

type_synonym frame_row = "(string, cell) dict"

record frame =
  fr_columns :: "string list"
  fr_rows :: "frame_row list"

text \<open>
  pandas: float64 of a text (None where it raises), the rows sorted by columns, and the rows
  left after dropping duplicates of columns.
\<close>

record pandas =
  pd_float :: "string \<Rightarrow> rat option"
  pd_sort :: "string list \<Rightarrow> frame_row list \<Rightarrow> frame_row list"
  pd_drop :: "string list \<Rightarrow> frame_row list \<Rightarrow> frame_row list"

definition as_float :: "pandas \<Rightarrow> string \<Rightarrow> rat res" where
  "as_float pd s = (case pd_float pd s of Some x \<Rightarrow> Inr x
     | None \<Rightarrow> Inl (Exn ValueError (''could not convert string to float: '' @ py_repr s)))"

definition long_item :: "(string, avro) dict \<Rightarrow> string \<Rightarrow> int res" where
  "long_item rec k = rbind (dict_item rec k) (\<lambda>v. case v of
     ALong i \<Rightarrow> Inr i | _ \<Rightarrow> Inl (Exn OtherError ''not a record of the trade schema''))"

text \<open>A record with the derived columns, from its price and size and their texts.\<close>

definition derived :: "(string, avro) dict \<Rightarrow> (string \<times> string) \<times> (rat \<times> rat) \<times> (int \<times> int) \<Rightarrow> frame_row" where
  "derived rec = (\<lambda>((price_str, size_str), (price, sz), (event_us, ingest_us)).
     dict_update (map (\<lambda>(k, v). (k, Raw v)) rec)
       [(''price_str'', Raw (AStr price_str)), (''size_str'', Raw (AStr size_str)), (''price'', Flt price), (''size'', Flt sz),
        (''notional'', Flt (fmul price sz)), (''event_ts'', Time event_us), (''ingest_ts'', Time ingest_us),
        (''latency_ms'', Flt (fdiv (fl_signed (of_int (ingest_us - event_us))) 1000))])"

text \<open>df[ordered + rest].\<close>

definition ordered_columns :: "string list \<Rightarrow> string list" where
  "ordered_columns cs = (let ordered = filter (\<lambda>c. c \<in> set cs) trade_columns
     in ordered @ filter (\<lambda>c. c \<notin> set ordered) cs)"

definition select :: "string list \<Rightarrow> frame_row \<Rightarrow> frame_row" where
  "select cs r = map (\<lambda>c. (c, the (map_of r c))) cs"

definition frame_of :: "pandas \<Rightarrow> frame_row list \<Rightarrow> frame" where
  "frame_of pd rows = (let cs = ordered_columns (map fst (hd rows))
     in \<lparr> fr_columns = cs, fr_rows = pd_sort pd [''event_ts''] (map (select cs) rows) \<rparr>)"

definition trades_frame :: "pandas \<Rightarrow> (string, avro) dict list \<Rightarrow> frame res" where
  "trades_frame pd records =
     (if records = [] then Inr \<lparr> fr_columns = trade_columns, fr_rows = [] \<rparr> else
      rbind (rmap (\<lambda>r. text_item r ''price'') records) (\<lambda>price_strs.
      rbind (rmap (\<lambda>r. text_item r ''size'') records) (\<lambda>size_strs.
      rbind (rmap (as_float pd) price_strs) (\<lambda>prices.
      rbind (rmap (as_float pd) size_strs) (\<lambda>sizes.
      rbind (rmap (\<lambda>r. long_item r ''event_ts_us'') records) (\<lambda>events.
      rbind (rmap (\<lambda>r. long_item r ''ingest_ts_us'') records) (\<lambda>ingests.
      rbind (rmap (dict_item (hd records)) [''venue'', ''instrument_id'', ''side'', ''source'']) (\<lambda>_.
        Inr (frame_of pd (map2 derived records (zip (zip price_strs size_strs) (zip (zip prices sizes) (zip events ingests)))))))))))))"

definition dedupe :: "pandas \<Rightarrow> frame \<Rightarrow> frame" where
  "dedupe pd df = (if fr_rows df = [] then df else
     let sort_columns = filter (\<lambda>c. c \<in> set (fr_columns df)) [''event_ts'', ''kafka_offset''];
         ordered = (if sort_columns \<noteq> [] then pd_sort pd sort_columns (fr_rows df) else fr_rows df)
     in df\<lparr> fr_rows := pd_drop pd natural_key ordered \<rparr>)"

subsection \<open>What the code relies on\<close>

text \<open>The value a time or integer column sorts by.\<close>

fun cell_int :: "cell option \<Rightarrow> int" where
  "cell_int (Some (Time i)) = i"
| "cell_int (Some (Raw (ALong i))) = i"
| "cell_int _ = 0"

definition sort_values :: "string list \<Rightarrow> frame_row \<Rightarrow> int list" where
  "sort_values cs r = map (\<lambda>c. cell_int (map_of r c)) cs"

definition key_cells :: "string list \<Rightarrow> frame_row \<Rightarrow> cell option list" where
  "key_cells ks r = map (map_of r) ks"

text \<open>drop_duplicates with keep="first".\<close>

fun firsts :: "('r \<Rightarrow> 'k) \<Rightarrow> 'r list \<Rightarrow> 'r list" where
  "firsts f [] = []"
| "firsts f (r # rs) = r # firsts f (filter (\<lambda>s. f s \<noteq> f r) rs)"

definition pandas_sorts :: "pandas \<Rightarrow> bool" where
  "pandas_sorts pd \<longleftrightarrow> (\<forall>cs rows. mset (pd_sort pd cs rows) = mset rows \<and> sorted (map (sort_values cs) (pd_sort pd cs rows)))"

definition pandas_drops :: "pandas \<Rightarrow> bool" where
  "pandas_drops pd \<longleftrightarrow> (\<forall>ks rows. pd_drop pd ks rows = firsts (key_cells ks) rows)"

lemma firsts_facts:
  "distinct (map f (firsts f rs))" "f ` set (firsts f rs) = f ` set rs" "set (firsts f rs) \<subseteq> set rs"
  by (induction f rs rule: firsts.induct) auto

lemma firsts_least: "sorted (map g rs) \<Longrightarrow> r \<in> set (firsts f rs) \<Longrightarrow> s \<in> set rs \<Longrightarrow> f s = f r \<Longrightarrow> g r \<le> (g s :: int list)"
proof (induction f rs rule: firsts.induct)
  case (2 f x rs)
  show ?case
  proof (cases "f r = f x")
    case True
    then have "r = x" using "2.prems"(2) firsts_facts(3) [of f "filter (\<lambda>s. f s \<noteq> f x) rs"] by auto
    then show ?thesis using "2.prems"(1,3) by auto
  next
    case False
    have "sorted (map g (filter (\<lambda>s. f s \<noteq> f x) rs))" using "2.prems"(1) by (simp add: sorted_filter)
    then show ?thesis using "2.IH" "2.prems" False by auto
  qed
qed simp

text \<open>
  Property C28. dedupe keeps each trade once, at its earliest arrival: of a read with event times and
  offsets, the rows left have distinct (venue, venue_symbol, trade_id), every key of the read is
  left, and each row left is a row of the read that no row of its key precedes in event time, or
  at the same event time in offset.
\<close>

theorem dedupe_keeps_earliest:
  assumes "pandas_sorts pd" and "pandas_drops pd" and "fr_rows df \<noteq> []"
    and "set [''event_ts'', ''kafka_offset''] \<subseteq> set (fr_columns df)"
  shows "let out = fr_rows (dedupe pd df) in
    distinct (map (key_cells natural_key) out) \<and> key_cells natural_key ` set out = key_cells natural_key ` set (fr_rows df) \<and>
    (\<forall>r\<in>set out. r \<in> set (fr_rows df) \<and> (\<forall>s\<in>set (fr_rows df). key_cells natural_key s = key_cells natural_key r \<longrightarrow>
      cell_int (map_of r ''event_ts'') \<le> cell_int (map_of s ''event_ts'') \<and>
      (cell_int (map_of r ''event_ts'') = cell_int (map_of s ''event_ts'') \<longrightarrow>
        cell_int (map_of r ''kafka_offset'') \<le> cell_int (map_of s ''kafka_offset''))))"
proof -
  let ?cs = "[''event_ts'', ''kafka_offset'']" and ?k = "key_cells natural_key"
  let ?sorted = "pd_sort pd ?cs (fr_rows df)"
  have out: "fr_rows (dedupe pd df) = firsts ?k ?sorted"
    using assms(2,3,4) by (simp add: dedupe_def Let_def pandas_drops_def)
  have set: "set ?sorted = set (fr_rows df)" and sorted: "sorted (map (sort_values ?cs) ?sorted)"
    using assms(1) unfolding pandas_sorts_def by (metis set_mset_mset)+
  have least: "sort_values ?cs r \<le> sort_values ?cs s" if "r \<in> set (firsts ?k ?sorted)" "s \<in> set (fr_rows df)" "?k s = ?k r" for r s
    using firsts_least [OF sorted that(1), of s] that(2,3) set by simp
  have pair: "[a, b] \<le> [c, d] \<longleftrightarrow> a < c \<or> a = c \<and> b \<le> d" for a b c d :: int by (auto simp: Cons_le_Cons)
  show ?thesis
    unfolding Let_def out using firsts_facts [of ?k ?sorted] least unfolding set sort_values_def list.map pair
    by (auto simp: set) force+
qed

text \<open>A pandas that sorts with the library's stable sort and reads every number as one half.\<close>

definition plain_pandas :: pandas where
  "plain_pandas = \<lparr> pd_float = (\<lambda>_. Some (1 / 2)), pd_sort = (\<lambda>cs. sort_key (sort_values cs)), pd_drop = (\<lambda>ks. firsts (key_cells ks)) \<rparr>"

lemma plain_pandas_facts: "pandas_sorts plain_pandas" "pandas_drops plain_pandas"
  by (simp_all add: pandas_sorts_def pandas_drops_def plain_pandas_def)

text \<open>A trade, its redelivery a second later, and the trade of another symbol with its id.\<close>

definition arrival :: "string \<Rightarrow> int \<Rightarrow> frame_row" where
  "arrival symbol us = [(''venue'', Raw (AStr ''binance'')), (''venue_symbol'', Raw (AStr symbol)),
     (''trade_id'', Raw (AStr ''1'')), (''event_ts'', Time us), (''kafka_offset'', Raw (ALong 0))]"

lemma two_left:
  assumes "set rs \<subseteq> {a, b}" and "f ` set rs = {f a, f b}" and "distinct (map f rs)" and "f a \<noteq> f b"
  shows "mset rs = {#a, b#}"
proof -
  have "f a \<in> f ` set rs" and "f b \<in> f ` set rs" using assms(2) by auto
  then obtain x y where "x \<in> set rs" "f x = f a" "y \<in> set rs" "f y = f b" by (metis imageE)
  moreover from this have "x = a" and "y = b" using assms(1,4) by auto
  ultimately have "a \<in> set rs" and "b \<in> set rs" by simp_all
  with assms(1) have "set rs = {a, b}" by blast
  moreover have "distinct rs" using assms(3) by (simp add: distinct_map)
  ultimately have "mset rs = mset_set {a, b}" using mset_set_set by metis
  then show ?thesis using assms(4) by (cases "a = b") auto
qed

theorem dedupe_keeps_earliest_witness:
  "mset (map (\<lambda>r. (map_of r ''venue_symbol'', cell_int (map_of r ''event_ts'')))
     (fr_rows (dedupe plain_pandas \<lparr> fr_columns = [''event_ts'', ''kafka_offset''],
       fr_rows = [arrival ''BTCUSDT'' 1000000, arrival ''BTCUSDT'' 0, arrival ''ETHUSDT'' 5] \<rparr>)))
   = {#(Some (Raw (AStr ''BTCUSDT'')), 0), (Some (Raw (AStr ''ETHUSDT'')), 5)#}"
proof -
  let ?df = "\<lparr> fr_columns = [''event_ts'', ''kafka_offset''],
    fr_rows = [arrival ''BTCUSDT'' 1000000, arrival ''BTCUSDT'' 0, arrival ''ETHUSDT'' 5] \<rparr>"
  let ?out = "fr_rows (dedupe plain_pandas ?df)" and ?k = "key_cells natural_key"
  have k: "?k (arrival s us) = [Some (Raw (AStr ''binance'')), Some (Raw (AStr s)), Some (Raw (AStr ''1''))]" for s us
    by (simp add: key_cells_def natural_key_def arrival_def)
  have e: "cell_int (map_of (arrival s us) ''event_ts'') = us" for s us by (simp add: arrival_def)
  from dedupe_keeps_earliest [OF plain_pandas_facts, of ?df]
  have d: "distinct (map ?k ?out)" and i: "?k ` set ?out = ?k ` set (fr_rows ?df)"
    and l: "\<forall>r\<in>set ?out. r \<in> set (fr_rows ?df) \<and> (\<forall>s\<in>set (fr_rows ?df). ?k s = ?k r \<longrightarrow>
      cell_int (map_of r ''event_ts'') \<le> cell_int (map_of s ''event_ts''))"
    by (simp_all add: Let_def)
  have sub: "set ?out \<subseteq> {arrival ''BTCUSDT'' 0, arrival ''ETHUSDT'' 5}" using l by (auto simp: k e)
  have "?k ` set (fr_rows ?df) = {?k (arrival ''BTCUSDT'' 0), ?k (arrival ''ETHUSDT'' 5)}" by (simp add: k)
  from two_left [OF sub _ d] i this have "mset ?out = {#arrival ''BTCUSDT'' 0, arrival ''ETHUSDT'' 5#}" by (simp add: k)
  then show ?thesis by (simp add: arrival_def)
qed

subsection \<open>The frame of a read\<close>

lemma derived_cells:
  "map_of (derived rec ((ps, ss), (p, s), (e, g))) ''price_str'' = Some (Raw (AStr ps))"
  "map_of (derived rec ((ps, ss), (p, s), (e, g))) ''size_str'' = Some (Raw (AStr ss))"
  "map_of (derived rec ((ps, ss), (p, s), (e, g))) ''event_ts'' = Some (Time e)"
  "map_of (derived rec ((ps, ss), (p, s), (e, g))) ''price'' = Some (Flt p)"
  "map_of (derived rec ((ps, ss), (p, s), (e, g))) ''size'' = Some (Flt s)"
  "map_of (derived rec ((ps, ss), (p, s), (e, g))) ''notional'' = Some (Flt (fmul p s))"
  by (simp_all add: derived_def dict_update_def)

definition derived_names :: "string list" where
  "derived_names = [''price_str'', ''size_str'', ''price'', ''size'', ''notional'', ''event_ts'', ''ingest_ts'', ''latency_ms'']"

lemma map_of_raw: "map_of (map (\<lambda>(k, v). (k, Raw v)) d) c = map_option Raw (map_of d c)"
  by (induction d) auto

lemma derived_raw: "c \<notin> set derived_names \<Longrightarrow> map_of (derived rec x) c = map_option Raw (map_of rec c)"
  by (cases x) (auto simp: derived_def dict_update_def derived_names_def map_of_raw split: prod.splits)

lemma derived_columns: "fst ` set (derived rec x) = fst ` set rec \<union> set derived_names"
proof -
  have "c \<in> fst ` set (derived rec x) \<longleftrightarrow> c \<in> fst ` set rec \<union> set derived_names" for c
  proof (cases "c \<in> set derived_names")
    case True
    then have "map_of (derived rec x) c \<noteq> None"
      by (cases x) (auto simp: derived_def dict_update_def derived_names_def split: prod.splits)
    with True show ?thesis by (auto simp: map_of_eq_None_iff)
  next
    case False
    from derived_raw [OF False, of rec x] have "map_of (derived rec x) c = None \<longleftrightarrow> map_of rec c = None" by simp
    with False show ?thesis by (simp add: map_of_eq_None_iff)
  qed
  then show ?thesis by blast
qed

lemma map_of_select: "c \<in> set cs \<Longrightarrow> map_of (select cs r) c = Some (the (map_of r c))"
  by (induction cs) (auto simp: select_def)

lemma ordered_columns_set: "set (ordered_columns cs) = set cs"
  by (auto simp: ordered_columns_def Let_def)

text \<open>What a row must keep of its record: the exact texts and the event time.\<close>

definition kept :: "frame_row \<Rightarrow> cell option \<times> cell option \<times> cell option" where
  "kept r = (map_of r ''price_str'', map_of r ''size_str'', map_of r ''event_ts'')"

definition owed :: "(string, avro) dict \<Rightarrow> cell option \<times> cell option \<times> cell option" where
  "owed rec = (map_option Raw (map_of rec ''price''), map_option Raw (map_of rec ''size''),
     case map_of rec ''event_ts_us'' of Some (ALong i) \<Rightarrow> Some (Time i) | _ \<Rightarrow> None)"

lemma long_item_Inr_iff [res_simps]: "long_item rec k = Inr i \<longleftrightarrow> map_of rec k = Some (ALong i)"
  by (cases "map_of rec k"; cases "the (map_of rec k)") (auto simp: long_item_def dict_item_def)

text \<open>A row of a frame with the columns cs, and the record it comes from.\<close>

definition row_of_record :: "pandas \<Rightarrow> string list \<Rightarrow> (string, avro) dict \<Rightarrow> frame_row \<Rightarrow> bool" where
  "row_of_record pd cs rec row \<longleftrightarrow> (\<exists>ps ss p s e g. row = select cs (derived rec ((ps, ss), (p, s), (e, g))) \<and>
     map_of rec ''price'' = Some (AStr ps) \<and> map_of rec ''size'' = Some (AStr ss) \<and> map_of rec ''event_ts_us'' = Some (ALong e) \<and>
     pd_float pd ps = Some p \<and> pd_float pd ss = Some s)"

lemma as_float_Inr_iff [res_simps]: "as_float pd s = Inr x \<longleftrightarrow> pd_float pd s = Some x"
  by (cases "pd_float pd s") (auto simp: as_float_def)

lemma trades_frame_rows:
  assumes "trades_frame pd records = Inr df" and "records \<noteq> []" and "pandas_sorts pd"
  obtains rows where "list_all2 (row_of_record pd (fr_columns df)) records rows" and "mset (fr_rows df) = mset rows"
    and "sorted (map (sort_values [''event_ts'']) (fr_rows df))"
    and "set (fr_columns df) = fst ` set (hd records) \<union> set derived_names"
proof -
  obtain pss sss ps ss es gs where
    p: "rmap (\<lambda>r. text_item r ''price'') records = Inr pss" and s: "rmap (\<lambda>r. text_item r ''size'') records = Inr sss"
    and f: "rmap (as_float pd) pss = Inr ps" "rmap (as_float pd) sss = Inr ss"
    and e: "rmap (\<lambda>r. long_item r ''event_ts_us'') records = Inr es" and g: "rmap (\<lambda>r. long_item r ''ingest_ts_us'') records = Inr gs"
    and df: "df = frame_of pd (map2 derived records (zip (zip pss sss) (zip (zip ps ss) (zip es gs))))"
    using assms(1,2) by (auto simp: trades_frame_def rbind_Inr_iff)
  let ?args = "zip (zip pss sss) (zip (zip ps ss) (zip es gs))"
  let ?rows = "map2 derived records ?args" let ?cs = "ordered_columns (map fst (hd ?rows))"
  have len: "length pss = length records" "length sss = length records" "length ps = length records" "length ss = length records"
    "length es = length records" "length gs = length records"
    by (simp_all add: rmap_length [OF p] rmap_length [OF s] rmap_length [OF f(1)] rmap_length [OF f(2)] rmap_length [OF e] rmap_length [OF g])
  have cols: "fr_columns df = ?cs" by (simp add: df frame_of_def Let_def)
  have row: "?rows ! i = derived (records ! i) ((pss ! i, sss ! i), (ps ! i, ss ! i), (es ! i, gs ! i))" if "i < length records" for i
    using that len by simp
  have "row_of_record pd ?cs (records ! i) (select ?cs (?rows ! i))" if "i < length records" for i
  proof -
    have "map_of (records ! i) ''price'' = Some (AStr (pss ! i))" "map_of (records ! i) ''size'' = Some (AStr (sss ! i))"
      "map_of (records ! i) ''event_ts_us'' = Some (ALong (es ! i))" "pd_float pd (pss ! i) = Some (ps ! i)" "pd_float pd (sss ! i) = Some (ss ! i)"
      using p s e f that len by (auto simp: rmap_Inr_iff list_all2_conv_all_nth res_simps)
    then show ?thesis unfolding row_of_record_def row [OF that] by blast
  qed
  then have all: "list_all2 (row_of_record pd (fr_columns df)) records (map (select ?cs) ?rows)"
    by (simp add: list_all2_conv_all_nth len cols)
  have "hd ?rows = derived (hd records) (hd ?args)" using assms(2) len by (cases records; cases ?args) auto
  then have set: "set (fr_columns df) = fst ` set (hd records) \<union> set derived_names"
    unfolding cols ordered_columns_set by (metis derived_columns set_map)
  have "mset (fr_rows df) = mset (map (select ?cs) ?rows)" and "sorted (map (sort_values [''event_ts'']) (fr_rows df))"
    using assms(3) by (simp_all add: df frame_of_def Let_def pandas_sorts_def)
  from that [OF all this set] show thesis .
qed

lemma row_of_record_kept:
  assumes "row_of_record pd cs rec row" and "set derived_names \<subseteq> set cs"
  shows "kept row = owed rec"
proof -
  have "{''price_str'', ''size_str'', ''event_ts''} \<subseteq> set cs" using assms(2) by (auto simp: derived_names_def)
  with assms(1) show ?thesis by (auto simp: row_of_record_def kept_def owed_def map_of_select derived_cells)
qed

text \<open>
  A frame loses no record and no digit: when a read becomes a frame, its rows are
  as many as the records, in event time order, and together carry exactly the price and size
  texts and event times of the records, whatever the floats beside them round to.
\<close>

theorem frame_keeps_every_record:
  assumes "trades_frame pd records = Inr df" and "pandas_sorts pd"
  shows "mset (map kept (fr_rows df)) = mset (map owed records) \<and>
    sorted (map (\<lambda>r. cell_int (map_of r ''event_ts'')) (fr_rows df))"
proof (cases "records = []")
  case True
  with assms(1) show ?thesis by (auto simp: trades_frame_def)
next
  case False
  from trades_frame_rows [OF assms(1) this assms(2)] obtain rows where
    all: "list_all2 (row_of_record pd (fr_columns df)) records rows" and m: "mset (fr_rows df) = mset rows"
    and s: "sorted (map (sort_values [''event_ts'']) (fr_rows df))"
    and cs: "set (fr_columns df) = fst ` set (hd records) \<union> set derived_names" .
  from all have "map kept rows = map owed records"
    by (induction rule: list_all2_induct) (simp_all add: row_of_record_kept cs)
  then have "mset (map kept (fr_rows df)) = mset (map owed records)" using m by (metis mset_map)
  moreover have "sorted (map (\<lambda>r. cell_int (map_of r ''event_ts'')) (fr_rows df))"
    using s by (simp add: sorted_map sort_values_def Cons_le_Cons le_less)
  ultimately show ?thesis by blast
qed

theorem frame_keeps_every_record_witness:
  "\<exists>df. trades_frame plain_pandas [to_avro example_trade, to_avro example_trade] = Inr df \<and>
     mset (map kept (fr_rows df)) = {#owed (to_avro example_trade), owed (to_avro example_trade)#}"
proof -
  have "\<exists>df. trades_frame plain_pandas [to_avro example_trade, to_avro example_trade] = Inr df"
    by (simp add: trades_frame_def text_item_def long_item_def dict_item_def to_avro_def as_float_def plain_pandas_def Let_def)
  then obtain df where df: "trades_frame plain_pandas [to_avro example_trade, to_avro example_trade] = Inr df" by blast
  from frame_keeps_every_record [OF df plain_pandas_facts(1)] df show ?thesis by auto
qed

end
