(* ===== verification/Ohlcv.thy ===== *)
theory Ohlcv
  imports Frames
begin

text \<open>
  devlab/frames.py, frame, bars and venue_comparison, and the bars of the notebook
  notebooks/02_prototype_silver.ipynb with its check on them. Grouping, float sums and pivoting
  are pandas, a parameter; a float that is not a number is a value of its own.
\<close>

subsection \<open>Rows of anything\<close>

text \<open>
  What frame is given: a dataclass with its fields and its properties in the order of its class
  (a property only where vars(type(obj)) has it), a mapping, or something else with its repr.
\<close>

datatype 'v shaped = Dataclass "(string, 'v) dict" "(string, 'v) dict" | Mapping_of "(string, 'v) dict" | Unshaped string

fun row_of :: "'v shaped \<Rightarrow> (string, 'v) dict res" where
  "row_of (Dataclass own properties) =
     Inr (dict_update own (filter (\<lambda>(name, _). take 1 name \<noteq> ''_'') properties))"
| "row_of (Mapping_of d) = Inr d"
| "row_of (Unshaped type_repr) = Inl (Exn TypeError (''expected a dataclass or mapping, got '' @ type_repr))"

definition frame_rows :: "'v shaped list \<Rightarrow> (string, 'v) dict list res" where
  "frame_rows objs = rmap row_of objs"

subsection \<open>Floats that may be no number\<close>

text \<open>The sign of a zero is not kept, so a division by zero takes the sign of its dividend.\<close>

datatype number = Num rat | Infinite bool | NaN

fun ndiv :: "number \<Rightarrow> number \<Rightarrow> number" where
  "ndiv (Num a) (Num b) = (if b \<noteq> 0 then Num (fdiv a b) else if a = 0 then NaN else Infinite (a < 0))"
| "ndiv (Num a) (Infinite _) = Num 0"
| "ndiv (Infinite neg) (Num b) = Infinite (neg \<noteq> (b < 0))"
| "ndiv _ _ = NaN"

fun nsub :: "number \<Rightarrow> number \<Rightarrow> number" where
  "nsub (Num a) (Num b) = Num (fsub a b)"
| "nsub (Num a) (Infinite neg) = Infinite (\<not> neg)"
| "nsub (Infinite neg) (Num b) = Infinite neg"
| "nsub (Infinite neg) (Infinite neg') = (if neg = neg' then NaN else Infinite neg)"
| "nsub _ _ = NaN"

fun nmul :: "number \<Rightarrow> number \<Rightarrow> number" where
  "nmul (Num a) (Num b) = Num (fmul a b)"
| "nmul (Num a) (Infinite neg) = (if a = 0 then NaN else Infinite (neg \<noteq> (a < 0)))"
| "nmul (Infinite neg) (Num b) = (if b = 0 then NaN else Infinite (neg \<noteq> (b < 0)))"
| "nmul (Infinite neg) (Infinite neg') = Infinite (neg \<noteq> neg')"
| "nmul _ _ = NaN"

text \<open>A comparison with NaN is false.\<close>

fun nless :: "number \<Rightarrow> number \<Rightarrow> bool" where
  "nless (Num a) (Num b) \<longleftrightarrow> a < b"
| "nless (Num a) (Infinite neg) \<longleftrightarrow> \<not> neg"
| "nless (Infinite neg) (Num b) \<longleftrightarrow> neg"
| "nless (Infinite neg) (Infinite neg') \<longleftrightarrow> neg \<and> \<not> neg'"
| "nless _ _ \<longleftrightarrow> False"

subsection \<open>Bars\<close>

text \<open>The key of a group is the cells of the key columns and the start of the window.\<close>

type_synonym group_key = "cell list \<times> int"

text \<open>
  pandas: the groups of rows by key columns and windows of a frequency, the sum of a float
  column, and the pivot of values by an index and a column into the columns and the rows.
\<close>

record grouping =
  gp_window :: "string \<Rightarrow> int \<Rightarrow> int"
  gp_groups :: "string list \<Rightarrow> string \<Rightarrow> frame_row list \<Rightarrow> (group_key \<times> frame_row list) list"
  gp_total :: "rat list \<Rightarrow> rat"
  gp_pivot :: "((cell \<times> int) \<times> cell \<times> number) list \<Rightarrow> cell list \<times> ((cell \<times> int) \<times> (cell, number) dict) list"

datatype by_spec = One string | Several "string list"

fun by_keys :: "by_spec \<Rightarrow> string list" where
  "by_keys (One key) = [key]"
| "by_keys (Several keys) = keys"

record ohlcv =
  o_key :: "cell list"
  o_event_ts :: int
  o_open :: rat
  o_high :: rat
  o_low :: rat
  o_close :: rat
  o_volume :: rat
  o_notional :: rat
  o_trades :: int
  o_vwap :: number

record tape =
  tp_columns :: "string list"
  tp_bars :: "ohlcv list"

fun float_item :: "frame_row \<Rightarrow> string \<Rightarrow> rat res" where
  "float_item r c = (case map_of r c of Some (Flt x) \<Rightarrow> Inr x
     | Some _ \<Rightarrow> Inl (Exn TypeError ''not a float64 column'') | None \<Rightarrow> Inl (Exn KeyError (py_repr c)))"

definition aggregate :: "grouping \<Rightarrow> group_key \<times> frame_row list \<Rightarrow> ohlcv res" where
  "aggregate gp = (\<lambda>((key, start), rows).
     rbind (rmap (\<lambda>r. float_item r ''price'') rows) (\<lambda>prices.
     rbind (rmap (\<lambda>r. float_item r ''size'') rows) (\<lambda>sizes.
     rbind (rmap (\<lambda>r. float_item r ''notional'') rows) (\<lambda>notionals.
       let volume = gp_total gp sizes; notional = gp_total gp notionals in
       Inr \<lparr> o_key = key, o_event_ts = start, o_open = hd prices, o_high = Max (set prices), o_low = Min (set prices),
         o_close = last prices, o_volume = volume, o_notional = notional, o_trades = int (length prices),
         o_vwap = ndiv (Num notional) (Num volume) \<rparr>))))"

definition require_column :: "frame \<Rightarrow> string \<Rightarrow> unit res" where
  "require_column df c = (if c \<in> set (fr_columns df) then Inr () else Inl (Exn KeyError (py_repr c)))"

definition bars :: "grouping \<Rightarrow> string \<Rightarrow> by_spec \<Rightarrow> frame \<Rightarrow> tape res" where
  "bars gp freq key_spec df = (let keys = by_keys key_spec;
     bar_columns = keys @ [''event_ts'', ''open'', ''high'', ''low'', ''close'', ''volume'', ''notional'', ''trades'', ''vwap'']
     in if fr_rows df = [] then Inr \<lparr> tp_columns = bar_columns, tp_bars = [] \<rparr> else
     rbind (rmap (require_column df) (''event_ts'' # keys)) (\<lambda>_.
     rbind (rmap (aggregate gp) (gp_groups gp keys freq (fr_rows df))) (\<lambda>out.
       Inr \<lparr> tp_columns = bar_columns, tp_bars = out \<rparr>)))"

subsection \<open>The venues side by side\<close>

record wide_row =
  w_index :: "cell \<times> int"
  w_vwaps :: "(cell, number) dict"
  w_spread :: "(number \<times> number) option"

record comparison =
  cm_venues :: "cell list"
  cm_rows :: "wide_row list"

text \<open>wide["spread"] and wide["spread_bps"], from the two venue columns.\<close>

definition spread_of :: "number \<Rightarrow> number \<Rightarrow> number \<times> number" where
  "spread_of a b = (let spread = nsub a b in (spread, ndiv (nmul (Num 10000) spread) b))"

definition quoted :: "ohlcv \<Rightarrow> (cell \<times> int) \<times> cell \<times> number" where
  "quoted b = ((o_key b ! 1, o_event_ts b), o_key b ! 0, o_vwap b)"

definition wide :: "cell list \<Rightarrow> (cell \<times> int) \<times> (cell, number) dict \<Rightarrow> wide_row" where
  "wide venues = (\<lambda>(index, cells). \<lparr> w_index = index, w_vwaps = cells,
     w_spread = (if length venues = 2
       then Some (spread_of (the (map_of cells (venues ! 0))) (the (map_of cells (venues ! 1)))) else None) \<rparr>)"

definition venue_comparison :: "grouping \<Rightarrow> string \<Rightarrow> frame \<Rightarrow> comparison res" where
  "venue_comparison gp freq df = (if fr_rows df = [] then Inr \<lparr> cm_venues = [], cm_rows = [] \<rparr> else
     rbind (bars gp freq (Several [''venue'', ''instrument_id'']) df) (\<lambda>per_venue.
       let (venues, rows) = gp_pivot gp (map quoted (tp_bars per_venue))
       in Inr \<lparr> cm_venues = venues, cm_rows = map (wide venues) rows \<rparr>))"

subsection \<open>The prototype of the notebook\<close>

text \<open>
  The bars whose VWAP lies outside low..high by more than the tolerance of 1e-9 of the high.
\<close>

definition tolerance :: "ohlcv \<Rightarrow> rat" where
  "tolerance b = fmul (fl_signed (1 / 10 ^ 9)) \<bar>o_high b\<bar>"

definition outside :: "ohlcv list \<Rightarrow> ohlcv list" where
  "outside bs = filter (\<lambda>b. nless (o_vwap b) (Num (fsub (o_low b) (tolerance b))) \<or>
     nless (Num (fadd (o_high b) (tolerance b))) (o_vwap b)) bs"

definition prototype_silver :: "pandas \<Rightarrow> grouping \<Rightarrow> (string, avro) dict list \<Rightarrow> (frame \<times> ohlcv list \<times> ohlcv list) res" where
  "prototype_silver pd gp records =
     rbind (trades_frame pd records) (\<lambda>raw.
     let silver = dedupe pd raw in
     rbind (bars gp ''1min'' (One ''instrument_id'') silver) (\<lambda>tape.
       Inr (silver, tp_bars tape, outside (tp_bars tape))))"

subsection \<open>What the code relies on\<close>

text \<open>
  groupby with observed=True: one group for each key that a row has, with the rows of that key in
  the order of the frame; a row with a null in a key column is in none.
\<close>

definition column_key :: "string list \<Rightarrow> frame_row \<Rightarrow> cell list option" where
  "column_key keys r = (if \<exists>c\<in>set keys. map_of r c \<in> {None, Some (Raw ANull)} then None
     else Some (map (\<lambda>c. the (map_of r c)) keys))"

definition group_key_of :: "grouping \<Rightarrow> string list \<Rightarrow> string \<Rightarrow> frame_row \<Rightarrow> group_key option" where
  "group_key_of gp keys freq r =
     map_option (\<lambda>key. (key, gp_window gp freq (cell_int (map_of r ''event_ts'')))) (column_key keys r)"

definition groups_rows :: "grouping \<Rightarrow> bool" where
  "groups_rows gp \<longleftrightarrow> (\<forall>keys freq rows. distinct (map fst (gp_groups gp keys freq rows)) \<and>
     set (gp_groups gp keys freq rows) = (\<lambda>k. (k, filter (\<lambda>r. group_key_of gp keys freq r = Some k) rows)) `
       {k. Some k \<in> group_key_of gp keys freq ` set rows})"

text \<open>The sum of a column of floats that are not negative, to a relative error of 1e-11.\<close>

definition sums_closely :: "grouping \<Rightarrow> bool" where
  "sums_closely gp \<longleftrightarrow> (\<forall>xs. (\<forall>x\<in>set xs. 0 \<le> x) \<longrightarrow> \<bar>gp_total gp xs - sum_list xs\<bar> \<le> sum_list xs / 10 ^ 11)"

lemma group_lengths:
  assumes "distinct ks" and "set ks = {k. Some k \<in> f ` set rs}"
  shows "(\<Sum>k\<leftarrow>ks. length (filter (\<lambda>r. f r = Some k) rs)) = length (filter (\<lambda>r. f r \<noteq> None) rs)"
proof -
  have "(\<Sum>k\<leftarrow>ks. length (filter (\<lambda>r. f r = Some k) rs)) = (\<Sum>k\<in>set ks. length (filter (\<lambda>r. f r = Some k) rs))"
    by (rule sum_list_distinct_conv_sum_set [OF assms(1)])
  also have "\<dots> = (\<Sum>k\<in>set ks. card {i. i < length rs \<and> f (rs ! i) = Some k})" by (simp add: length_filter_conv_card)
  also have "\<dots> = card (\<Union>k\<in>set ks. {i. i < length rs \<and> f (rs ! i) = Some k})"
    by (rule card_UN_disjoint [symmetric]) auto
  also have "(\<Union>k\<in>set ks. {i. i < length rs \<and> f (rs ! i) = Some k}) = {i. i < length rs \<and> f (rs ! i) \<noteq> None}"
  proof -
    have "k \<in> set ks" if "i < length rs" "f (rs ! i) = Some k" for i k
      unfolding assms(2) using that by (metis (mono_tags) image_eqI mem_Collect_eq nth_mem)
    then show ?thesis by auto
  qed
  finally show ?thesis by (simp add: length_filter_conv_card)
qed

lemma groups_cover:
  assumes "groups_rows gp"
  shows "(\<Sum>g\<leftarrow>gp_groups gp keys freq rows. length (snd g)) =
    length (filter (\<lambda>r. group_key_of gp keys freq r \<noteq> None) rows)"
proof -
  let ?gs = "gp_groups gp keys freq rows" and ?f = "group_key_of gp keys freq"
  have d: "distinct (map fst ?gs)" and s: "set ?gs = (\<lambda>k. (k, filter (\<lambda>r. ?f r = Some k) rows)) ` {k. Some k \<in> ?f ` set rows}"
    using assms by (simp_all add: groups_rows_def)
  have "length (snd g) = length (filter (\<lambda>r. ?f r = Some (fst g)) rows)" if "g \<in> set ?gs" for g
    using that unfolding s by auto
  then have "(\<Sum>g\<leftarrow>?gs. length (snd g)) = (\<Sum>k\<leftarrow>map fst ?gs. length (filter (\<lambda>r. ?f r = Some k) rows))"
    by (simp add: o_def cong: map_cong)
  also have "set (map fst ?gs) = {k. Some k \<in> ?f ` set rows}" unfolding set_map s by force
  then have "(\<Sum>k\<leftarrow>map fst ?gs. length (filter (\<lambda>r. ?f r = Some k) rows)) = length (filter (\<lambda>r. ?f r \<noteq> None) rows)"
    by (rule group_lengths [OF d])
  finally show ?thesis .
qed

lemma aggregate_Inr:
  assumes "aggregate gp g = Inr b"
  obtains prices sizes notionals where "rmap (\<lambda>r. float_item r ''price'') (snd g) = Inr prices"
    and "rmap (\<lambda>r. float_item r ''size'') (snd g) = Inr sizes" and "rmap (\<lambda>r. float_item r ''notional'') (snd g) = Inr notionals"
    and "o_trades b = int (length prices)" and "o_low b = Min (set prices)" and "o_high b = Max (set prices)"
    and "o_vwap b = ndiv (Num (gp_total gp notionals)) (Num (gp_total gp sizes))"
  using assms by (cases g) (auto simp: aggregate_def rbind_Inr_iff Let_def)

lemma aggregate_trades: "aggregate gp g = Inr b \<Longrightarrow> o_trades b = int (length (snd g))"
  by (elim aggregate_Inr) (simp add: rmap_length)

lemma bars_Inr:
  assumes "bars gp freq spec df = Inr tape" and "fr_rows df \<noteq> []"
  shows "rmap (aggregate gp) (gp_groups gp (by_keys spec) freq (fr_rows df)) = Inr (tp_bars tape)"
  using assms by (auto simp: bars_def Let_def rbind_Inr_iff)

lemma bars_count_rows:
  assumes "bars gp freq spec df = Inr tape" and "groups_rows gp"
  shows "(\<Sum>b\<leftarrow>tp_bars tape. o_trades b) = int (length (filter (\<lambda>r. group_key_of gp (by_keys spec) freq r \<noteq> None) (fr_rows df)))"
proof (cases "fr_rows df = []")
  case True
  with assms(1) show ?thesis by (auto simp: bars_def Let_def)
next
  case False
  from bars_Inr [OF assms(1) False]
  have "list_all2 (\<lambda>g b. aggregate gp g = Inr b) (gp_groups gp (by_keys spec) freq (fr_rows df)) (tp_bars tape)"
    by (simp add: rmap_Inr_iff)
  then have "(\<Sum>b\<leftarrow>tp_bars tape. o_trades b) = int (\<Sum>g\<leftarrow>gp_groups gp (by_keys spec) freq (fr_rows df). length (snd g))"
    by (induction rule: list_all2_induct) (simp_all add: aggregate_trades)
  then show ?thesis by (simp only: groups_cover [OF assms(2)])
qed

lemma dedupe_rows:
  assumes "pandas_sorts pd" and "pandas_drops pd"
  shows "distinct (map (key_cells natural_key) (fr_rows (dedupe pd df)))"
    and "key_cells natural_key ` set (fr_rows (dedupe pd df)) = key_cells natural_key ` set (fr_rows df)"
    and "set (fr_rows (dedupe pd df)) \<subseteq> set (fr_rows df)"
proof -
  have "fr_rows df = [] \<or> (\<exists>rows. set rows = set (fr_rows df) \<and> fr_rows (dedupe pd df) = firsts (key_cells natural_key) rows)"
    using assms unfolding pandas_sorts_def pandas_drops_def dedupe_def Let_def
    by (cases "fr_rows df = []") (simp_all, metis set_mset_mset)
  then consider "fr_rows df = []" | rows where "set rows = set (fr_rows df)"
    "fr_rows (dedupe pd df) = firsts (key_cells natural_key) rows" by blast
  note cases = this
  show "distinct (map (key_cells natural_key) (fr_rows (dedupe pd df)))"
    by (rule cases) (simp_all add: dedupe_def firsts_facts)
  show "key_cells natural_key ` set (fr_rows (dedupe pd df)) = key_cells natural_key ` set (fr_rows df)"
    by (rule cases) (simp_all add: dedupe_def firsts_facts)
  show "set (fr_rows (dedupe pd df)) \<subseteq> set (fr_rows df)"
    by (rule cases) (simp_all add: dedupe_def, metis firsts_facts(3))
qed

text \<open>The rows of a frame made by trades_frame are priced by the floats of their texts.\<close>

definition float_row :: "pandas \<Rightarrow> (string, avro) dict \<Rightarrow> frame_row \<Rightarrow> bool" where
  "float_row pd rec r \<longleftrightarrow> (\<exists>ps ss p s. map_of rec ''price'' = Some (AStr ps) \<and> pd_float pd ps = Some p \<and>
     map_of rec ''size'' = Some (AStr ss) \<and> pd_float pd ss = Some s \<and> map_of r ''price'' = Some (Flt p) \<and>
     map_of r ''size'' = Some (Flt s) \<and> map_of r ''notional'' = Some (Flt (fmul p s)))"

lemma float_row_of_record: "row_of_record pd cs rec r \<Longrightarrow> set derived_names \<subseteq> set cs \<Longrightarrow> float_row pd rec r"
proof -
  assume r: "row_of_record pd cs rec r" and "set derived_names \<subseteq> set cs"
  then have "{''price'', ''size'', ''notional''} \<subseteq> set cs" by (auto simp: derived_names_def)
  with r show ?thesis unfolding row_of_record_def float_row_def by (auto simp: map_of_select derived_cells)
qed

lemma frame_float_rows:
  assumes "trades_frame pd records = Inr raw" and "pandas_sorts pd" and "r \<in> set (fr_rows raw)"
  shows "\<exists>rec\<in>set records. float_row pd rec r"
proof (cases "records = []")
  case True
  with assms(1,3) show ?thesis by (auto simp: trades_frame_def)
next
  case False
  from trades_frame_rows [OF assms(1) this assms(2)] obtain rows where
    all: "list_all2 (row_of_record pd (fr_columns raw)) records rows" and m: "mset (fr_rows raw) = mset rows"
    and cs: "set (fr_columns raw) = fst ` set (hd records) \<union> set derived_names" .
  have "r \<in> set rows" using assms(3) by (metis m set_mset_mset)
  from list_all2_right [OF all this] obtain rec where "rec \<in> set records" "row_of_record pd (fr_columns raw) rec r" by blast
  with float_row_of_record cs show ?thesis by blast
qed

lemma float_row_items:
  "float_row pd rec r \<Longrightarrow> c \<in> {''price'', ''size'', ''notional''} \<Longrightarrow> \<exists>x. float_item r c = Inr x"
  by (auto simp: float_row_def)

lemma rmap_returns: "\<forall>x\<in>set xs. \<exists>y. f x = Inr y \<Longrightarrow> \<exists>ys. rmap f xs = Inr ys"
proof -
  assume "\<forall>x\<in>set xs. \<exists>y. f x = Inr y"
  from bchoice [OF this] obtain g where "\<forall>x\<in>set xs. f x = Inr (g x)" ..
  then have "rmap f xs = Inr (map g xs)" by (intro rmap_all_Inr) blast
  then show ?thesis by blast
qed

lemma aggregate_returns:
  assumes "\<forall>r\<in>set (snd g). \<exists>rec. float_row pd rec r"
  shows "\<exists>b. aggregate gp g = Inr b"
proof -
  have "\<exists>ys. rmap (\<lambda>r. float_item r c) (snd g) = Inr ys" if "c \<in> {''price'', ''size'', ''notional''}" for c
    by (intro rmap_returns ballI) (use assms float_row_items that in blast)
  from this [of "''price''"] this [of "''size''"] this [of "''notional''"]
  show ?thesis by (cases g) (auto simp: aggregate_def Let_def)
qed

lemma group_rows_sub: "groups_rows gp \<Longrightarrow> g \<in> set (gp_groups gp keys freq rows) \<Longrightarrow> set (snd g) \<subseteq> set rows \<and> snd g \<noteq> []"
  by (auto simp: groups_rows_def filter_empty_conv)

text \<open>After the frame is made the prototype does not fail.\<close>

lemma prototype_returns:
  assumes "trades_frame pd records = Inr raw" and "pandas_sorts pd" and "pandas_drops pd" and "groups_rows gp"
  shows "\<exists>bs. prototype_silver pd gp records = Inr (dedupe pd raw, bs, outside bs)"
proof -
  let ?silver = "dedupe pd raw"
  have "\<exists>tape. bars gp ''1min'' (One ''instrument_id'') ?silver = Inr tape"
  proof (cases "fr_rows ?silver = []")
    case True
    then show ?thesis by (simp add: bars_def)
  next
    case False
    then have ne: "fr_rows raw \<noteq> []" by (auto simp: dedupe_def)
    then have rec: "records \<noteq> []" using assms(1) by (auto simp: trades_frame_def)
    have "fr_columns ?silver = fr_columns raw" by (simp add: dedupe_def Let_def)
    moreover from trades_frame_rows [OF assms(1) rec assms(2)]
    have "set (fr_columns raw) = fst ` set (hd records) \<union> set derived_names" by blast
    moreover have "''instrument_id'' \<in> fst ` set (hd records)"
    proof -
      have "\<exists>v. map_of (hd records) ''instrument_id'' = Some v" using assms(1) rec by (auto simp: trades_frame_def res_simps)
      then show ?thesis by (metis map_of_eq_None_iff option.distinct(1))
    qed
    ultimately have "rmap (require_column ?silver) [''event_ts'', ''instrument_id''] = Inr [(), ()]"
      by (simp add: require_column_def derived_names_def)
    moreover have "\<exists>out. rmap (aggregate gp) (gp_groups gp [''instrument_id''] ''1min'' (fr_rows ?silver)) = Inr out"
    proof (intro rmap_returns ballI, rule aggregate_returns, rule ballI)
      fix g r
      assume "g \<in> set (gp_groups gp [''instrument_id''] ''1min'' (fr_rows ?silver))" and "r \<in> set (snd g)"
      then have "r \<in> set (fr_rows raw)" using group_rows_sub [OF assms(4)] dedupe_rows(3) [OF assms(2,3), of raw] by blast
      then show "\<exists>rec. float_row pd rec r" using frame_float_rows [OF assms(1,2)] by blast
    qed
    ultimately show ?thesis using False by (auto simp: bars_def Let_def)
  qed
  then show ?thesis by (auto simp: prototype_silver_def assms(1) Let_def)
qed

subsection \<open>Each trade is counted once\<close>

lemma silver_key_cells:
  assumes "row_of_record pd cs rec row" and "set natural_key \<union> {''instrument_id''} \<subseteq> set cs"
    and "\<forall>c\<in>set (''instrument_id'' # natural_key). \<exists>s. map_of rec c = Some (AStr s)"
  shows "key_cells natural_key row = map (map_option Raw) (map (map_of rec) natural_key)"
    and "\<exists>s. map_of row ''instrument_id'' = Some (Raw (AStr s))"
proof -
  have "map_of row c = map_option Raw (map_of rec c)" if c: "c \<in> set (''instrument_id'' # natural_key)" for c
  proof -
    from c have "c \<notin> set derived_names" by (auto simp: natural_key_def derived_names_def)
    moreover obtain s where "map_of rec c = Some (AStr s)" using c assms(3) by blast
    moreover have "c \<in> set cs" using c assms(2) by auto
    ultimately show ?thesis using assms(1) by (auto simp: row_of_record_def map_of_select derived_raw)
  qed
  then show "key_cells natural_key row = map (map_option Raw) (map (map_of rec) natural_key)"
    and "\<exists>s. map_of row ''instrument_id'' = Some (Raw (AStr s))"
    using assms(3) by (auto simp: key_cells_def)
qed

text \<open>
  Property C30. The bars of the prototype count each trade once: however often a trade was
  redelivered, by the stream, by a repair or from an archive, the trade counts of the one-minute
  bars add up to the number of distinct (venue, venue_symbol, trade_id) among the records read.
\<close>

theorem bars_count_each_trade_once:
  assumes "pandas_sorts pd" and "pandas_drops pd" and "groups_rows gp"
    and "trades_frame pd records = Inr raw"
    and "\<forall>r\<in>set records. \<forall>c\<in>set (''instrument_id'' # natural_key). \<exists>s. map_of r c = Some (AStr s)"
  shows "\<exists>silver bs out. prototype_silver pd gp records = Inr (silver, bs, out) \<and>
    (\<Sum>b\<leftarrow>bs. o_trades b) = int (card ((\<lambda>r. map (map_of r) natural_key) ` set records))"
proof -
  note raw = assms(4)
  obtain silver bs tape where returns: "prototype_silver pd gp records = Inr (silver, bs, outside bs)"
    and silver: "silver = dedupe pd raw"
    and tape: "bars gp ''1min'' (One ''instrument_id'') silver = Inr tape" and bs: "bs = tp_bars tape"
    using prototype_returns [OF raw assms(1,2,3)] by (auto simp: prototype_silver_def rbind_Inr_iff Let_def raw)
  let ?k = "key_cells natural_key" and ?id = "\<lambda>r. map (map_of r) natural_key"
  have keys: "?k ` set (fr_rows raw) = map (map_option Raw) ` ?id ` set records \<and>
    (\<forall>row\<in>set (fr_rows raw). \<exists>s. map_of row ''instrument_id'' = Some (Raw (AStr s)))"
  proof (cases "records = []")
    case True
    with raw show ?thesis by (auto simp: trades_frame_def)
  next
    case False
    from trades_frame_rows [OF raw this assms(1)] obtain rows where
      all: "list_all2 (row_of_record pd (fr_columns raw)) records rows" and m: "mset (fr_rows raw) = mset rows"
      and cs: "set (fr_columns raw) = fst ` set (hd records) \<union> set derived_names" .
    have "c \<in> fst ` set (hd records)" if "c \<in> set (''instrument_id'' # natural_key)" for c
    proof -
      from assms(5) hd_in_set [OF False] that obtain s where "map_of (hd records) c = Some (AStr s)" by blast
      then show ?thesis by (metis map_of_eq_None_iff option.distinct(1))
    qed
    then have sub: "set natural_key \<union> {''instrument_id''} \<subseteq> set (fr_columns raw)" by (auto simp: cs)
    from all assms(5) have "map ?k rows = map (\<lambda>r. map (map_option Raw) (?id r)) records \<and>
        (\<forall>row\<in>set rows. \<exists>s. map_of row ''instrument_id'' = Some (Raw (AStr s)))"
    proof (induction rule: list_all2_induct)
      case (Cons rec recs row rows)
      note head = silver_key_cells [OF Cons(1) sub]
      from Cons(3,4) head show ?case by simp
    qed simp
    then have k: "map ?k rows = map (map (map_option Raw)) (map ?id records)"
      and i: "\<forall>row\<in>set rows. \<exists>s. map_of row ''instrument_id'' = Some (Raw (AStr s))" by simp_all
    have "set (fr_rows raw) = set rows" by (metis m set_mset_mset)
    with arg_cong [OF k, of set] i show ?thesis by (simp only: set_map)
  qed
  note rows = dedupe_rows [OF assms(1,2), of raw, folded silver]
  have "group_key_of gp [''instrument_id''] ''1min'' r \<noteq> None" if "r \<in> set (fr_rows silver)" for r
  proof -
    from that rows(3) have "r \<in> set (fr_rows raw)" by blast
    with keys obtain s where "map_of r ''instrument_id'' = Some (Raw (AStr s))" by blast
    then show ?thesis by (simp add: group_key_of_def column_key_def)
  qed
  then have "filter (\<lambda>r. group_key_of gp [''instrument_id''] ''1min'' r \<noteq> None) (fr_rows silver) = fr_rows silver"
    by (intro filter_True) blast
  then have "(\<Sum>b\<leftarrow>bs. o_trades b) = int (length (fr_rows silver))"
    using bars_count_rows [OF tape assms(3)] by (simp add: bs)
  also have "length (fr_rows silver) = card (?k ` set (fr_rows silver))"
    using distinct_card [OF rows(1)] by simp
  also have "\<dots> = card (map (map_option Raw) ` ?id ` set records)" using keys rows(2) by simp
  also have "\<dots> = card (?id ` set records)"
    by (intro card_image inj_on_subset [OF inj_mapI subset_UNIV] option.inj_map injI) simp
  finally show ?thesis using returns by blast
qed

subsection \<open>The average price lies in its bar\<close>

text \<open>A row whose price and size are floats that are not negative and whose notional is their product.\<close>

definition priced :: "frame_row \<Rightarrow> rat \<Rightarrow> rat \<Rightarrow> bool" where
  "priced r p s \<longleftrightarrow> map_of r ''price'' = Some (Flt p) \<and> map_of r ''size'' = Some (Flt s) \<and>
     map_of r ''notional'' = Some (Flt (fmul p s)) \<and> 0 \<le> p \<and> 0 \<le> s"

lemma priced_rows:
  assumes "\<forall>r\<in>set rows. \<exists>p s. priced r p s"
  obtains xs where "rmap (\<lambda>r. float_item r ''price'') rows = Inr (map fst xs)"
    and "rmap (\<lambda>r. float_item r ''size'') rows = Inr (map snd xs)"
    and "rmap (\<lambda>r. float_item r ''notional'') rows = Inr (map (\<lambda>(p, s). fmul p s) xs)"
    and "\<forall>(p, s)\<in>set xs. 0 \<le> p \<and> 0 \<le> s"
proof -
  from assms have "\<forall>r\<in>set rows. \<exists>x. priced r (fst x) (snd x)" by auto
  from bchoice [OF this] obtain f where f: "\<forall>r\<in>set rows. priced r (fst (f r)) (snd (f r))" ..
  show thesis
    by (rule that [of "map f rows"]) (use f in \<open>auto simp: priced_def case_prod_beta intro!: rmap_all_Inr\<close>)
qed

text \<open>The exact sums of a bar: the notional is the volume times something between low and high.\<close>

lemma notional_bounds:
  assumes "\<forall>(p, s)\<in>set xs. 0 \<le> p \<and> 0 \<le> s \<and> lo \<le> p \<and> p \<le> (hi :: rat)"
  shows "(\<Sum>(p, s)\<leftarrow>xs. fmul p s) \<le> hi * (1 + 1 / 2 ^ 53) * (\<Sum>(p, s)\<leftarrow>xs. s)"
    and "lo * (1 - 1 / 2 ^ 53) * (\<Sum>(p, s)\<leftarrow>xs. s) \<le> (\<Sum>(p, s)\<leftarrow>xs. fmul p s)"
proof -
  have "fmul p s \<le> hi * (1 + 1 / 2 ^ 53) * s \<and> lo * (1 - 1 / 2 ^ 53) * s \<le> fmul p s" if "(p, s) \<in> set xs" for p s
  proof -
    from that assms have x: "0 \<le> p" "0 \<le> s" "lo \<le> p" "p \<le> hi" by auto
    have "fmul p s \<le> p * s * (1 + 1 / 2 ^ 53)" and "p * s * (1 - 1 / 2 ^ 53) \<le> fmul p s"
      using x by (simp_all only: fmul_def fl_signed_le fl_signed_ge mult_nonneg_nonneg)
    moreover have "p * s * (1 + 1 / 2 ^ 53) \<le> hi * s * (1 + 1 / 2 ^ 53)" and "lo * s * (1 - 1 / 2 ^ 53) \<le> p * s * (1 - 1 / 2 ^ 53)"
      using x by (intro mult_right_mono; simp)+
    ultimately show ?thesis by (simp only: mult.assoc mult.commute [of s]) linarith
  qed
  then show "(\<Sum>(p, s)\<leftarrow>xs. fmul p s) \<le> hi * (1 + 1 / 2 ^ 53) * (\<Sum>(p, s)\<leftarrow>xs. s)"
    and "lo * (1 - 1 / 2 ^ 53) * (\<Sum>(p, s)\<leftarrow>xs. s) \<le> (\<Sum>(p, s)\<leftarrow>xs. fmul p s)"
    unfolding sum_list_const_mult [symmetric] by (auto intro!: sum_list_mono)
qed

text \<open>The computed average, with the errors of both sums and of the division.\<close>

lemma quotient_bounds:
  assumes tn: "\<bar>tn - n\<bar> \<le> n / 10 ^ 11" and tv: "\<bar>tv - v\<bar> \<le> v / 10 ^ 11" and pos: "0 < v" and lo: "0 \<le> lo" and hi: "0 \<le> hi"
    and n: "n \<le> hi * (1 + 1 / 2 ^ 53) * v" "lo * (1 - 1 / 2 ^ 53) * v \<le> n"
  shows "fdiv tn tv \<le> hi * (1 + 1 / 10 ^ 10)" and "lo * (1 - 1 / 10 ^ 10) \<le> (fdiv tn tv :: rat)" and "0 < tv"
proof -
  have v: "v * (1 - 1 / 10 ^ 11) \<le> tv" "tv \<le> v * (1 + 1 / 10 ^ 11)" using tv unfolding abs_le_iff by (simp_all add: algebra_simps)
  have m: "n * (1 - 1 / 10 ^ 11) \<le> tn" "tn \<le> n * (1 + 1 / 10 ^ 11)" using tn unfolding abs_le_iff by (simp_all add: algebra_simps)
  have "0 < v * (1 - 1 / 10 ^ 11)" using pos by simp
  then show tpos: "0 < tv" using v(1) by linarith
  have "0 \<le> lo * (1 - 1 / 2 ^ 53) * v" using lo pos by simp
  then have n0: "0 \<le> n" using n(2) by linarith
  then have "0 \<le> n * (1 - 1 / 10 ^ 11)" by (intro mult_nonneg_nonneg) simp_all
  with m(1) have t0: "0 \<le> tn" by linarith
  have q0: "0 \<le> tn / tv" using t0 tpos by simp
  have "tn \<le> hi * (1 + 1 / 10 ^ 10) / (1 + 1 / 2 ^ 53) * tv"
  proof -
    have "tn \<le> hi * (1 + 1 / 2 ^ 53) * v * (1 + 1 / 10 ^ 11)"
      using m(2) mult_right_mono [OF n(1), of "1 + 1 / 10 ^ 11"] by simp
    also have "\<dots> = hi * v * ((1 + 1 / 2 ^ 53) * (1 + 1 / 10 ^ 11))" by (simp only: ac_simps)
    also have "\<dots> \<le> hi * v * ((1 + 1 / 10 ^ 10) / (1 + 1 / 2 ^ 53) * (1 - 1 / 10 ^ 11))"
      using hi pos by (intro mult_left_mono) simp_all
    also have "\<dots> = hi * (1 + 1 / 10 ^ 10) / (1 + 1 / 2 ^ 53) * (v * (1 - 1 / 10 ^ 11))" by simp
    also have "\<dots> \<le> hi * (1 + 1 / 10 ^ 10) / (1 + 1 / 2 ^ 53) * tv"
      using hi by (intro mult_left_mono [OF v(1)]) simp
    finally show ?thesis .
  qed
  then have "tn / tv \<le> hi * (1 + 1 / 10 ^ 10) / (1 + 1 / 2 ^ 53)" using tpos by (simp only: pos_divide_le_eq)
  then have "tn / tv * (1 + 1 / 2 ^ 53) \<le> hi * (1 + 1 / 10 ^ 10)" by (rule iffD1 [OF pos_le_divide_eq, rotated]) simp
  with fl_signed_le [OF q0] show "fdiv tn tv \<le> hi * (1 + 1 / 10 ^ 10)" unfolding fdiv_def by (rule order_trans)
  have "lo * (1 - 1 / 10 ^ 10) / (1 - 1 / 2 ^ 53) * tv \<le> tn"
  proof -
    have "lo * (1 - 1 / 10 ^ 10) / (1 - 1 / 2 ^ 53) * tv \<le> lo * (1 - 1 / 10 ^ 10) / (1 - 1 / 2 ^ 53) * (v * (1 + 1 / 10 ^ 11))"
      using lo by (intro mult_left_mono [OF v(2)]) simp
    also have "\<dots> = lo * v * ((1 - 1 / 10 ^ 10) / (1 - 1 / 2 ^ 53) * (1 + 1 / 10 ^ 11))" by simp
    also have "\<dots> \<le> lo * v * ((1 - 1 / 2 ^ 53) * (1 - 1 / 10 ^ 11))"
      using lo pos by (intro mult_left_mono) simp_all
    also have "\<dots> = lo * (1 - 1 / 2 ^ 53) * v * (1 - 1 / 10 ^ 11)" by (simp only: ac_simps)
    also have "\<dots> \<le> tn" using m(1) mult_right_mono [OF n(2), of "1 - 1 / 10 ^ 11"] by simp
    finally show ?thesis .
  qed
  then have "lo * (1 - 1 / 10 ^ 10) / (1 - 1 / 2 ^ 53) \<le> tn / tv" using tpos by (simp only: pos_le_divide_eq)
  then have "lo * (1 - 1 / 10 ^ 10) \<le> tn / tv * (1 - 1 / 2 ^ 53)" by (rule iffD1 [OF pos_divide_le_eq, rotated]) simp
  then show "lo * (1 - 1 / 10 ^ 10) \<le> fdiv tn tv" unfolding fdiv_def using fl_signed_ge [OF q0] by (rule order_trans)
qed

text \<open>The limits of the check leave more room than that.\<close>

lemma limit_bounds:
  assumes "0 \<le> lo" and "lo \<le> (hi :: rat)" and tol: "tol = fmul (fl_signed (1 / 10 ^ 9)) \<bar>hi\<bar>"
  shows "hi * (1 + 1 / 10 ^ 10) \<le> fadd hi tol" and "fsub lo tol \<le> lo * (1 - 1 / 10 ^ 10)"
proof -
  have hi: "0 \<le> hi" using assms by linarith
  have c: "1 / 10 ^ 9 * (1 - 1 / 2 ^ 53) \<le> fl_signed (1 / 10 ^ 9)" by (rule fl_signed_ge) simp
  then have c0: "0 \<le> fl_signed (1 / 10 ^ 9)" by (simp add: fl_signed_nonneg)
  have "hi * (1 / 10 ^ 9 * (1 - 1 / 2 ^ 53)) * (1 - 1 / 2 ^ 53) \<le> hi * fl_signed (1 / 10 ^ 9) * (1 - 1 / 2 ^ 53)"
    using hi by (intro mult_right_mono mult_left_mono [OF c]) simp_all
  also have "\<dots> \<le> fmul (fl_signed (1 / 10 ^ 9)) \<bar>hi\<bar>"
    using fl_signed_ge [of "fl_signed (1 / 10 ^ 9) * hi"] c0 hi by (simp add: fmul_def mult.commute)
  finally have t: "hi * (1 / 10 ^ 9 * (1 - 1 / 2 ^ 53) * (1 - 1 / 2 ^ 53)) \<le> tol" by (simp add: tol)
  have t2: "hi * (5 / 10 ^ 10) \<le> tol"
  proof -
    have "hi * (5 / 10 ^ 10) \<le> hi * (1 / 10 ^ 9 * (1 - 1 / 2 ^ 53) * (1 - 1 / 2 ^ 53))"
      using hi by (intro mult_left_mono) simp_all
    with t show ?thesis by linarith
  qed
  have "0 \<le> hi * (5 / 10 ^ 10)" using hi by simp
  with t2 have t0: "0 \<le> tol" by linarith
  have "hi * (1 + 1 / 10 ^ 10) \<le> hi * ((1 + 5 / 10 ^ 10) * (1 - 1 / 2 ^ 53))" using hi by (intro mult_left_mono) simp_all
  also have "\<dots> = (hi + hi * (5 / 10 ^ 10)) * (1 - 1 / 2 ^ 53)" by (simp only: algebra_simps)
  also have "\<dots> \<le> (hi + tol) * (1 - 1 / 2 ^ 53)" using t2 by (intro mult_right_mono) simp_all
  also have "\<dots> \<le> fadd hi tol" unfolding fadd_def using hi t0 by (intro fl_signed_ge) simp
  finally show "hi * (1 + 1 / 10 ^ 10) \<le> fadd hi tol" .
  show "fsub lo tol \<le> lo * (1 - 1 / 10 ^ 10)"
  proof (cases "0 \<le> lo - tol")
    case True
    have "fsub lo tol \<le> (lo - tol) * (1 + 1 / 2 ^ 53)" unfolding fsub_def by (rule fl_signed_le [OF True])
    also have "\<dots> \<le> (lo - lo * (5 / 10 ^ 10)) * (1 + 1 / 2 ^ 53)"
      using t2 mult_right_mono [OF assms(2), of "5 / 10 ^ 10"] by (intro mult_right_mono) simp_all
    also have "\<dots> = lo * ((1 - 5 / 10 ^ 10) * (1 + 1 / 2 ^ 53))" by (simp only: algebra_simps)
    also have "\<dots> \<le> lo * (1 - 1 / 10 ^ 10)" using assms(1) by (intro mult_left_mono) simp_all
    finally show ?thesis .
  next
    case False
    then have "fsub lo tol \<le> 0" using fl_signed_nonneg [of "tol - lo"] fl_signed_minus [of "tol - lo"] by (simp add: fsub_def)
    also have "0 \<le> lo * (1 - 1 / 10 ^ 10)" using assms(1) by simp
    finally show ?thesis .
  qed
qed

lemma outside_each: "\<forall>b\<in>set bs. outside [b] = [] \<Longrightarrow> outside bs = []"
  unfolding outside_def by (induction bs) (simp_all split: if_splits)

lemma bar_inside:
  assumes "aggregate gp g = Inr b" and "snd g \<noteq> []" and "\<forall>r\<in>set (snd g). \<exists>p s. priced r p s" and "sums_closely gp"
  shows "outside [b] = []"
proof -
  obtain xs where x: "rmap (\<lambda>r. float_item r ''price'') (snd g) = Inr (map fst xs)"
    "rmap (\<lambda>r. float_item r ''size'') (snd g) = Inr (map snd xs)"
    "rmap (\<lambda>r. float_item r ''notional'') (snd g) = Inr (map (\<lambda>(p, s). fmul p s) xs)"
    and pos: "\<forall>(p, s)\<in>set xs. 0 \<le> p \<and> 0 \<le> s"
    by (rule priced_rows [OF assms(3)])
  let ?v = "\<Sum>(p, s)\<leftarrow>xs. s" and ?n = "\<Sum>(p, s)\<leftarrow>xs. fmul p s"
  let ?tv = "gp_total gp (map snd xs)" and ?tn = "gp_total gp (map (\<lambda>(p, s). fmul p s) xs)"
  have b: "o_low b = Min (fst ` set xs)" "o_high b = Max (fst ` set xs)" "o_vwap b = ndiv (Num ?tn) (Num ?tv)"
    using aggregate_Inr [OF assms(1), unfolded x] by fastforce+
  have "xs \<noteq> []" using assms(2) rmap_length [OF x(1)] by auto
  then have ne: "fst ` set xs \<noteq> {}" by simp
  have "o_low b \<le> p \<and> p \<le> o_high b" if "(p, s) \<in> set xs" for p s
    using that unfolding b by (intro conjI Min_le Max_ge) force+
  with pos have lohi: "\<forall>(p, s)\<in>set xs. 0 \<le> p \<and> 0 \<le> s \<and> o_low b \<le> p \<and> p \<le> o_high b" by blast
  from Min_in [OF _ ne] obtain p s where "(p, s) \<in> set xs" "o_low b = p" unfolding b by auto
  with lohi have lo: "0 \<le> o_low b" "o_low b \<le> o_high b" by blast+
  have "0 \<le> fmul p s" if "(p, s) \<in> set xs" for p s using pos that by (auto simp: fmul_def intro!: fl_signed_nonneg)
  then have tn: "\<bar>?tn - ?n\<bar> \<le> ?n / 10 ^ 11" and tv: "\<bar>?tv - ?v\<bar> \<le> ?v / 10 ^ 11"
    using assms(4) pos unfolding sums_closely_def by (auto simp: case_prod_beta' comp_def)
  have v0: "0 \<le> ?v" using pos by (intro sum_list_nonneg) auto
  show ?thesis
  proof (cases "?v = 0")
    case True
    with notional_bounds [OF lohi] have "?n = 0" by simp
    with True tn tv have "?tn = 0" "?tv = 0" by simp_all
    then show ?thesis by (simp add: outside_def b)
  next
    case False
    with v0 have "0 < ?v" by simp
    note q = quotient_bounds [OF tn tv this lo(1) order_trans [OF lo] notional_bounds [OF lohi]]
    note l = limit_bounds [OF lo tolerance_def]
    from q(1) l(1) have "fdiv ?tn ?tv \<le> fadd (o_high b) (tolerance b)" by (rule order_trans)
    moreover from l(2) q(2) have "fsub (o_low b) (tolerance b) \<le> fdiv ?tn ?tv" by (rule order_trans)
    ultimately show ?thesis using q(3) by (simp add: outside_def b(3) not_less)
  qed
qed

text \<open>
  Property C29. The notebook's check of its bars finds nothing: when no price or size read is
  negative, and pandas sums such floats to a relative error of 1e-11, every one-minute bar has its
  VWAP within low..high to the tolerance of the check, with each product, sum, division and limit
  rounded as binary64, or has no volume and a VWAP that is no number.
\<close>

theorem average_price_in_bar:
  assumes "pandas_sorts pd" and "pandas_drops pd" and "groups_rows gp" and "sums_closely gp"
    and "trades_frame pd records = Inr raw"
    and "\<forall>r\<in>set records. \<forall>c\<in>{''price'', ''size''}. \<forall>s x. map_of r c = Some (AStr s) \<and> pd_float pd s = Some x \<longrightarrow> 0 \<le> x"
  shows "\<exists>silver bs. prototype_silver pd gp records = Inr (silver, bs, [])"
proof -
  obtain bs tape where returns: "prototype_silver pd gp records = Inr (dedupe pd raw, bs, outside bs)"
    and tape: "bars gp ''1min'' (One ''instrument_id'') (dedupe pd raw) = Inr tape" and bs: "bs = tp_bars tape"
    using prototype_returns [OF assms(5,1,2,3)] by (auto simp: prototype_silver_def rbind_Inr_iff Let_def assms(5))
  have "outside [b] = []" if "b \<in> set bs" for b
  proof -
    have "fr_rows (dedupe pd raw) \<noteq> []" using that tape bs by (auto simp: bars_def)
    from bars_Inr [OF tape this]
    have "list_all2 (\<lambda>g b. aggregate gp g = Inr b) (gp_groups gp [''instrument_id''] ''1min'' (fr_rows (dedupe pd raw))) bs"
      by (simp add: bs rmap_Inr_iff)
    from list_all2_right [OF this that] obtain g where
      g: "g \<in> set (gp_groups gp [''instrument_id''] ''1min'' (fr_rows (dedupe pd raw)))" and a: "aggregate gp g = Inr b" by blast
    have "\<exists>p s. priced r p s" if "r \<in> set (snd g)" for r
    proof -
      have "r \<in> set (fr_rows raw)" using that g group_rows_sub [OF assms(3)] dedupe_rows(3) [OF assms(1,2), of raw] by blast
      then obtain rec where "rec \<in> set records" "float_row pd rec r" using frame_float_rows [OF assms(5,1)] by blast
      with assms(6) show ?thesis unfolding float_row_def priced_def by blast
    qed
    then show ?thesis using bar_inside [OF a] group_rows_sub [OF assms(3) g] assms(4) by blast
  qed
  then have "outside bs = []" using outside_each by blast
  with returns show ?thesis by simp
qed

text \<open>
  A grouping by whole minutes in the order of first appearance, with correctly rounded sums, and a
  pivot that takes the first value of a cell.
\<close>

definition empty_grouping :: grouping where
  "empty_grouping = \<lparr> gp_window = (\<lambda>_ us. us - us mod 60000000), gp_groups = (\<lambda>_ _ _. []),
     gp_total = (\<lambda>xs. fl_signed (sum_list xs)),
     gp_pivot = (\<lambda>xs. let held = filter (\<lambda>(_, _, x). x \<noteq> NaN) xs; venues = remdups (map (\<lambda>(_, v, _). v) held) in
       (venues, map (\<lambda>i. (i, map (\<lambda>v. (v, case map_of (map (\<lambda>(i, v, x). ((i, v), x)) held) (i, v) of Some x \<Rightarrow> x | None \<Rightarrow> NaN)) venues))
         (remdups (map fst held)))) \<rparr>"

definition plain_grouping :: grouping where
  "plain_grouping = empty_grouping\<lparr> gp_groups := (\<lambda>keys freq rows.
     map (\<lambda>k. (k, filter (\<lambda>r. group_key_of empty_grouping keys freq r = Some k) rows))
       (remdups (List.map_filter (group_key_of empty_grouping keys freq) rows))) \<rparr>"

lemma plain_grouping_facts: "groups_rows plain_grouping" "sums_closely plain_grouping"
proof -
  have "gp_window plain_grouping = gp_window empty_grouping" by (simp add: plain_grouping_def)
  then have key: "group_key_of plain_grouping = group_key_of empty_grouping" by (intro ext) (simp only: group_key_of_def)
  have "k \<in> set (List.map_filter f xs) \<longleftrightarrow> Some k \<in> f ` set xs" for f :: "frame_row \<Rightarrow> group_key option" and k xs
    by (induction xs) (auto simp: map_filter_simps split: option.splits)
  then have "{k. Some k \<in> f ` set xs} = set (List.map_filter f xs)" for f :: "frame_row \<Rightarrow> group_key option" and xs by blast
  then show "groups_rows plain_grouping"
    unfolding groups_rows_def key by (simp add: plain_grouping_def o_def)
  have "\<bar>fl_signed (sum_list xs) - sum_list xs\<bar> \<le> sum_list xs / 10 ^ 11" if "\<forall>x\<in>set xs. 0 \<le> x" for xs
  proof -
    have "0 \<le> sum_list xs" using that by (intro sum_list_nonneg) blast
    then have "\<bar>sum_list xs\<bar> / 2 ^ 53 \<le> sum_list xs / 10 ^ 11" by (simp add: frac_le)
    with fl_signed_err [of "sum_list xs"] show ?thesis by (rule order_trans)
  qed
  then show "sums_closely plain_grouping" by (simp add: sums_closely_def plain_grouping_def empty_grouping_def)
qed

lemma example_frame: "\<exists>raw. trades_frame plain_pandas [to_avro example_trade, to_avro example_trade] = Inr raw"
  by (simp add: trades_frame_def text_item_def long_item_def dict_item_def to_avro_def as_float_def plain_pandas_def Let_def)

theorem bars_count_each_trade_once_witness:
  "\<exists>silver bs out. prototype_silver plain_pandas plain_grouping [to_avro example_trade, to_avro example_trade] =
     Inr (silver, bs, out) \<and> (\<Sum>b\<leftarrow>bs. o_trades b) = 1"
proof -
  obtain raw where "trades_frame plain_pandas [to_avro example_trade, to_avro example_trade] = Inr raw" using example_frame by blast
  from bars_count_each_trade_once [OF plain_pandas_facts plain_grouping_facts(1) this]
  show ?thesis by (simp add: to_avro_def natural_key_def)
qed

theorem average_price_in_bar_witness:
  "\<exists>silver bs. prototype_silver plain_pandas plain_grouping [to_avro example_trade, to_avro example_trade] = Inr (silver, bs, [])"
proof -
  obtain raw where "trades_frame plain_pandas [to_avro example_trade, to_avro example_trade] = Inr raw" using example_frame by blast
  from average_price_in_bar [OF plain_pandas_facts plain_grouping_facts this]
  show ?thesis by (auto simp: plain_pandas_def)
qed

end
