(* ===== verification/Research.thy ===== *)
theory Research
  imports Ohlcv Target
begin

text \<open>
  notebooks/04_stream_product_research.ipynb: the choice of target and profile, the captured
  window, its latency, the integrity of its records, the imbalance of its sides, and the
  recommendations drawn from them. The volatility ranking and the spread summary (theory Market)
  enter as their row count and their samples.
\<close>

subsection \<open>Target, profile and capture\<close>

definition runtime_target :: "(string, string) dict \<Rightarrow> string" where
  "runtime_target env = (case map_of env ''FDAI_TARGET'' of Some t \<Rightarrow> t | None \<Rightarrow> ''local'')"

definition profiles :: "(string, int \<times> rat) dict" where
  "profiles = [(''quick'', (20000, 60)), (''deep'', (200000, 600))]"

text \<open>The label of the target, with the limit and the seconds of the run mode.\<close>

definition research_profile :: "(string, string) dict \<Rightarrow> string \<Rightarrow> (string \<times> int \<times> rat) res" where
  "research_profile env run_mode =
     (let runtime = runtime_target env; target = (if runtime = ''terraform'' then ''msk'' else runtime) in
      if target \<notin> {''local'', ''msk''} then Inl (Exn ValueError (''TARGET must be '' @ py_repr ''local'' @ '' or '' @ py_repr ''msk''))
      else case map_of profiles run_mode of
        None \<Rightarrow> Inl (Exn ValueError (''RUN_MODE must be '' @ py_repr ''quick'' @ '' or '' @ py_repr ''deep''))
      | Some profile \<Rightarrow> Inr (target, profile))"

record capture =
  ca_raw :: frame
  ca_clean :: frame
  ca_captured :: int
  ca_deduplicated :: int
  ca_event_start :: int
  ca_event_end :: int
  ca_event_duration :: rat
  ca_venues :: int
  ca_instruments :: int

definition event_us :: "frame_row \<Rightarrow> int" where
  "event_us r = cell_int (map_of r ''event_ts'')"

text \<open>Series.nunique: the distinct values that are not null.\<close>

definition n_unique :: "string \<Rightarrow> frame_row list \<Rightarrow> int" where
  "n_unique c rows = int (length (remdups (filter (\<lambda>v. v \<notin> {None, Some (Raw ANull)}) (map (\<lambda>r. map_of r c) rows))))"

definition capture_window :: "pandas \<Rightarrow> (string, avro) dict list \<Rightarrow> capture res" where
  "capture_window pd records = rbind (trades_frame pd records) (\<lambda>raw_df.
     if fr_rows raw_df = [] then
       Inl (Exn RuntimeError ''No trades were captured; verify the preflight and producer before continuing.'')
     else let clean_df = dedupe pd raw_df; events = set (map event_us (fr_rows raw_df)) in
       Inr \<lparr> ca_raw = raw_df, ca_clean = clean_df, ca_captured = int (length (fr_rows raw_df)),
         ca_deduplicated = int (length (fr_rows clean_df)), ca_event_start = Min events, ca_event_end = Max events,
         ca_event_duration = of_int (Max events - Min events) / 1000000,
         ca_venues = n_unique ''venue'' (fr_rows raw_df), ca_instruments = n_unique ''instrument_id'' (fr_rows raw_df) \<rparr>)"

subsection \<open>Latency\<close>

text \<open>
  What pandas and numpy compute over a series: groups by columns, quantiles, the mean and the
  population standard deviation of counts, and the order that sorts a list of ranks.
\<close>

record research =
  rs_groups :: "string list \<Rightarrow> frame_row list \<Rightarrow> (cell list \<times> frame_row list) list"
  rs_quantile :: "rat \<Rightarrow> rat list \<Rightarrow> rat"
  rs_mean :: "int list \<Rightarrow> rat"
  rs_std :: "int list \<Rightarrow> rat"
  rs_order :: "int list \<Rightarrow> nat list"

record latency_row =
  la_scope :: string
  la_name :: cell
  la_observations :: int
  la_median_ms :: rat
  la_p90_ms :: rat
  la_p95_ms :: rat
  la_p99_ms :: rat
  la_max_ms :: rat

definition latency_quantiles :: "research \<Rightarrow> string \<Rightarrow> cell \<Rightarrow> rat list \<Rightarrow> latency_row" where
  "latency_quantiles rs scope name xs =
     \<lparr> la_scope = scope, la_name = name, la_observations = int (length xs), la_median_ms = rs_quantile rs (1 / 2) xs,
       la_p90_ms = rs_quantile rs (9 / 10) xs, la_p95_ms = rs_quantile rs (95 / 100) xs,
       la_p99_ms = rs_quantile rs (99 / 100) xs, la_max_ms = Max (set xs) \<rparr>"

definition latencies :: "frame_row list \<Rightarrow> rat list res" where
  "latencies rows = rmap (\<lambda>r. float_item r ''latency_ms'') rows"

text \<open>The row of all trades, of every venue, and of every instrument with at least 100 trades.\<close>

definition latency_rows :: "research \<Rightarrow> frame_row list \<Rightarrow> latency_row list res" where
  "latency_rows rs rows =
     rbind (latencies rows) (\<lambda>all.
      rbind (rmap (\<lambda>(key, g). rbind (latencies g) (\<lambda>xs. Inr (latency_quantiles rs ''venue'' (hd key) xs)))
        (rs_groups rs [''venue''] rows)) (\<lambda>venues.
      rbind (rmap (\<lambda>(key, g). rbind (latencies g) (\<lambda>xs. Inr (latency_quantiles rs ''instrument'' (hd key) xs)))
        (filter (\<lambda>(key, g). 100 \<le> length g) (rs_groups rs [''instrument_id''] rows))) (\<lambda>instruments.
        Inr (latency_quantiles rs ''all'' (Raw (AStr ''all'')) all # venues @ instruments))))"

record latency_summary =
  ls_rows :: "latency_row list"
  ls_negative :: int
  ls_extreme :: int
  ls_freshness :: rat

text \<open>now is the clock when the cell runs, in microseconds.\<close>

definition latency_summary :: "research \<Rightarrow> int \<Rightarrow> frame_row list \<Rightarrow> latency_summary res" where
  "latency_summary rs now rows = rbind (latency_rows rs rows) (\<lambda>table. rbind (latencies rows) (\<lambda>xs.
     let p99 = rs_quantile rs (99 / 100) xs in
     Inr \<lparr> ls_rows = table, ls_negative = int (length (filter (\<lambda>x. x < 0) xs)), ls_extreme = int (length (filter (\<lambda>x. p99 < x) xs)),
       ls_freshness = max 0 (of_int (now - Max (set (map event_us rows))) / 1000000) \<rparr>))"

subsection \<open>Integrity\<close>

text \<open>duplicated(subset=NATURAL_KEY, keep=False): the rows whose key another row has.\<close>

definition duplicated_rows :: "frame_row list \<Rightarrow> frame_row list" where
  "duplicated_rows rows = filter (\<lambda>r. 1 < length (filter (\<lambda>s. key_cells natural_key s = key_cells natural_key r) rows)) rows"

definition conflict_fields :: "string list" where
  "conflict_fields = [''price_str'', ''size_str'', ''side'', ''event_ts'']"

text \<open>nunique(dropna=False), greater than 1.\<close>

definition several_values :: "string \<Rightarrow> frame_row list \<Rightarrow> bool" where
  "several_values c rows = (1 < length (remdups (map (\<lambda>r. map_of r c) rows)))"

definition conflicting_keys :: "research \<Rightarrow> frame_row list \<Rightarrow> int" where
  "conflicting_keys rs rows = (let duplicate_rows = duplicated_rows rows in
     if duplicate_rows = [] then 0
     else int (length (filter (\<lambda>(key, g). \<exists>c\<in>set conflict_fields. several_values c g)
       (rs_groups rs natural_key duplicate_rows))))"

text \<open>The counts of the partitions, and their coefficient of variation.\<close>

definition partition_profile :: "research \<Rightarrow> frame_row list \<Rightarrow> int list" where
  "partition_profile rs rows = map (\<lambda>(_, g). int (length g)) (rs_groups rs [''kafka_partition''] rows)"

definition partition_cv :: "research \<Rightarrow> int list \<Rightarrow> number" where
  "partition_cv rs counts = (if counts = [] \<or> rs_mean rs counts = 0 then NaN
     else ndiv (Num (rs_std rs counts)) (Num (rs_mean rs counts)))"

text \<open>diff().lt(0).sum() over each group of the records, in the order they were read.\<close>

fun falls :: "int list \<Rightarrow> int" where
  "falls (a # b # r) = (if b < a then 1 else 0) + falls (b # r)"
| "falls _ = 0"

definition arrival_rows :: "(string, avro) dict list \<Rightarrow> frame_row list" where
  "arrival_rows records = map (map (\<lambda>(k, v). (k, Raw v))) records"

definition regressions :: "research \<Rightarrow> string list \<Rightarrow> string \<Rightarrow> (string, avro) dict list \<Rightarrow> int" where
  "regressions rs keys c records =
     sum_list (map (\<lambda>(_, g). falls (map (\<lambda>r. cell_int (map_of r c)) g)) (rs_groups rs keys (arrival_rows records)))"

record quality_metric =
  qm_metric :: string
  qm_value :: number
  qm_observations :: int

definition not_negative :: "string \<Rightarrow> frame_row list \<Rightarrow> bool res" where
  "not_negative c rows = rbind (rmap (\<lambda>r. float_item r c) rows) (\<lambda>xs. Inr (\<forall>x\<in>set xs. 0 \<le> x))"

definition py_assert :: "bool \<Rightarrow> unit res" where
  "py_assert b = (if b then Inr () else Inl (Exn AssertionError []))"

definition metric_list :: "research \<Rightarrow> capture \<Rightarrow> (string, avro) dict list \<Rightarrow> gap_report \<Rightarrow> quality_metric list" where
  "metric_list rs ca records gap_report = (let raw = fr_rows (ca_raw ca);
       duplicates = int (length (duplicated_rows raw)); arrived = int (length records);
       counts = partition_profile rs (fr_rows (ca_clean ca)) in
     [\<lparr> qm_metric = ''duplicate_row_rate'', qm_value = ndiv (Num (of_int duplicates)) (Num (of_int (int (length raw)))),
        qm_observations = int (length raw) \<rparr>,
      \<lparr> qm_metric = ''conflicting_duplicate_keys'', qm_value = Num (of_int (conflicting_keys rs raw)), qm_observations = duplicates \<rparr>,
      \<lparr> qm_metric = ''sequence_missing'', qm_value = Num (of_int (gr_missing gap_report)), qm_observations = gr_checked gap_report \<rparr>,
      \<lparr> qm_metric = ''partition_count_cv'', qm_value = partition_cv rs counts, qm_observations = int (length counts) \<rparr>,
      \<lparr> qm_metric = ''event_time_regressions'',
        qm_value = Num (of_int (regressions rs [''venue'', ''venue_symbol''] ''event_ts_us'' records)), qm_observations = arrived \<rparr>,
      \<lparr> qm_metric = ''offset_regressions'',
        qm_value = Num (of_int (regressions rs [''kafka_partition''] ''kafka_offset'' records)), qm_observations = arrived \<rparr>])"

definition quality_metrics :: "research \<Rightarrow> capture \<Rightarrow> (string, avro) dict list \<Rightarrow> quality_metric list res" where
  "quality_metrics rs ca records = (let clean = fr_rows (ca_clean ca) in
     rbind (sequence_gaps records) (\<lambda>gap_report.
     rbind (not_negative ''size'' clean) (\<lambda>sizes. rbind (py_assert sizes) (\<lambda>_.
     rbind (not_negative ''notional'' clean) (\<lambda>notionals. rbind (py_assert notionals) (\<lambda>_.
     rbind (py_assert (duplicated_rows clean = [])) (\<lambda>_. Inr (metric_list rs ca records gap_report))))))))"

subsection \<open>The sides\<close>

text \<open>side_activity["notional"].get(label, 0.0), over the sides in lower case.\<close>

definition side_notional :: "grouping \<Rightarrow> string \<Rightarrow> frame_row list \<Rightarrow> rat res" where
  "side_notional gp label rows =
     (let sided = filter (\<lambda>r. case map_of r ''side'' of Some (Raw (AStr s)) \<Rightarrow> lower s = label | _ \<Rightarrow> False) rows in
      rbind (rmap (\<lambda>r. float_item r ''notional'') sided) (\<lambda>xs. Inr (if sided = [] then 0 else gp_total gp xs)))"

definition notional_imbalance :: "grouping \<Rightarrow> frame_row list \<Rightarrow> number res" where
  "notional_imbalance gp rows =
     rbind (side_notional gp ''buy'' rows) (\<lambda>buy. rbind (side_notional gp ''sell'' rows) (\<lambda>sell.
       Inr (if fadd buy sell \<noteq> 0 then ndiv (Num (fsub buy sell)) (Num (fadd buy sell)) else NaN)))"

subsection \<open>Recommendations\<close>

text \<open>What a recommendation may measure: None, an int, or a float.\<close>

datatype measured = Nothing | Whole int | Measured number

record recommendation =
  rc_metric :: string
  rc_measured :: measured
  rc_strength :: string
  rc_product :: string
  rc_layer :: string
  rc_validation :: string
  rc_priority :: string

definition evidence_strength :: "int \<Rightarrow> rat \<Rightarrow> string" where
  "evidence_strength n event_seconds =
     (if 20000 \<le> n \<and> 300 \<le> event_seconds then ''strong within this capture''
      else if 2000 \<le> n \<and> 60 \<le> event_seconds then ''directional'' else ''weak: expand the capture'')"

definition recommend :: "string \<Rightarrow> string \<Rightarrow> measured \<Rightarrow> string \<Rightarrow> string \<Rightarrow> string \<Rightarrow> string
    \<Rightarrow> recommendation list \<Rightarrow> recommendation list res" where
  "recommend strength metric value product_name layer validation priority rows =
     (if metric = [] \<or> value = Nothing
      then Inl (Exn ValueError ''Every recommendation needs a named metric and measured value.'')
      else Inr (rows @ [\<lparr> rc_metric = metric, rc_measured = value, rc_strength = strength, rc_product = product_name,
        rc_layer = layer, rc_validation = validation, rc_priority = priority \<rparr>]))"

text \<open>
  What the last cell reads of the cells before it; the ranking of volatilities and the summary of
  spreads by their rows.
\<close>

record evidence =
  ev_rows :: int
  ev_event_seconds :: rat
  ev_backfill_share :: rat
  ev_duplicate_rate :: number
  ev_conflicting_keys :: int
  ev_p95_latency :: rat
  ev_freshness :: rat
  ev_partition_cv :: number
  ev_activity :: int
  ev_imbalance :: number
  ev_volatility_rows :: int
  ev_spread_samples :: "int list"

definition recommendation_rows :: "evidence \<Rightarrow> recommendation list res" where
  "recommendation_rows ev = (let add = recommend (evidence_strength (ev_rows ev) (ev_event_seconds ev)) in
     rbind (add ''backfill_share'' (Measured (Num (ev_backfill_share ev)))
       ''Immutable trade landing with source, backfill, Kafka, and ingestion metadata'' ''Bronze''
       ''Preserve source/is_backfill and Kafka coordinates for 100% of rows'' ''build now'' []) (\<lambda>rows.
     rbind (add ''duplicate_row_rate'' (Measured (ev_duplicate_rate ev))
       ''Natural-key deduplicated trades'' ''Silver''
       ''Unique (venue, venue_symbol, trade_id) after processing'' ''build now'' rows) (\<lambda>rows.
     rbind (add ''conflicting_duplicate_keys'' (Whole (ev_conflicting_keys ev))
       ''Conflicting-trade quarantine with raw lineage'' ''Silver''
       ''No conflicting natural key enters the trusted table''
       (if ev_conflicting_keys ev \<noteq> 0 then ''build now'' else ''validate next'') rows) (\<lambda>rows.
     rbind (add ''latency_p95_ms'' (Measured (Num (ev_p95_latency ev)))
       ''Freshness and latency service-level dashboard'' ''Observability''
       (''Track p50/p95/p99 by venue; investigate sustained p95 above '' @ comma_fixed 0 (ev_p95_latency ev) @ '' ms baseline'')
       ''build now'' rows) (\<lambda>rows.
     rbind (add ''end_freshness_s'' (Measured (Num (ev_freshness ev)))
       ''Per-venue stream freshness monitor'' ''Observability''
       ''Alert on sustained freshness breach relative to rolling baseline'' ''build now'' rows) (\<lambda>rows.
     rbind (add ''partition_count_cv'' (Measured (ev_partition_cv ev))
       ''Partition throughput and hot-key monitor'' ''Observability''
       ''Track count and byte skew; investigate sustained CV above capture baseline'' ''validate next'' rows) (\<lambda>rows.
     rbind (add ''event_time_bar_count'' (Whole (ev_activity ev))
       ''Per-venue and consolidated OHLCV/VWAP bars'' ''Gold''
       ''VWAP within low/high; publish only after deduplication and watermarking'' ''build now'' rows) (\<lambda>rows.
     rbind (add ''buy_sell_notional_imbalance'' (Measured (ev_imbalance ev))
       ''Instrument activity, trade-size, and directional-imbalance features'' ''Gold''
       ''Publish with observation count, window, and venue coverage'' ''validate next'' rows) (\<lambda>rows.
     rbind (if ev_volatility_rows ev \<noteq> 0
       then add ''ranked_instruments_with_volatility'' (Whole (ev_volatility_rows ev))
         ''Rolling realized-volatility features'' ''Gold''
         ''Suppress output below five return observations and retain window metadata'' ''validate next'' rows
       else Inr rows) (\<lambda>rows.
     if ev_spread_samples ev \<noteq> []
       then add ''cross_venue_spread_samples'' (Whole (sum_list (ev_spread_samples ev)))
         ''Synchronized cross-venue VWAP and spread research table'' ''Gold''
         (''Require two venues, synchronized buckets, sample count, '' @ ''and explicit non-executable label'') ''validate next'' rows
       else Inr rows))))))))))"

definition priority_rank :: "string \<Rightarrow> int res" where
  "priority_rank p = dict_item [(''build now'', 0), (''validate next'', 1), (''defer'', 2)] p"

text \<open>notna of a measured value.\<close>

fun measured_na :: "measured \<Rightarrow> bool" where
  "measured_na Nothing = True"
| "measured_na (Whole _) = False"
| "measured_na (Measured x) = (x = NaN)"

definition recommendations :: "research \<Rightarrow> evidence \<Rightarrow> recommendation list res" where
  "recommendations rs ev = rbind (recommendation_rows ev) (\<lambda>rows.
     rbind (py_assert (rows \<noteq> [])) (\<lambda>_.
     rbind (py_assert (\<forall>r\<in>set rows. 0 < length (rc_metric r))) (\<lambda>_.
     rbind (py_assert (\<forall>r\<in>set rows. \<not> measured_na (rc_measured r))) (\<lambda>_.
     rbind (rmap (priority_rank \<circ> rc_priority) rows) (\<lambda>ranks.
       Inr (map (nth rows) (rs_order rs ranks)))))))"

subsection \<open>Facts\<close>

lemma recommend_Inr:
  "metric \<noteq> [] \<Longrightarrow> value \<noteq> Nothing \<Longrightarrow> recommend strength metric value p l v q rows =
     Inr (rows @ [\<lparr> rc_metric = metric, rc_measured = value, rc_strength = strength, rc_product = p, rc_layer = l,
       rc_validation = v, rc_priority = q \<rparr>])"
  by (simp add: recommend_def)

text \<open>The rows, with what is measured by each and its priority.\<close>

definition owed_rows :: "evidence \<Rightarrow> (string \<times> measured \<times> string) list" where
  "owed_rows ev =
     [(''backfill_share'', Measured (Num (ev_backfill_share ev)), ''build now''),
      (''duplicate_row_rate'', Measured (ev_duplicate_rate ev), ''build now''),
      (''conflicting_duplicate_keys'', Whole (ev_conflicting_keys ev),
        if ev_conflicting_keys ev \<noteq> 0 then ''build now'' else ''validate next''),
      (''latency_p95_ms'', Measured (Num (ev_p95_latency ev)), ''build now''),
      (''end_freshness_s'', Measured (Num (ev_freshness ev)), ''build now''),
      (''partition_count_cv'', Measured (ev_partition_cv ev), ''validate next''),
      (''event_time_bar_count'', Whole (ev_activity ev), ''build now''),
      (''buy_sell_notional_imbalance'', Measured (ev_imbalance ev), ''validate next'')] @
     (if ev_volatility_rows ev \<noteq> 0
      then [(''ranked_instruments_with_volatility'', Whole (ev_volatility_rows ev), ''validate next'')] else []) @
     (if ev_spread_samples ev \<noteq> []
      then [(''cross_venue_spread_samples'', Whole (sum_list (ev_spread_samples ev)), ''validate next'')] else [])"

lemma recommendation_rows_owed:
  "\<exists>rows. recommendation_rows ev = Inr rows \<and> map (\<lambda>r. (rc_metric r, rc_measured r, rc_priority r)) rows = owed_rows ev"
  unfolding recommendation_rows_def owed_rows_def Let_def
  by (cases "ev_volatility_rows ev \<noteq> 0"; cases "ev_spread_samples ev \<noteq> []") (simp_all add: recommend_Inr)

text \<open>A stable order of ranks, and groups by columns, as pandas makes them.\<close>

definition orders :: "research \<Rightarrow> bool" where
  "orders rs \<longleftrightarrow> (\<forall>ks. mset (rs_order rs ks) = mset [0..<length ks] \<and> sorted (map (nth ks) (rs_order rs ks)))"

definition groups_columns :: "research \<Rightarrow> bool" where
  "groups_columns rs \<longleftrightarrow> (\<forall>keys rows. distinct (map fst (rs_groups rs keys rows)) \<and>
     set (rs_groups rs keys rows) = (\<lambda>k. (k, filter (\<lambda>r. column_key keys r = Some k) rows)) `
       {k. Some k \<in> column_key keys ` set rows})"

lemma recommendations_ranked:
  assumes "orders rs"
  shows "if NaN \<in> {ev_duplicate_rate ev, ev_partition_cv ev, ev_imbalance ev} then recommendations rs ev = Inl (Exn AssertionError [])
    else \<exists>out. recommendations rs ev = Inr out \<and>
      mset (map (\<lambda>r. (rc_metric r, rc_measured r, rc_priority r)) out) = mset (owed_rows ev) \<and>
      sorted (map (\<lambda>r. if rc_priority r = ''build now'' then 0 else 1 :: int) out)"
proof -
  obtain rows where rows: "recommendation_rows ev = Inr rows"
    and owed: "map (\<lambda>r. (rc_metric r, rc_measured r, rc_priority r)) rows = owed_rows ev"
    using recommendation_rows_owed by blast
  have img: "(\<lambda>r. (rc_metric r, rc_measured r, rc_priority r)) ` set rows = set (owed_rows ev)"
    by (simp only: owed [symmetric] set_map)
  have all: "(\<forall>r\<in>set rows. P (rc_metric r) (rc_measured r) (rc_priority r)) \<longleftrightarrow> (\<forall>(m, x, p)\<in>set (owed_rows ev). P m x p)" for P
    unfolding img [symmetric] by simp
  have ne: "rows \<noteq> []" using owed by (auto simp: owed_rows_def)
  have named: "\<forall>r\<in>set rows. 0 < length (rc_metric r)"
    unfolding all [of "\<lambda>m x p. 0 < length m"] by (auto simp: owed_rows_def)
  have na: "(\<forall>r\<in>set rows. \<not> measured_na (rc_measured r)) \<longleftrightarrow> NaN \<notin> {ev_duplicate_rate ev, ev_partition_cv ev, ev_imbalance ev}"
    unfolding all [of "\<lambda>m x p. \<not> measured_na x"] by (auto simp: owed_rows_def)
  let ?rank = "\<lambda>r. if rc_priority r = ''build now'' then 0 else 1 :: int"
  have two: "\<forall>r\<in>set rows. rc_priority r \<in> {''build now'', ''validate next''}"
    unfolding all [of "\<lambda>m x p. p \<in> {''build now'', ''validate next''}"] by (auto simp: owed_rows_def)
  have ranks: "rmap (priority_rank \<circ> rc_priority) rows = Inr (map ?rank rows)"
    by (rule rmap_all_Inr) (use two in \<open>auto simp: priority_rank_def dict_item_def\<close>)
  let ?o = "rs_order rs (map ?rank rows)"
  have o: "mset ?o = mset [0..<length rows]" and s: "sorted (map (nth (map ?rank rows)) ?o)"
    using assms by (auto simp: orders_def)
  have idx: "i < length rows" if "i \<in> set ?o" for i
    using that o by (metis atLeastLessThan_iff set_mset_mset set_upt)
  have "map (nth (map ?rank rows)) ?o = map ?rank (map (nth rows) ?o)" using idx by simp
  with s have sorted: "sorted (map ?rank (map (nth rows) ?o))" by simp
  have "mset (map (nth rows) ?o) = image_mset (nth rows) (mset [0..<length rows])" by (simp only: mset_map o)
  also have "\<dots> = mset rows" by (simp only: mset_map [symmetric] map_nth)
  finally have perm: "mset (map (nth rows) ?o) = mset rows" .
  show ?thesis
  proof (cases "NaN \<in> {ev_duplicate_rate ev, ev_partition_cv ev, ev_imbalance ev}")
    case True
    then have "\<not> (\<forall>r\<in>set rows. \<not> measured_na (rc_measured r))" unfolding na by simp
    with True ne named show ?thesis by (auto simp: recommendations_def rows py_assert_def)
  next
    case False
    then have "\<forall>r\<in>set rows. \<not> measured_na (rc_measured r)" unfolding na .
    then have "recommendations rs ev = Inr (map (nth rows) ?o)"
      using ne named by (simp add: recommendations_def rows py_assert_def ranks)
    moreover have "mset (map (\<lambda>r. (rc_metric r, rc_measured r, rc_priority r)) (map (nth rows) ?o)) = mset (owed_rows ev)"
      unfolding owed [symmetric] using perm by (metis mset_map)
    ultimately show ?thesis using False sorted by (simp only: if_False) blast
  qed
qed

lemma unknown_sides_have_no_imbalance:
  assumes "\<forall>r\<in>set rows. map_of r ''side'' = Some (Raw (AStr ''UNKNOWN''))"
  shows "notional_imbalance gp rows = Inr NaN"
proof -
  have "lower ''UNKNOWN'' = ''unknown''" by (simp add: lower_def lower_chr_def char_of_def bit_iff_odd)
  then have "filter (\<lambda>r. case map_of r ''side'' of Some (Raw (AStr s)) \<Rightarrow> lower s = label | _ \<Rightarrow> False) rows = []"
    if "label \<noteq> ''unknown''" for label using assms that by (auto simp: filter_empty_conv)
  then show ?thesis by (simp add: notional_imbalance_def side_notional_def fadd_def)
qed

subsection \<open>The conflicting keys\<close>

lemma several_values_iff: "several_values c g \<longleftrightarrow> (\<exists>r\<in>set g. \<exists>s\<in>set g. map_of r c \<noteq> map_of s c)"
proof -
  let ?V = "(\<lambda>r. map_of r c) ` set g"
  have "several_values c g \<longleftrightarrow> 1 < card ?V" by (simp add: several_values_def length_remdups_card_conv)
  also have "\<dots> \<longleftrightarrow> (\<exists>u\<in>?V. \<exists>v\<in>?V. u \<noteq> v)"
    using card_le_Suc0_iff_eq [of ?V] by (auto simp: not_le [symmetric])
  finally show ?thesis by blast
qed

lemma column_key_cells: "column_key keys r = Some k \<Longrightarrow> column_key keys s = Some k \<Longrightarrow> key_cells keys r = key_cells keys s"
  by (auto simp: column_key_def key_cells_def split: if_splits) (metis option.sel)

lemma two_in_filter: "r \<in> set rs \<Longrightarrow> s \<in> set rs \<Longrightarrow> P r \<Longrightarrow> P s \<Longrightarrow> r \<noteq> s \<Longrightarrow> 1 < length (filter P rs)"
proof -
  assume "r \<in> set rs" "s \<in> set rs" "P r" "P s" "r \<noteq> s"
  then have "{r, s} \<subseteq> set (filter P rs)" and "card {r, s} = 2" by auto
  then have "2 \<le> card (set (filter P rs))" by (metis card_mono List.finite_set)
  then show ?thesis using card_length [of "filter P rs"] by linarith
qed

text \<open>The keys for which two rows disagree in a conflict field.\<close>

definition disagreeing :: "frame_row list \<Rightarrow> cell list set" where
  "disagreeing rows = {k. \<exists>r\<in>set rows. \<exists>s\<in>set rows. column_key natural_key r = Some k \<and> column_key natural_key s = Some k \<and>
     (\<exists>c\<in>set conflict_fields. map_of r c \<noteq> map_of s c)}"

lemma disagreeing_duplicated: "disagreeing (duplicated_rows rows) = disagreeing rows"
proof -
  have "r \<in> set (duplicated_rows rows)"
    if "r \<in> set rows" "s \<in> set rows" "column_key natural_key r = Some k" "column_key natural_key s = Some k" "map_of r c \<noteq> map_of s c"
    for r s k c
  proof -
    from that(5) have "r \<noteq> s" by auto
    from two_in_filter [OF that(1,2) _ _ this] column_key_cells [OF that(3,4)] that(1)
    show ?thesis by (simp add: duplicated_rows_def)
  qed
  moreover have "set (duplicated_rows rows) \<subseteq> set rows" by (auto simp: duplicated_rows_def)
  ultimately show ?thesis unfolding disagreeing_def by (intro Collect_cong) (metis (no_types, lifting) subsetD)
qed

lemma conflicting_keys_exact:
  assumes "groups_columns rs"
  shows "conflicting_keys rs rows = int (card (disagreeing rows))"
proof -
  let ?D = "duplicated_rows rows" let ?gs = "rs_groups rs natural_key ?D"
  let ?P = "\<lambda>(key, g). \<exists>c\<in>set conflict_fields. several_values c g" and ?in = "\<lambda>k. filter (\<lambda>r. column_key natural_key r = Some k) ?D"
  have d: "distinct (map fst ?gs)" and s: "set ?gs = (\<lambda>k. (k, ?in k)) ` {k. Some k \<in> column_key natural_key ` set ?D}"
    using assms by (simp_all add: groups_columns_def)
  have "distinct (map fst (filter ?P ?gs))" using d by (rule distinct_map_filter)
  from distinct_card [OF this] have "length (filter ?P ?gs) = card (fst ` set (filter ?P ?gs))" by simp
  also have "fst ` set (filter ?P ?gs) = disagreeing ?D"
  proof -
    have "k \<in> fst ` set (filter ?P ?gs) \<longleftrightarrow> k \<in> disagreeing ?D" for k
    proof -
      have "k \<in> fst ` set (filter ?P ?gs) \<longleftrightarrow>
          Some k \<in> column_key natural_key ` set ?D \<and> (\<exists>c\<in>set conflict_fields. several_values c (?in k))"
        unfolding set_filter s by force
      also have "\<dots> \<longleftrightarrow> k \<in> disagreeing ?D"
        unfolding several_values_iff disagreeing_def by (auto simp: image_iff; metis)
      finally show ?thesis .
    qed
    then show ?thesis by blast
  qed
  finally have "length (filter ?P ?gs) = card (disagreeing ?D)" .
  moreover have "disagreeing [] = {}" by (simp add: disagreeing_def)
  ultimately show ?thesis unfolding disagreeing_duplicated [of rows, symmetric] by (simp add: conflicting_keys_def Let_def)
qed

lemma no_duplicates: "distinct (map (key_cells natural_key) rows) \<Longrightarrow> duplicated_rows rows = []"
proof -
  assume d: "distinct (map (key_cells natural_key) rows)"
  have "length (filter (\<lambda>s. key_cells natural_key s = key_cells natural_key r) rows) \<le> 1" for r
  proof -
    have "length (filter (\<lambda>s. key_cells natural_key s = key_cells natural_key r) rows) =
        count_list (map (key_cells natural_key) rows) (key_cells natural_key r)"
      by (induction rows) auto
    also have "\<dots> \<le> 1" using d by (rule count_list_distinct)
    finally show ?thesis .
  qed
  then show ?thesis by (simp add: duplicated_rows_def filter_empty_conv not_less)
qed

text \<open>
  The integrity cell is exact: for a window of records with no negative price or
  size, whose sequences the gap check accepts, the three assertions hold, and the conflicting
  keys it reports are as many as the (venue, venue_symbol, trade_id) for which two rows of the
  window disagree in price, size, side or event time, and the missing count is the gap check's.
\<close>

theorem integrity_cell_exact:
  assumes "pandas_sorts pd" and "pandas_drops pd" and "groups_columns rs"
    and "capture_window pd records = Inr ca" and "sequence_gaps records = Inr gap"
    and "\<forall>r\<in>set records. \<forall>c\<in>{''price'', ''size''}. \<forall>s x. map_of r c = Some (AStr s) \<and> pd_float pd s = Some x \<longrightarrow> 0 \<le> x"
  shows "\<exists>metrics. quality_metrics rs ca records = Inr metrics \<and>
    (\<exists>m\<in>set metrics. qm_metric m = ''conflicting_duplicate_keys'' \<and>
      qm_value m = Num (of_nat (card (disagreeing (fr_rows (ca_raw ca)))))) \<and>
    (\<exists>m\<in>set metrics. qm_metric m = ''sequence_missing'' \<and> qm_value m = Num (of_int (gr_missing gap)))"
proof -
  from assms(4) have raw: "trades_frame pd records = Inr (ca_raw ca)" and clean: "ca_clean ca = dedupe pd (ca_raw ca)"
    by (auto simp: capture_window_def rbind_Inr_iff Let_def split: if_splits)
  note rows = dedupe_rows [OF assms(1,2), of "ca_raw ca", folded clean]
  have "\<exists>p s. priced r p s" if "r \<in> set (fr_rows (ca_clean ca))" for r
  proof -
    from that rows(3) obtain rec where "rec \<in> set records" "float_row pd rec r"
      using frame_float_rows [OF raw assms(1), of r] by blast
    with assms(6) show ?thesis unfolding float_row_def priced_def by blast
  qed
  then have priced: "\<forall>r\<in>set (fr_rows (ca_clean ca)). \<exists>p s. priced r p s" by blast
  obtain xs where x: "rmap (\<lambda>r. float_item r ''size'') (fr_rows (ca_clean ca)) = Inr (map snd xs)"
    "rmap (\<lambda>r. float_item r ''notional'') (fr_rows (ca_clean ca)) = Inr (map (\<lambda>(p, s). fmul p s) xs)"
    and pos: "\<forall>(p, s)\<in>set xs. 0 \<le> p \<and> 0 \<le> s" by (rule priced_rows [OF priced])
  have "not_negative ''size'' (fr_rows (ca_clean ca)) = Inr True" and "not_negative ''notional'' (fr_rows (ca_clean ca)) = Inr True"
    using pos unfolding not_negative_def x by (auto simp: fmul_def intro!: fl_signed_nonneg mult_nonneg_nonneg)
  then have "quality_metrics rs ca records = Inr (metric_list rs ca records gap)"
    by (simp add: quality_metrics_def assms(5) py_assert_def no_duplicates [OF rows(1)])
  moreover have "\<exists>m\<in>set (metric_list rs ca records gap). qm_metric m = ''conflicting_duplicate_keys'' \<and>
      qm_value m = Num (of_nat (card (disagreeing (fr_rows (ca_raw ca)))))"
    by (simp add: metric_list_def Let_def conflicting_keys_exact [OF assms(3)])
  moreover have "\<exists>m\<in>set (metric_list rs ca records gap). qm_metric m = ''sequence_missing'' \<and> qm_value m = Num (of_int (gr_missing gap))"
    by (simp add: metric_list_def Let_def)
  ultimately show ?thesis by blast
qed

lemma replay_returns:
  "\<forall>r\<in>set rs. \<exists>v s. map_of r ''venue'' = Some (AStr v) \<and> map_of r ''venue_symbol'' = Some (AStr s) \<Longrightarrow>
    \<exists>x. replay rs w found checked skipped = Inr x"
proof (induction rs arbitrary: w found checked skipped)
  case (Cons rec rs)
  then obtain v s where "map_of rec ''venue'' = Some (AStr v)" "map_of rec ''venue_symbol'' = Some (AStr s)" by auto
  then have "text_item rec ''venue'' = Inr v" "text_item rec ''venue_symbol'' = Inr s" by (simp_all add: res_simps)
  with Cons show ?case by (simp split: option.split prod.split)
qed simp

lemma sequence_gaps_return:
  "\<forall>r\<in>set rs. \<exists>v s. map_of r ''venue'' = Some (AStr v) \<and> map_of r ''venue_symbol'' = Some (AStr s) \<Longrightarrow>
    \<exists>gap. sequence_gaps rs = Inr gap"
  using replay_returns [of rs new_tracker "[]" 0 "{}"] by (auto simp: sequence_gaps_def)

definition plain_research :: research where
  "plain_research = \<lparr> rs_groups = (\<lambda>keys rows. map (\<lambda>k. (k, filter (\<lambda>r. column_key keys r = Some k) rows))
       (remdups (List.map_filter (column_key keys) rows))),
     rs_quantile = (\<lambda>_. hd), rs_mean = (\<lambda>_. 1), rs_std = (\<lambda>_. 0), rs_order = (\<lambda>ks. sort_key (nth ks) [0..<length ks]) \<rparr>"

lemma map_filter_keys: "{k. Some k \<in> f ` set xs} = set (List.map_filter f xs)"
  by (induction xs) (auto simp: map_filter_simps split: option.splits)

lemma plain_research_facts: "groups_columns plain_research"
  unfolding groups_columns_def map_filter_keys by (simp add: plain_research_def o_def)

text \<open>A trade delivered twice, the second time at another price.\<close>

definition restated :: "(string, avro) dict" where
  "restated = to_avro (example_trade\<lparr> t_price := ''2'' \<rparr>)"

theorem integrity_cell_exact_witness:
  "\<exists>ca metrics. capture_window plain_pandas [to_avro example_trade, restated] = Inr ca \<and>
     quality_metrics plain_research ca [to_avro example_trade, restated] = Inr metrics \<and>
     (\<exists>m\<in>set metrics. qm_metric m = ''conflicting_duplicate_keys'' \<and>
       qm_value m = Num (of_nat (card (disagreeing (fr_rows (ca_raw ca))))))"
proof -
  let ?rs = "[to_avro example_trade, restated]"
  obtain raw where raw: "trades_frame plain_pandas ?rs = Inr raw"
    by (auto simp: trades_frame_def text_item_def long_item_def dict_item_def to_avro_def restated_def as_float_def plain_pandas_def Let_def)
  obtain gap where gap: "sequence_gaps ?rs = Inr gap"
    using sequence_gaps_return [of ?rs] by (auto simp: to_avro_def restated_def)
  have "fr_rows raw \<noteq> []"
    using frame_keeps_every_record [OF raw plain_pandas_facts(1)] by auto
  then obtain ca where ca: "capture_window plain_pandas ?rs = Inr ca" by (auto simp: capture_window_def raw Let_def)
  from integrity_cell_exact [OF plain_pandas_facts plain_research_facts ca gap] show ?thesis
    using ca by (auto simp: plain_pandas_def)
qed

end
