(* ===== verification/Market.thy ===== *)
theory Market
  imports Research
begin

text \<open>
  notebooks/04_stream_product_research.ipynb, cells 18 and 21: the activity and the volatility of
  the instruments, the spreads between two venues and which of them leads. The statistics of a
  series (median, quantile, deviation, correlation), sorting and pivoting are pandas.
\<close>

text \<open>
  mk_order is the order that sorts numbers downwards with NaN last; the statistics skip NaN.
  mk_groups and mk_pivot are groupby over the rows of a comparison and pivot over closing prices,
  with the rows that lack a price dropped.
\<close>

record market =
  mk_order :: "number list \<Rightarrow> nat list"
  mk_median :: "number list \<Rightarrow> number"
  mk_max :: "number list \<Rightarrow> number"
  mk_min :: "number list \<Rightarrow> number"
  mk_quantile :: "rat \<Rightarrow> number list \<Rightarrow> number"
  mk_std :: "rat list \<Rightarrow> rat"
  mk_corr :: "(number \<times> number option) list \<Rightarrow> number"
  mk_groups :: "wide_row list \<Rightarrow> (cell \<times> wide_row list) list"
  mk_pivot :: "(int \<times> cell \<times> rat) list \<Rightarrow> cell list \<times> (int \<times> rat list) list"

definition sorted_down :: "market \<Rightarrow> ('r \<Rightarrow> number) \<Rightarrow> 'r list \<Rightarrow> 'r list" where
  "sorted_down mk f rows = map (nth rows) (mk_order mk (map f rows))"

subsection \<open>Activity\<close>

record activity_row =
  ac_key :: group_key
  ac_trades :: int
  ac_base_volume :: rat
  ac_notional :: rat

definition activity_row :: "grouping \<Rightarrow> group_key \<times> frame_row list \<Rightarrow> activity_row res" where
  "activity_row gp = (\<lambda>(key, g).
     rbind (rmap (\<lambda>r. float_item r ''size'') g) (\<lambda>sizes. rbind (rmap (\<lambda>r. float_item r ''notional'') g) (\<lambda>notionals.
       Inr \<lparr> ac_key = key, ac_trades = int (length g), ac_base_volume = gp_total gp sizes, ac_notional = gp_total gp notionals \<rparr>)))"

definition activity :: "grouping \<Rightarrow> frame_row list \<Rightarrow> activity_row list res" where
  "activity gp rows = rmap (activity_row gp) (gp_groups gp [''instrument_id''] ''1min'' rows)"

text \<open>Per instrument its trades and notional, the largest notional first.\<close>

definition activity_ranking :: "research \<Rightarrow> grouping \<Rightarrow> market \<Rightarrow> frame_row list \<Rightarrow> (cell \<times> int \<times> rat) list res" where
  "activity_ranking rs gp mk rows = rbind (rmap (\<lambda>(key, g).
       rbind (rmap (\<lambda>r. float_item r ''notional'') g) (\<lambda>xs. Inr (hd key, int (length g), gp_total gp xs)))
       (rs_groups rs [''instrument_id''] rows)) (\<lambda>table.
     Inr (sorted_down mk (\<lambda>(_, _, n). Num n) table))"

definition trade_distributions :: "market \<Rightarrow> frame_row list \<Rightarrow> (rat \<times> number \<times> number) list res" where
  "trade_distributions mk rows =
     rbind (rmap (\<lambda>r. float_item r ''size'') rows) (\<lambda>sizes. rbind (rmap (\<lambda>r. float_item r ''notional'') rows) (\<lambda>notionals.
       Inr (map (\<lambda>q. (q, mk_quantile mk q (map Num sizes), mk_quantile mk q (map Num notionals)))
         [1 / 2, 3 / 4, 9 / 10, 95 / 100, 99 / 100])))"

subsection \<open>Volatility\<close>

text \<open>resample("1min").last().dropna(): the last price of every minute with a trade.\<close>

definition closes :: "grouping \<Rightarrow> frame_row list \<Rightarrow> (int \<times> rat) list res" where
  "closes gp rows = rmap (\<lambda>((_, start), g). rbind (rmap (\<lambda>r. float_item r ''price'') g) (\<lambda>prices. Inr (start, last prices)))
     (gp_groups gp [] ''1min'' rows)"

definition price_buckets :: "research \<Rightarrow> grouping \<Rightarrow> frame_row list \<Rightarrow> (cell \<times> (int \<times> rat) list) list res" where
  "price_buckets rs gp rows = rmap (\<lambda>(key, g). rbind (closes gp g) (\<lambda>cs. Inr (hd key, cs))) (rs_groups rs [''instrument_id''] rows)"

text \<open>pct_change(fill_method=None).\<close>

definition pct_change :: "rat list \<Rightarrow> number list" where
  "pct_change xs = (case xs of [] \<Rightarrow> []
     | _ \<Rightarrow> NaN # map2 (\<lambda>earlier later. nsub (ndiv (Num later) (Num earlier)) (Num 1)) xs (tl xs))"

definition rolling_vol_buckets :: nat where
  "rolling_vol_buckets = 5"

text \<open>The finite values: a window skips NaN and infinities alike.\<close>

fun finite_values :: "number list \<Rightarrow> rat list" where
  "finite_values [] = []"
| "finite_values (Num x # xs) = x # finite_values xs"
| "finite_values (_ # xs) = finite_values xs"

text \<open>rolling(5, min_periods=3).std() * 10_000.\<close>

definition rolling_vol_bps :: "market \<Rightarrow> number list \<Rightarrow> number list" where
  "rolling_vol_bps mk returns = map (\<lambda>i.
     let window = finite_values (drop (Suc i - rolling_vol_buckets) (take (Suc i) returns))
     in if 3 \<le> length window then nmul (Num (mk_std mk window)) (Num 10000) else NaN) [0..<length returns]"

record volatility_row =
  vo_instrument :: cell
  vo_buckets :: int
  vo_observations :: int
  vo_median_bps :: number
  vo_max_bps :: number

definition volatility_row :: "market \<Rightarrow> cell \<times> (int \<times> rat) list \<Rightarrow> volatility_row" where
  "volatility_row mk = (\<lambda>(instrument, cs).
     let returns = pct_change (map snd cs); vols = rolling_vol_bps mk returns in
     \<lparr> vo_instrument = instrument, vo_buckets = int (length cs),
       vo_observations = int (length (filter (\<lambda>x. x \<noteq> NaN) returns)),
       vo_median_bps = mk_median mk vols, vo_max_bps = mk_max mk vols \<rparr>)"

definition volatility_ranking :: "research \<Rightarrow> grouping \<Rightarrow> market \<Rightarrow> frame_row list \<Rightarrow> volatility_row list res" where
  "volatility_ranking rs gp mk rows = rbind (price_buckets rs gp rows) (\<lambda>buckets.
     Inr (sorted_down mk vo_median_bps (filter (\<lambda>v. 5 \<le> vo_observations v) (map (volatility_row mk) buckets))))"

subsection \<open>Spreads\<close>

record spread_row =
  sp_instrument :: cell
  sp_samples :: int
  sp_median_bps :: number
  sp_p90_abs_bps :: number
  sp_p95_abs_bps :: number
  sp_min_bps :: number
  sp_max_bps :: number
  sp_persistence :: number

fun nabs :: "number \<Rightarrow> number" where
  "nabs (Num x) = Num \<bar>x\<bar>"
| "nabs (Infinite _) = Infinite False"
| "nabs NaN = NaN"

text \<open>np.sign of a spread that is not NaN.\<close>

fun sign :: "number \<Rightarrow> int" where
  "sign (Num x) = (if x < 0 then - 1 else if x = 0 then 0 else 1)"
| "sign (Infinite neg) = (if neg then - 1 else 1)"
| "sign NaN = 0"

text \<open>The share of samples, from the second on, with the sign of the one before.\<close>

definition persistence :: "number list \<Rightarrow> number" where
  "persistence xs = (let signs = map sign xs in
     if 1 < length signs
     then Num (fdiv (of_nat (length (filter (\<lambda>(a, b). a = b) (zip signs (tl signs))))) (of_nat (length signs - 1)))
     else NaN)"

definition spread_bps :: "wide_row \<Rightarrow> number" where
  "spread_bps w = (case w_spread w of Some (_, bps) \<Rightarrow> bps | None \<Rightarrow> NaN)"

definition synchronized :: "comparison \<Rightarrow> wide_row list" where
  "synchronized cm = (if length (cm_venues cm) = 2 then filter (\<lambda>w. spread_bps w \<noteq> NaN) (cm_rows cm) else [])"

definition spread_row :: "market \<Rightarrow> cell \<times> wide_row list \<Rightarrow> spread_row" where
  "spread_row mk = (\<lambda>(instrument, g). let bps = map spread_bps g in
     \<lparr> sp_instrument = instrument, sp_samples = int (length g), sp_median_bps = mk_median mk bps,
       sp_p90_abs_bps = mk_quantile mk (9 / 10) (map nabs bps), sp_p95_abs_bps = mk_quantile mk (95 / 100) (map nabs bps),
       sp_min_bps = mk_min mk bps, sp_max_bps = mk_max mk bps, sp_persistence = persistence bps \<rparr>)"

definition spread_summary :: "grouping \<Rightarrow> market \<Rightarrow> frame \<Rightarrow> spread_row list res" where
  "spread_summary gp mk df = rbind (venue_comparison gp ''1min'' df) (\<lambda>cm.
     Inr (map (spread_row mk) (mk_groups mk (synchronized cm))))"

subsection \<open>Who leads\<close>

record leadership_row =
  le_instrument :: cell
  le_venue_a :: cell
  le_venue_b :: cell
  le_lag :: int
  le_correlation :: number
  le_observations :: int

text \<open>The last price of every minute, instrument and venue with a trade, by instrument.\<close>

definition venue_prices :: "grouping \<Rightarrow> frame_row list \<Rightarrow> (cell \<times> int \<times> cell \<times> rat) list res" where
  "venue_prices gp rows = rmap (\<lambda>((key, start), g). rbind (rmap (\<lambda>r. float_item r ''price'') g) (\<lambda>prices.
     Inr (key ! 0, start, key ! 1, last prices))) (gp_groups gp [''instrument_id'', ''venue''] ''1min'' rows)"

text \<open>Series.shift(lag).\<close>

definition shift :: "int \<Rightarrow> 'a list \<Rightarrow> 'a option list" where
  "shift k xs = (if 0 \<le> k
     then take (length xs) (replicate (nat k) None @ map Some xs)
     else map Some (drop (nat (- k)) xs) @ replicate (min (nat (- k)) (length xs)) None)"

definition leadership_row :: "market \<Rightarrow> cell \<Rightarrow> cell \<Rightarrow> cell \<Rightarrow> number list \<Rightarrow> number list \<Rightarrow> int \<Rightarrow> leadership_row" where
  "leadership_row mk instrument venue_a venue_b returns_a returns_b k = (let shifted = shift k returns_b in
     \<lparr> le_instrument = instrument, le_venue_a = venue_a, le_venue_b = venue_b, le_lag = k,
       le_correlation = mk_corr mk (zip returns_a shifted), le_observations = int (length (filter (\<lambda>x. x \<noteq> None) shifted)) \<rparr>)"

definition leadership_of :: "market \<Rightarrow> cell \<times> (int \<times> cell \<times> rat) list \<Rightarrow> leadership_row list" where
  "leadership_of mk = (\<lambda>(instrument, group). let (venues, wide_prices) = mk_pivot mk group in
     if length venues \<noteq> 2 \<or> length wide_prices < 11 then [] else
     let returns = filter (\<lambda>(a, b). a \<noteq> NaN \<and> b \<noteq> NaN)
           (zip (pct_change (map (\<lambda>(_, ps). ps ! 0) wide_prices)) (pct_change (map (\<lambda>(_, ps). ps ! 1) wide_prices)))
     in map (leadership_row mk instrument (venues ! 0) (venues ! 1) (map fst returns) (map snd returns)) [- 2..2])"

text \<open>The instruments in order of appearance, as the groups of the sorted prices have them.\<close>

definition leadership :: "grouping \<Rightarrow> market \<Rightarrow> frame_row list \<Rightarrow> leadership_row list res" where
  "leadership gp mk rows = rbind (venue_prices gp rows) (\<lambda>prices.
     Inr (concat (map (\<lambda>i. leadership_of mk (i, map snd (filter (\<lambda>p. fst p = i) prices))) (remdups (map fst prices)))))"

subsection \<open>Facts\<close>

lemma shift_length [simp]: "length (shift k xs) = length xs"
  by (auto simp: shift_def)

lemma count_some [simp]: "length (filter (\<lambda>x. x \<noteq> None) (map Some xs)) = length xs"
  by (induction xs) auto

lemma shift_count: "length (filter (\<lambda>x. x \<noteq> None) (shift k xs)) = length xs - nat \<bar>k\<bar>"
proof (cases "0 \<le> k")
  case True
  have "take (length xs) (replicate (nat k) None @ map Some xs) =
      replicate (min (length xs) (nat k)) None @ map Some (take (length xs - nat k) xs)"
    by (simp add: take_map)
  with True show ?thesis by (simp add: shift_def)
next
  case False
  then show ?thesis by (simp add: shift_def)
qed

lemma leadership_row_observations: "le_observations (leadership_row mk i a b xs ys k) = int (length ys - nat \<bar>k\<bar>)"
  by (simp add: leadership_row_def Let_def shift_count del: not_None_eq)

text \<open>Every pair of venues gets one row for each of the five shifts, over the samples the shift leaves.\<close>

lemma leadership_rows:
  assumes "mk_pivot mk gr = ([a, b], prices)" and "11 \<le> length prices"
    and "\<forall>(_, ps)\<in>set prices. ps ! 0 \<noteq> 0 \<and> ps ! 1 \<noteq> 0"
  shows "map le_lag (leadership_of mk (i, gr)) = [- 2, - 1, 0, 1, 2] \<and>
    (\<forall>r\<in>set (leadership_of mk (i, gr)). le_observations r = int (length prices) - 1 - \<bar>le_lag r\<bar>)"
proof -
  let ?a = "pct_change (map (\<lambda>(_, ps). ps ! 0) prices)" and ?b = "pct_change (map (\<lambda>(_, ps). ps ! 1) prices)"
  let ?r = "filter (\<lambda>(a, b). a \<noteq> NaN \<and> b \<noteq> NaN) (zip ?a ?b)"
  have change: "\<exists>ys. pct_change xs = NaN # ys \<and> length ys = length xs - 1 \<and> NaN \<notin> set ys" if "xs \<noteq> []" "0 \<notin> set xs" for xs
  proof -
    let ?f = "\<lambda>earlier later. nsub (ndiv (Num later) (Num earlier)) (Num 1)"
    have "NaN \<notin> set (map2 ?f xs (tl xs))"
    proof
      assume "NaN \<in> set (map2 ?f xs (tl xs))"
      then obtain x y where "(x, y) \<in> set (zip xs (tl xs))" and n: "NaN = ?f x y" by auto
      then have "x \<in> set xs" by (auto dest: set_zip_leftD)
      with that(2) have "x \<noteq> 0" by auto
      with n show False by simp
    qed
    with that(1) show ?thesis by (cases xs) (auto simp: pct_change_def)
  qed
  have ne: "prices \<noteq> []" using assms(2) by auto
  obtain as where as: "?a = NaN # as" "length as = length prices - 1" "NaN \<notin> set as"
    using change [of "map (\<lambda>(_, ps). ps ! 0) prices"] ne assms(3) by fastforce
  obtain bs where bs: "?b = NaN # bs" "length bs = length prices - 1" "NaN \<notin> set bs"
    using change [of "map (\<lambda>(_, ps). ps ! 1) prices"] ne assms(3) by fastforce
  have "?r = zip as bs"
    unfolding as(1) bs(1) using as(3) bs(3) by (auto intro!: filter_True dest: set_zip_leftD set_zip_rightD)
  then have len: "length (map snd ?r) = length prices - 1" using as(2) bs(2) by simp
  have rows: "leadership_of mk (i, gr) = map (leadership_row mk i a b (map fst ?r) (map snd ?r)) [- 2, - 1, 0, 1, 2]"
    using assms(1,2) by (simp add: leadership_of_def Let_def upto_rec_numeral upto.simps)
  have "le_observations (leadership_row mk i a b (map fst ?r) (map snd ?r) k) = int (length prices) - 1 - \<bar>k\<bar>"
    if "k \<in> {- 2, - 1, 0, 1, 2}" for k
    unfolding leadership_row_observations len using that assms(2) by auto
  then show ?thesis unfolding rows by (auto simp: leadership_row_def Let_def)
qed

subsection \<open>Where there is a spread\<close>

text \<open>
  pivot_table over values that differ in their index or column: the columns and the rows that hold a
  value, and each value in its cell, NaN where there is none.
\<close>

definition pivots :: "grouping \<Rightarrow> bool" where
  "pivots gp \<longleftrightarrow> (\<forall>xs. distinct (map (\<lambda>(i, v, _). (i, v)) xs) \<longrightarrow>
     (case gp_pivot gp xs of (venues, rows) \<Rightarrow>
       distinct venues \<and> set venues = {v. \<exists>i x. (i, v, x) \<in> set xs \<and> x \<noteq> NaN} \<and>
       distinct (map fst rows) \<and> fst ` set rows = {i. \<exists>v x. (i, v, x) \<in> set xs \<and> x \<noteq> NaN} \<and>
       (\<forall>(i, cells)\<in>set rows. \<forall>v\<in>set venues. \<exists>x. map_of cells v = Some x \<and> (x \<noteq> NaN \<longleftrightarrow> (\<exists>y. (i, v, y) \<in> set xs \<and> y \<noteq> NaN)) \<and>
         (x \<noteq> NaN \<longrightarrow> (i, v, x) \<in> set xs))))"

lemma column_key_length: "column_key keys r = Some k \<Longrightarrow> length k = length keys"
  by (auto simp: column_key_def split: if_splits)

lemma aggregate_key: "aggregate gp g = Inr b \<Longrightarrow> (o_key b, o_event_ts b) = fst g"
  by (cases g) (auto simp: aggregate_def rbind_Inr_iff Let_def)

lemma quoted_distinct:
  assumes "groups_rows gp" and "bars gp freq (Several [''venue'', ''instrument_id'']) df = Inr tape"
  shows "distinct (map (\<lambda>(i, v, _). (i, v)) (map quoted (tp_bars tape)))"
proof (cases "fr_rows df = []")
  case True
  with assms(2) show ?thesis by (auto simp: bars_def)
next
  case False
  let ?gs = "gp_groups gp [''venue'', ''instrument_id''] freq (fr_rows df)"
  from bars_Inr [OF assms(2) False] have all: "list_all2 (\<lambda>g b. aggregate gp g = Inr b) ?gs (tp_bars tape)"
    by (simp add: rmap_Inr_iff)
  then have keys: "map (\<lambda>b. (o_key b, o_event_ts b)) (tp_bars tape) = map fst ?gs"
    by (induction rule: list_all2_induct) (simp_all add: aggregate_key)
  have "distinct (map fst ?gs)" using assms(1) by (simp add: groups_rows_def)
  then have d: "distinct (map (\<lambda>b. (o_key b, o_event_ts b)) (tp_bars tape))" by (simp only: keys)
  have two: "length (o_key b) = 2" if "b \<in> set (tp_bars tape)" for b
  proof -
    from that have "(o_key b, o_event_ts b) \<in> fst ` set ?gs"
      using arg_cong [OF keys, of set] by (metis (mono_tags, lifting) image_eqI set_map)
    then have "Some (o_key b, o_event_ts b) \<in> group_key_of gp [''venue'', ''instrument_id''] freq ` set (fr_rows df)"
      using assms(1) by (auto simp: groups_rows_def)
    then obtain r where "column_key [''venue'', ''instrument_id''] r = Some (o_key b)"
      by (auto simp: group_key_of_def map_option_case split: option.splits)
    from column_key_length [OF this] show ?thesis by simp
  qed
  have "inj_on (\<lambda>b. ((o_key b ! 1, o_event_ts b), o_key b ! 0)) (set (tp_bars tape))"
  proof (rule inj_onI)
    fix b c
    assume b: "b \<in> set (tp_bars tape)" "c \<in> set (tp_bars tape)"
      and e: "((o_key b ! 1, o_event_ts b), o_key b ! 0) = ((o_key c ! 1, o_event_ts c), o_key c ! 0)"
    have "o_key b = o_key c"
      by (rule nth_equalityI) (use e two [OF b(1)] two [OF b(2)] in \<open>auto simp: less_Suc_eq numeral_2_eq_2\<close>)
    with e have "(o_key b, o_event_ts b) = (o_key c, o_event_ts c)" by simp
    with d b show "b = c" by (auto simp: distinct_map inj_on_def)
  qed
  moreover have "distinct (tp_bars tape)" using d by (simp add: distinct_map)
  ultimately show ?thesis by (simp add: distinct_map o_def quoted_def case_prod_beta)
qed

text \<open>Where a venue quotes an instrument: the index and the venue of every bar whose VWAP is a number.\<close>

definition quotes :: "tape \<Rightarrow> ((cell \<times> int) \<times> cell) set" where
  "quotes tape = {(i, v). \<exists>x. (i, v, x) \<in> quoted ` set (tp_bars tape) \<and> x \<noteq> NaN}"

lemma spread_of_NaN:
  assumes "x = NaN \<or> (\<exists>p. x = Num p)" and "y = NaN \<or> (\<exists>q. y = Num q \<and> q \<noteq> 0)"
  shows "snd (spread_of x y) \<noteq> NaN \<longleftrightarrow> x \<noteq> NaN \<and> y \<noteq> NaN"
  using assms by (auto simp: spread_of_def Let_def)

lemma synchronized_count:
  assumes "groups_rows gp" and "pivots gp" and "bars gp ''1min'' (Several [''venue'', ''instrument_id'']) df = Inr tape"
    and "\<forall>b\<in>set (tp_bars tape). o_vwap b = NaN \<or> (\<exists>q. o_vwap b = Num q \<and> q \<noteq> 0)"
    and "card (snd ` quotes tape) = 2"
  shows "\<exists>cm. venue_comparison gp ''1min'' df = Inr cm \<and>
    length (synchronized cm) = card {i. \<forall>v\<in>snd ` quotes tape. (i, v) \<in> quotes tape}"
proof -
  let ?xs = "map quoted (tp_bars tape)"
  obtain venues rows where p: "gp_pivot gp ?xs = (venues, rows)" by fastforce
  have q: "(\<exists>y. (i, v, y) \<in> set ?xs \<and> y \<noteq> NaN) \<longleftrightarrow> (i, v) \<in> quotes tape" for i v
    by (simp add: quotes_def)
  have vs: "{v. \<exists>i x. (i, v, x) \<in> set ?xs \<and> x \<noteq> NaN} = snd ` quotes tape"
    and ks: "{i. \<exists>v x. (i, v, x) \<in> set ?xs \<and> x \<noteq> NaN} = fst ` quotes tape"
    unfolding q [symmetric] quotes_def by force+
  have "case gp_pivot gp ?xs of (venues, rows) \<Rightarrow>
       distinct venues \<and> set venues = {v. \<exists>i x. (i, v, x) \<in> set ?xs \<and> x \<noteq> NaN} \<and>
       distinct (map fst rows) \<and> fst ` set rows = {i. \<exists>v x. (i, v, x) \<in> set ?xs \<and> x \<noteq> NaN} \<and>
       (\<forall>(i, cells)\<in>set rows. \<forall>v\<in>set venues. \<exists>x. map_of cells v = Some x \<and> (x \<noteq> NaN \<longleftrightarrow> (\<exists>y. (i, v, y) \<in> set ?xs \<and> y \<noteq> NaN)) \<and>
         (x \<noteq> NaN \<longrightarrow> (i, v, x) \<in> set ?xs))"
    by (rule assms(2) [unfolded pivots_def, THEN spec, THEN mp, OF quoted_distinct [OF assms(1,3)]])
  then have dv: "distinct venues" and sv: "set venues = snd ` quotes tape"
    and dr: "distinct (map fst rows)" and sr: "fst ` set rows = fst ` quotes tape"
    and all: "\<forall>(i, cells)\<in>set rows. \<forall>v\<in>set venues. \<exists>x. map_of cells v = Some x \<and> (x \<noteq> NaN \<longleftrightarrow> (i, v) \<in> quotes tape) \<and>
         (x \<noteq> NaN \<longrightarrow> (i, v, x) \<in> set ?xs)"
    unfolding p vs ks prod.case unfolding q by blast+
  have cells: "\<exists>x. map_of cs v = Some x \<and> (x \<noteq> NaN \<longleftrightarrow> (i, v) \<in> quotes tape) \<and> (x \<noteq> NaN \<longrightarrow> (i, v, x) \<in> quoted ` set (tp_bars tape))"
    if "(i, cs) \<in> set rows" "v \<in> set venues" for i cs v
    using bspec [OF all that(1)] that(2) by simp
  have "length venues = 2" using distinct_card [OF dv] assms(5) sv by simp
  then obtain a b where ab: "venues = [a, b]" by (metis length_0_conv length_Suc_conv numeral_2_eq_2)
  have ne: "fr_rows df \<noteq> []"
  proof
    assume "fr_rows df = []"
    with assms(3) have "quotes tape = {}" by (auto simp: bars_def quotes_def)
    with assms(5) show False by simp
  qed
  let ?cm = "\<lparr> cm_venues = venues, cm_rows = map (wide venues) rows \<rparr>"
  let ?both = "\<lambda>i. (i, a) \<in> quotes tape \<and> (i, b) \<in> quotes tape"
  have shown: "spread_bps (wide venues r) \<noteq> NaN \<longleftrightarrow> ?both (fst r)" if "r \<in> set rows" for r
  proof -
    obtain i cs where r: "r = (i, cs)" by fastforce
    from that r cells [of i cs a] cells [of i cs b] ab obtain x y where
      x: "map_of cs a = Some x" "x \<noteq> NaN \<longleftrightarrow> (i, a) \<in> quotes tape" "x \<noteq> NaN \<longrightarrow> (i, a, x) \<in> quoted ` set (tp_bars tape)" and
      y: "map_of cs b = Some y" "y \<noteq> NaN \<longleftrightarrow> (i, b) \<in> quotes tape" "y \<noteq> NaN \<longrightarrow> (i, b, y) \<in> quoted ` set (tp_bars tape)"
      by auto
    have "x = NaN \<or> (\<exists>p. x = Num p)" and "y = NaN \<or> (\<exists>q. y = Num q \<and> q \<noteq> 0)"
      using x(3) y(3) assms(4) by (fastforce simp: quoted_def)+
    from spread_of_NaN [OF this] show ?thesis using x y
      by (simp add: r ab wide_def spread_bps_def split_beta)
  qed
  have "length (synchronized ?cm) = length (filter (\<lambda>r. ?both (fst r)) rows)"
    using shown by (simp add: synchronized_def ab filter_map o_def cong: filter_cong)
  also have "\<dots> = length (filter ?both (map fst rows))" by (simp add: filter_map o_def)
  also have "\<dots> = card (set (filter ?both (map fst rows)))" using dr distinct_card [of "filter ?both (map fst rows)"] by simp
  also have "set (filter ?both (map fst rows)) = {i. \<forall>v\<in>snd ` quotes tape. (i, v) \<in> quotes tape}"
    unfolding sv [symmetric] ab set_filter set_map sr by force
  finally show ?thesis using assms(3) ne by (simp add: venue_comparison_def p)
qed

text \<open>
  Property C31. The spread samples of the research are exact: when two venues quote, the samples of
  the spread summary, which the last recommendation reports, add up to the number of (instrument,
  minute) in which both have a VWAP, so no minute is compared with a missing venue, none with both
  is left out, and none is counted twice.
\<close>

theorem spread_samples_exact:
  assumes "groups_rows gp" and "pivots gp" and "\<forall>rows. mset (concat (map snd (mk_groups mk rows))) = mset rows"
    and "bars gp ''1min'' (Several [''venue'', ''instrument_id'']) df = Inr tape"
    and "\<forall>b\<in>set (tp_bars tape). o_vwap b = NaN \<or> (\<exists>q. o_vwap b = Num q \<and> q \<noteq> 0)"
    and "card (snd ` quotes tape) = 2"
  shows "\<exists>rows. spread_summary gp mk df = Inr rows \<and>
    (\<Sum>r\<leftarrow>rows. sp_samples r) = int (card {i. \<forall>v\<in>snd ` quotes tape. (i, v) \<in> quotes tape})"
proof -
  obtain cm where cm: "venue_comparison gp ''1min'' df = Inr cm"
    and n: "length (synchronized cm) = card {i. \<forall>v\<in>snd ` quotes tape. (i, v) \<in> quotes tape}"
    using synchronized_count [OF assms(1,2,4,5,6)] by blast
  have "(\<Sum>r\<leftarrow>map (spread_row mk) gs. sp_samples r) = int (length (concat (map snd gs)))" for gs
    by (induction gs) (auto simp: spread_row_def Let_def)
  moreover have "length (concat (map snd (mk_groups mk (synchronized cm)))) = length (synchronized cm)"
    using assms(3) by (metis size_mset)
  ultimately show ?thesis using n by (simp add: spread_summary_def cm)
qed

lemma map_of_zip_fun: "map_of (map (\<lambda>v. (v, g v)) vs) v = (if v \<in> set vs then Some (g v) else None)"
  by (induction vs) auto

lemma plain_pivots: "pivots plain_grouping"
proof -
  have "\<exists>x. map_of (map (\<lambda>v. (v, case map_of (map (\<lambda>(i, v, x). ((i, v), x)) held) (i, v) of Some x \<Rightarrow> x | None \<Rightarrow> NaN)) venues) v = Some x \<and>
      (x \<noteq> NaN \<longleftrightarrow> (\<exists>y. (i, v, y) \<in> set xs \<and> y \<noteq> NaN)) \<and> (x \<noteq> NaN \<longrightarrow> (i, v, x) \<in> set xs)"
    if v: "v \<in> set venues" and held: "held = filter (\<lambda>(_, _, x). x \<noteq> NaN) xs"
    for v venues and i :: "cell \<times> int" and held and xs :: "((cell \<times> int) \<times> cell \<times> number) list"
  proof (cases "map_of (map (\<lambda>(i, v, x). ((i, v), x)) held) (i, v)")
    case None
    then have "((i, v), y) \<notin> set (map (\<lambda>(i, v, x). ((i, v), x)) held)" for y by (metis domI domIff weak_map_of_SomeI)
    then have "(i, v, y) \<notin> set xs \<or> y = NaN" for y by (force simp: held)
    with None v show ?thesis by (simp add: map_of_zip_fun)
  next
    case (Some x)
    from map_of_SomeD [OF this] have "(i, v, x) \<in> set xs" "x \<noteq> NaN" by (auto simp: held)
    with Some v show ?thesis by (simp add: map_of_zip_fun) blast
  qed
  then have cell: "\<forall>i. \<forall>v\<in>set venues. \<exists>x. map_of (map (\<lambda>v. (v, case map_of (map (\<lambda>(i, v, x). ((i, v), x)) (filter (\<lambda>(_, _, x). x \<noteq> NaN) xs)) (i, v) of Some x \<Rightarrow> x | None \<Rightarrow> NaN)) venues) v = Some x \<and>
      (x \<noteq> NaN \<longleftrightarrow> (\<exists>y. (i, v, y) \<in> set xs \<and> y \<noteq> NaN)) \<and> (x \<noteq> NaN \<longrightarrow> (i, v, x) \<in> set xs)"
    for venues and xs :: "((cell \<times> int) \<times> cell \<times> number) list" by blast
  have piv: "gp_pivot plain_grouping = gp_pivot empty_grouping" by (simp add: plain_grouping_def)
  show ?thesis
    unfolding pivots_def piv
  proof (intro allI impI)
    fix xs :: "((cell \<times> int) \<times> cell \<times> number) list"
    let ?held = "filter (\<lambda>(_, _, x). x \<noteq> NaN) xs"
    let ?vs = "remdups (map (\<lambda>(_, v, _). v) ?held)" and ?is = "remdups (map fst ?held)"
    let ?cells = "\<lambda>i. map (\<lambda>v. (v, case map_of (map (\<lambda>(i, v, x). ((i, v), x)) ?held) (i, v) of Some x \<Rightarrow> x | None \<Rightarrow> NaN)) ?vs"
    have val: "gp_pivot empty_grouping xs = (?vs, map (\<lambda>i. (i, ?cells i)) ?is)" by (simp add: empty_grouping_def Let_def)
    have V: "set ?vs = {v. \<exists>i x. (i, v, x) \<in> set xs \<and> x \<noteq> NaN}" and I: "set ?is = {i. \<exists>v x. (i, v, x) \<in> set xs \<and> x \<noteq> NaN}"
      by force+
    have "\<forall>i\<in>set ?is. \<forall>v\<in>set ?vs. \<exists>x. map_of (?cells i) v = Some x \<and> (x \<noteq> NaN \<longleftrightarrow> (\<exists>y. (i, v, y) \<in> set xs \<and> y \<noteq> NaN)) \<and>
         (x \<noteq> NaN \<longrightarrow> (i, v, x) \<in> set xs)" using cell [of ?vs xs] by blast
    then have C: "\<forall>(i, cells)\<in>set (map (\<lambda>i. (i, ?cells i)) ?is). \<forall>v\<in>set ?vs. \<exists>x. map_of cells v = Some x \<and>
         (x \<noteq> NaN \<longleftrightarrow> (\<exists>y. (i, v, y) \<in> set xs \<and> y \<noteq> NaN)) \<and> (x \<noteq> NaN \<longrightarrow> (i, v, x) \<in> set xs)"
      unfolding set_map [of "\<lambda>i. (i, ?cells i)"] ball_simps prod.case .
    have "distinct (map fst (map (\<lambda>i. (i, ?cells i)) ?is))" by (simp only: map_map o_def fst_conv map_ident distinct_remdups)
    moreover have "fst ` set (map (\<lambda>i. (i, ?cells i)) ?is) = set ?is"
      by (simp only: set_map [of "\<lambda>i. (i, ?cells i)"] image_image fst_conv image_ident)
    ultimately show "case gp_pivot empty_grouping xs of (venues, rows) \<Rightarrow>
       distinct venues \<and> set venues = {v. \<exists>i x. (i, v, x) \<in> set xs \<and> x \<noteq> NaN} \<and>
       distinct (map fst rows) \<and> fst ` set rows = {i. \<exists>v x. (i, v, x) \<in> set xs \<and> x \<noteq> NaN} \<and>
       (\<forall>(i, cells)\<in>set rows. \<forall>v\<in>set venues. \<exists>x. map_of cells v = Some x \<and> (x \<noteq> NaN \<longleftrightarrow> (\<exists>y. (i, v, y) \<in> set xs \<and> y \<noteq> NaN)) \<and>
         (x \<noteq> NaN \<longrightarrow> (i, v, x) \<in> set xs))"
      unfolding val prod.case using V I C by (simp only: distinct_remdups simp_thms)
  qed
qed

lemma grouped_rows:
  "distinct ks \<Longrightarrow> f ` set rows \<subseteq> set ks \<Longrightarrow> mset (concat (map (\<lambda>k. filter (\<lambda>r. f r = k) rows) ks)) = mset rows"
proof (induction ks arbitrary: rows)
  case (Cons k ks)
  let ?rest = "filter (\<lambda>r. f r \<noteq> k) rows"
  have rest: "filter (\<lambda>r. f r = k') rows = filter (\<lambda>r. f r = k') ?rest" if "k' \<in> set ks" for k'
    using that Cons.prems(1) by (auto intro!: filter_cong)
  have "concat (map (\<lambda>k. filter (\<lambda>r. f r = k) rows) ks) = concat (map (\<lambda>k. filter (\<lambda>r. f r = k) ?rest) ks)"
    by (intro arg_cong [of _ _ concat] map_cong refl rest)
  moreover have "mset (concat (map (\<lambda>k. filter (\<lambda>r. f r = k) ?rest) ks)) = mset ?rest"
    by (rule Cons.IH) (use Cons.prems in auto)
  ultimately show ?case by (simp add: multiset_partition [of "mset rows" "\<lambda>r. f r = k", symmetric])
qed simp

definition plain_market :: market where
  "plain_market = \<lparr> mk_order = (\<lambda>xs. [0..<length xs]), mk_median = (\<lambda>_. NaN), mk_max = (\<lambda>_. NaN), mk_min = (\<lambda>_. NaN),
     mk_quantile = (\<lambda>_ _. NaN), mk_std = (\<lambda>_. 0), mk_corr = (\<lambda>_. NaN),
     mk_groups = (\<lambda>rows. map (\<lambda>i. (i, filter (\<lambda>w. fst (w_index w) = i) rows)) (remdups (map (fst \<circ> w_index) rows))),
     mk_pivot = (\<lambda>_. ([], [])) \<rparr>"

lemma plain_market_groups: "\<forall>rows. mset (concat (map snd (mk_groups plain_market rows))) = mset rows"
proof
  fix rows
  show "mset (concat (map snd (mk_groups plain_market rows))) = mset rows"
    using grouped_rows [of "remdups (map (fst \<circ> w_index) rows)" "fst \<circ> w_index" rows] by (simp add: plain_market_def o_def)
qed

text \<open>Both venues trade in the first minute, one alone in the second.\<close>

definition tick :: "string \<Rightarrow> int \<Rightarrow> frame_row" where
  "tick venue us = [(''venue'', Raw (AStr venue)), (''instrument_id'', Raw (AStr ''BTC-USD'')), (''event_ts'', Time us),
     (''price'', Flt 2), (''size'', Flt 2), (''notional'', Flt 4)]"

definition ticks :: frame where
  "ticks = \<lparr> fr_columns = [''venue'', ''instrument_id'', ''event_ts'', ''price'', ''size'', ''notional''],
     fr_rows = [tick ''binance'' 0, tick ''coinbase'' 5, tick ''binance'' 60000000] \<rparr>"

lemma tick_floats: "fl_signed 2 = 2" "fl_signed 4 = 4"
  by (simp_all add: fl_signed_def fl.simps round_half_even_def)

lemma ticks_bars:
  "\<exists>tape. bars plain_grouping ''1min'' (Several [''venue'', ''instrument_id'']) ticks = Inr tape \<and>
     map quoted (tp_bars tape) = [((Raw (AStr ''BTC-USD''), 0), Raw (AStr ''binance''), Num 2),
       ((Raw (AStr ''BTC-USD''), 0), Raw (AStr ''coinbase''), Num 2), ((Raw (AStr ''BTC-USD''), 60000000), Raw (AStr ''binance''), Num 2)]"
  by (simp add: bars_def Let_def require_column_def ticks_def tick_def plain_grouping_def empty_grouping_def group_key_of_def
      column_key_def map_filter_simps aggregate_def quoted_def fdiv_def tick_floats)

theorem spread_samples_exact_witness:
  "\<exists>rows. spread_summary plain_grouping plain_market ticks = Inr rows \<and> (\<Sum>r\<leftarrow>rows. sp_samples r) = 1"
proof -
  from ticks_bars obtain tape where t: "bars plain_grouping ''1min'' (Several [''venue'', ''instrument_id'']) ticks = Inr tape \<and>
     map quoted (tp_bars tape) = [((Raw (AStr ''BTC-USD''), 0), Raw (AStr ''binance''), Num 2),
       ((Raw (AStr ''BTC-USD''), 0), Raw (AStr ''coinbase''), Num 2), ((Raw (AStr ''BTC-USD''), 60000000), Raw (AStr ''binance''), Num 2)]" ..
  note tape = conjunct1 [OF t] and q = conjunct2 [OF t]
  let ?i = "\<lambda>m. (Raw (AStr ''BTC-USD''), m :: int)" and ?v = "\<lambda>v. Raw (AStr v)"
  have "quotes tape = {(?i 0, ?v ''binance''), (?i 0, ?v ''coinbase''), (?i 60000000, ?v ''binance'')}"
    unfolding quotes_def set_map [symmetric] q by auto
  then have s: "snd ` quotes tape = {?v ''binance'', ?v ''coinbase''}"
    and both: "{i. \<forall>v\<in>snd ` quotes tape. (i, v) \<in> quotes tape} = {?i 0}" by auto
  have "(\<lambda>b. snd (snd (quoted b))) ` set (tp_bars tape) \<subseteq> {Num 2}"
    using arg_cong [OF q, of "\<lambda>xs. (\<lambda>x. snd (snd x)) ` set xs"] by (simp add: image_image)
  then have v: "\<forall>b\<in>set (tp_bars tape). o_vwap b = NaN \<or> (\<exists>q. o_vwap b = Num q \<and> q \<noteq> 0)"
    by (auto simp: quoted_def)
  from spread_samples_exact [OF plain_grouping_facts(1) plain_pivots plain_market_groups tape v] s both show ?thesis by simp
qed

end
