(* ===== verification/Silver.thy ===== *)
theory Silver
  imports Models Athena
begin

text \<open>
  lakehouse/trades: schema.py, transforms.py and checks.py. A row of a DataFrame is the list of
  its columns in order, NULL is None. Spark itself is a parameter: from_avro in PERMISSIVE mode
  (None where it answers a NULL struct), the cast of bytes to a string, the cast and try_cast of a
  string to the decimal type named, and the reading of current_timestamp. The predicates, SQL text in the
  source, are terms of a small SQL with its three-valued logic; printing the terms gives the text
  of the source back.
\<close>

subsection \<open>Constants\<close>

definition epoch_floor_us :: int where "epoch_floor_us = 1483228800000000"

definition one_day_us :: int where "one_day_us = 86400000000"

definition decimal_type :: string where "decimal_type = ''DECIMAL(38,18)''"

definition quarantine_reason :: string where "quarantine_reason = ''_quarantine_reason''"

definition bronze_audit_columns :: "string list" where
  "bronze_audit_columns = [''_kafka_value'', ''_kafka_key'', ''_kafka_topic'', ''_kafka_partition'', ''_kafka_offset'',
     ''_kafka_timestamp'', ''_ingested_at'', quarantine_reason]"

definition silver_columns :: "string list" where
  "silver_columns = [''venue'', ''venue_symbol'', ''instrument_id'', ''trade_id'', ''event_ts_us'', ''event_ts'',
     ''ingest_ts_us'', ''price'', ''size'', ''side'', ''source'', ''sequence'', ''is_backfill'']"

subsection \<open>Rows\<close>

datatype sqlval = VText string | VLong int | VBool bool | VDec rat | VTime int

type_synonym row = "(string \<times> sqlval option) list"

record spark =
  s_from_avro :: "string \<Rightarrow> (string, avro) dict option"
  s_string :: "string \<Rightarrow> string option"
  s_try_cast :: "string \<Rightarrow> string \<Rightarrow> rat option"
  s_cast :: "string \<Rightarrow> string \<Rightarrow> rat option"
  s_now_us :: int

record kafka_row =
  k_key :: "string option"
  k_value :: string
  k_topic :: string
  k_partition :: int
  k_offset :: int
  k_timestamp :: int

definition col :: "row \<Rightarrow> string \<Rightarrow> sqlval option" where
  "col r c = (case map_of r c of Some v \<Rightarrow> v | None \<Rightarrow> None)"

fun avro_cell :: "avro \<Rightarrow> sqlval option" where
  "avro_cell (AStr s) = Some (VText s)"
| "avro_cell (ALong i) = Some (VLong i)"
| "avro_cell (ABool b) = Some (VBool b)"
| "avro_cell ANull = None"

definition decoded_columns :: "(string, avro) dict option \<Rightarrow> row" where
  "decoded_columns d = map (\<lambda>(n, _). (n, case d of None \<Rightarrow> None | Some rec \<Rightarrow>
     (case map_of rec n of None \<Rightarrow> None | Some a \<Rightarrow> avro_cell a))) trade_v1"

definition decode_kafka_trades :: "spark \<Rightarrow> kafka_row \<Rightarrow> row" where
  "decode_kafka_trades sp k = decoded_columns (s_from_avro sp (k_value k)) @
     [(''_kafka_value'', Some (VText (k_value k))),
      (''_kafka_key'', case k_key k of None \<Rightarrow> None | Some b \<Rightarrow> map_option VText (s_string sp b)),
      (''_kafka_topic'', Some (VText (k_topic k))),
      (''_kafka_partition'', Some (VLong (k_partition k))),
      (''_kafka_offset'', Some (VLong (k_offset k))),
      (''_kafka_timestamp'', Some (VTime (k_timestamp k))),
      (''_ingested_at'', Some (VTime (s_now_us sp)))]"

subsection \<open>Predicates\<close>

datatype operand = Col string | Num int | Str string | TryCast string | NowPlus int

datatype pred = NotNull operand | Ge operand operand | Le operand operand | Gt operand operand
  | Ne operand operand | In operand "string list" | And pred pred | Or pred pred

text \<open>The SQL text of a predicate, as Spark is given it.\<close>

definition sql_quote :: "string \<Rightarrow> string" where
  "sql_quote s = [char_of (39::nat)] @ s @ [char_of (39::nat)]"

fun operand_text :: "operand \<Rightarrow> string" where
  "operand_text (Col c) = c"
| "operand_text (Num i) = int_str i"
| "operand_text (Str s) = sql_quote s"
| "operand_text (TryCast c) = ''try_cast('' @ c @ '' AS '' @ decimal_type @ '')''"
| "operand_text (NowPlus i) = ''unix_micros(current_timestamp()) + '' @ int_str i"

fun pred_text :: "pred \<Rightarrow> string" where
  "pred_text (NotNull a) = operand_text a @ '' IS NOT NULL''"
| "pred_text (Ge a b) = operand_text a @ '' >= '' @ operand_text b"
| "pred_text (Le a b) = operand_text a @ '' <= '' @ operand_text b"
| "pred_text (Gt a b) = operand_text a @ '' > '' @ operand_text b"
| "pred_text (Ne a b) = operand_text a @ '' <> '' @ operand_text b"
| "pred_text (In a xs) = operand_text a @ '' IN ('' @ join '', '' (map sql_quote xs) @ '')''"
| "pred_text (And p q) = pred_text p @ '' AND '' @ pred_text q"
| "pred_text (Or p q) = pred_text p @ '' OR '' @ pred_text q"

text \<open>Three-valued logic: None is SQL's NULL truth value.\<close>

fun and3 :: "bool option \<Rightarrow> bool option \<Rightarrow> bool option" where
  "and3 (Some False) _ = Some False"
| "and3 _ (Some False) = Some False"
| "and3 (Some True) (Some True) = Some True"
| "and3 _ _ = None"

fun or3 :: "bool option \<Rightarrow> bool option \<Rightarrow> bool option" where
  "or3 (Some True) _ = Some True"
| "or3 _ (Some True) = Some True"
| "or3 (Some False) (Some False) = Some False"
| "or3 _ _ = None"

definition operand_val :: "spark \<Rightarrow> row \<Rightarrow> operand \<Rightarrow> sqlval option" where
  "operand_val sp r a = (case a of
     Col c \<Rightarrow> col r c
   | Num i \<Rightarrow> Some (VLong i)
   | Str s \<Rightarrow> Some (VText s)
   | TryCast c \<Rightarrow> (case col r c of Some (VText s) \<Rightarrow> map_option VDec (s_try_cast sp decimal_type s) | _ \<Rightarrow> None)
   | NowPlus i \<Rightarrow> Some (VLong (s_now_us sp + i)))"

fun number :: "sqlval \<Rightarrow> rat option" where
  "number (VLong i) = Some (of_int i)"
| "number (VDec d) = Some d"
| "number _ = None"

definition compare :: "(rat \<Rightarrow> rat \<Rightarrow> bool) \<Rightarrow> sqlval option \<Rightarrow> sqlval option \<Rightarrow> bool option" where
  "compare op x y = (case (x, y) of
     (Some u, Some v) \<Rightarrow> (case (number u, number v) of (Some a, Some b) \<Rightarrow> Some (op a b) | _ \<Rightarrow> None)
   | _ \<Rightarrow> None)"

fun pred_val :: "spark \<Rightarrow> row \<Rightarrow> pred \<Rightarrow> bool option" where
  "pred_val sp r (NotNull a) = Some (operand_val sp r a \<noteq> None)"
| "pred_val sp r (Ge a b) = compare (\<ge>) (operand_val sp r a) (operand_val sp r b)"
| "pred_val sp r (Le a b) = compare (\<le>) (operand_val sp r a) (operand_val sp r b)"
| "pred_val sp r (Gt a b) = compare (>) (operand_val sp r a) (operand_val sp r b)"
| "pred_val sp r (Ne a b) = (case (operand_val sp r a, operand_val sp r b) of
     (Some u, Some v) \<Rightarrow> Some (u \<noteq> v) | _ \<Rightarrow> None)"
| "pred_val sp r (In a xs) = (case operand_val sp r a of Some u \<Rightarrow> Some (u \<in> VText ` set xs) | None \<Rightarrow> None)"
| "pred_val sp r (And p q) = and3 (pred_val sp r p) (pred_val sp r q)"
| "pred_val sp r (Or p q) = or3 (pred_val sp r p) (pred_val sp r q)"

definition present :: "string \<Rightarrow> pred" where
  "present c = And (NotNull (Col c)) (Ne (Col c) (Str []))"

definition positive_decimal :: "string \<Rightarrow> pred" where
  "positive_decimal c = And (NotNull (TryCast c)) (Gt (TryCast c) (Num 0))"

definition quarantine_predicates :: "(string \<times> pred) list" where
  "quarantine_predicates =
    [(''decode_failed'', Or (NotNull (Col ''venue'')) (Or (NotNull (Col ''trade_id'')) (NotNull (Col ''event_ts_us'')))),
     (''missing_key'', And (present ''venue'') (present ''trade_id'')),
     (''missing_instrument'', present ''instrument_id''),
     (''bad_timestamp'', And (NotNull (Col ''event_ts_us'')) (And (Ge (Col ''event_ts_us'') (Num epoch_floor_us))
        (Le (Col ''event_ts_us'') (NowPlus one_day_us)))),
     (''bad_price'', positive_decimal ''price''),
     (''bad_size'', positive_decimal ''size''),
     (''bad_side'', And (NotNull (Col ''side'')) (In (Col ''side'') [''BUY'', ''SELL'', ''UNKNOWN'']))]"

subsection \<open>Classification and projection\<close>

text \<open>The chained when clauses: a clause applies when the negated predicate is TRUE.\<close>

fun first_failing :: "spark \<Rightarrow> row \<Rightarrow> (string \<times> pred) list \<Rightarrow> string option" where
  "first_failing sp r [] = None"
| "first_failing sp r ((n, p) # ps) = (if pred_val sp r p = Some False then Some n else first_failing sp r ps)"

definition reason :: "spark \<Rightarrow> row \<Rightarrow> string option" where
  "reason sp r = first_failing sp r quarantine_predicates"

definition classify_trades :: "spark \<Rightarrow> row list \<Rightarrow> row list" where
  "classify_trades sp rows = map (\<lambda>r. r @ [(quarantine_reason, map_option VText (reason sp r))]) rows"

definition cast_decimal :: "spark \<Rightarrow> sqlval option \<Rightarrow> sqlval option" where
  "cast_decimal sp v = (case v of Some (VText s) \<Rightarrow> map_option VDec (s_cast sp decimal_type s) | _ \<Rightarrow> None)"

definition silver_row :: "spark \<Rightarrow> row \<Rightarrow> row" where
  "silver_row sp r =
     [(''venue'', col r ''venue''), (''venue_symbol'', col r ''venue_symbol''), (''instrument_id'', col r ''instrument_id''),
      (''trade_id'', col r ''trade_id''), (''event_ts_us'', col r ''event_ts_us''),
      (''event_ts'', case col r ''event_ts_us'' of Some (VLong i) \<Rightarrow> Some (VTime i) | _ \<Rightarrow> None),
      (''ingest_ts_us'', col r ''ingest_ts_us''),
      (''price'', cast_decimal sp (col r ''price'')), (''size'', cast_decimal sp (col r ''size'')),
      (''side'', col r ''side''), (''source'', col r ''source''), (''sequence'', col r ''sequence''),
      (''is_backfill'', col r ''is_backfill'')]"

definition valid_trades :: "spark \<Rightarrow> row list \<Rightarrow> row list" where
  "valid_trades sp rows = map (silver_row sp) (filter (\<lambda>r. col r quarantine_reason = None) rows)"

definition quarantined_trades :: "row list \<Rightarrow> row list" where
  "quarantined_trades rows = filter (\<lambda>r. col r quarantine_reason \<noteq> None) rows"

subsection \<open>Immutability\<close>

definition row_group :: "row \<Rightarrow> sqlval option \<times> sqlval option" where
  "row_group r = (col r ''venue'', col r ''trade_id'')"

text \<open>countDistinct of a column over the rows of a group: NULLs do not count.\<close>

definition count_distinct :: "row list \<Rightarrow> string \<Rightarrow> nat" where
  "count_distinct rows c = length (remdups (List.map_filter (\<lambda>r. col r c) rows))"

definition violation :: "row list \<Rightarrow> sqlval option \<times> sqlval option \<Rightarrow> (sqlval option \<times> sqlval option) \<times> nat \<times> nat \<times> nat" where
  "violation rows g = (let rs = filter (\<lambda>r. row_group r = g) rows
     in (g, count_distinct rs ''event_ts_us'', count_distinct rs ''price'', count_distinct rs ''size''))"

definition find_immutability_violations ::
  "row list \<Rightarrow> ((sqlval option \<times> sqlval option) \<times> nat \<times> nat \<times> nat) list" where
  "find_immutability_violations rows = filter (\<lambda>(g, ts, price, size). 1 < ts \<or> 1 < price \<or> 1 < size)
     (map (violation rows) (remdups (map row_group rows)))"

subsection \<open>Facts\<close>

lemma int_str_constants: "int_str 1483228800000000 = ''1483228800000000''" "int_str 86400000000 = ''86400000000''"
    "int_str 0 = ''0''"
  by (simp_all add: int_str_def nat_str.simps digit_chr_def char_of_def bit_0)

text \<open>The terms print as the strings of the source.\<close>

lemma predicates_printed: "map (\<lambda>np. (fst np, pred_text (snd np))) quarantine_predicates =
    [(''decode_failed'', ''venue IS NOT NULL OR trade_id IS NOT NULL OR event_ts_us IS NOT NULL''),
     (''missing_key'', ''venue IS NOT NULL AND venue <> '' @ sql_quote [] @ '' AND trade_id IS NOT NULL AND trade_id <> '' @ sql_quote []),
     (''missing_instrument'', ''instrument_id IS NOT NULL AND instrument_id <> '' @ sql_quote []),
     (''bad_timestamp'', ''event_ts_us IS NOT NULL AND event_ts_us >= 1483228800000000 AND event_ts_us <= unix_micros(current_timestamp()) + 86400000000''),
     (''bad_price'', ''try_cast(price AS DECIMAL(38,18)) IS NOT NULL AND try_cast(price AS DECIMAL(38,18)) > 0''),
     (''bad_size'', ''try_cast(size AS DECIMAL(38,18)) IS NOT NULL AND try_cast(size AS DECIMAL(38,18)) > 0''),
     (''bad_side'', ''side IS NOT NULL AND side IN ('' @ sql_quote ''BUY'' @ '', '' @ sql_quote ''SELL'' @ '', '' @ sql_quote ''UNKNOWN'' @ '')'')]"
  by (simp add: quarantine_predicates_def present_def positive_decimal_def decimal_type_def epoch_floor_us_def
      one_day_us_def int_str_constants)

text \<open>A conforming record is the Avro form of a trade.\<close>

lemma conforms_is_trade: "conforms d trade_v1 \<Longrightarrow> \<exists>t. d = to_avro t"
proof -
  have str: "has_type x TString \<Longrightarrow> \<exists>s. x = AStr s" and long: "has_type x TLong \<Longrightarrow> \<exists>i. x = ALong i"
    and bool: "has_type x TBoolean \<Longrightarrow> \<exists>b. x = ABool b" and opt: "has_type x TUnionNullLong \<Longrightarrow> \<exists>q. x = avro_opt q"
    and enum: "has_type x (TEnum syms) \<Longrightarrow> \<exists>s. s \<in> set syms \<and> x = AStr s" for x syms
    by (cases x; auto intro: exI [of _ None] exI [of _ "Some _"] simp: exI [of "\<lambda>q. ALong _ = avro_opt q" "Some _"])+
  assume c: "conforms d trade_v1"
  then obtain v vs i t e g p s sd q b src where d:
    "d = [(''venue'', v), (''venue_symbol'', vs), (''instrument_id'', i), (''trade_id'', t), (''event_ts_us'', e),
      (''ingest_ts_us'', g), (''price'', p), (''size'', s), (''side'', sd), (''sequence'', q), (''is_backfill'', b), (''source'', src)]"
    unfolding conforms_def trade_v1_def list_all2_Cons2 list_all2_Nil2 by (auto split: prod.splits)
  from c have "has_type v TString" "has_type vs TString" "has_type i TString" "has_type t TString" "has_type e TLong"
    "has_type g TLong" "has_type p TString" "has_type s TString" "has_type sd (TEnum [''BUY'', ''SELL'', ''UNKNOWN''])"
    "has_type q TUnionNullLong" "has_type b TBoolean" "has_type src (TEnum [''STREAM'', ''REST_REPAIR'', ''ARCHIVE''])"
    by (simp_all add: d conforms_def trade_v1_def)
  then obtain v' vs' i' t' e' g' p' s' sd' q' b' src' where x:
    "v = AStr v'" "vs = AStr vs'" "i = AStr i'" "t = AStr t'" "e = ALong e'" "g = ALong g'" "p = AStr p'" "s = AStr s'"
    "sd = AStr sd'" "sd' \<in> {''BUY'', ''SELL'', ''UNKNOWN''}" "q = avro_opt q'" "b = ABool b'"
    "src = AStr src'" "src' \<in> {''STREAM'', ''REST_REPAIR'', ''ARCHIVE''}"
    using str long bool opt enum by (metis empty_set list.simps(15))
  obtain sd2 where sd2: "side_str sd2 = sd'"
    using x(10) side_str.simps by (metis insertE singletonD)
  obtain src2 where src2: "source_str src2 = src'"
    using x(14) source_str.simps by (metis insertE singletonD)
  show ?thesis
    by (rule exI [of _ "\<lparr> t_venue = v', t_venue_symbol = vs', t_instrument_id = i', t_trade_id = t', t_event_ts_us = e',
      t_ingest_ts_us = g', t_price = p', t_size = s', t_side = sd2, t_sequence = q', t_is_backfill = b', t_source = src2 \<rparr>"])
      (simp add: d x to_avro_def sd2 src2)
qed

text \<open>The reason of a decoded trade, read off its fields.\<close>

definition positive :: "rat option \<Rightarrow> bool" where
  "positive x \<longleftrightarrow> (case x of Some d \<Rightarrow> 0 < d | None \<Rightarrow> False)"

definition trade_reason :: "spark \<Rightarrow> trade \<Rightarrow> string option" where
  "trade_reason sp t =
     (if t_venue t = [] \<or> t_trade_id t = [] then Some ''missing_key''
      else if t_instrument_id t = [] then Some ''missing_instrument''
      else if \<not> (epoch_floor_us \<le> t_event_ts_us t \<and> t_event_ts_us t \<le> s_now_us sp + one_day_us) then Some ''bad_timestamp''
      else if \<not> positive (s_try_cast sp decimal_type (t_price t)) then Some ''bad_price''
      else if \<not> positive (s_try_cast sp decimal_type (t_size t)) then Some ''bad_size''
      else None)"

lemma col_Cons [simp]: "col ((n, v) # r) c = (if c = n then v else col r c)"
  by (simp add: col_def)

lemma col_append: "col (r @ s) c = (if c \<in> fst ` set r then col r c else col s c)"
proof (induction r)
  case (Cons nv r)
  then show ?case by (cases nv) simp
qed simp

lemma decoded_trade: "decoded_columns (Some (to_avro t)) =
    [(''venue'', Some (VText (t_venue t))), (''venue_symbol'', Some (VText (t_venue_symbol t))),
     (''instrument_id'', Some (VText (t_instrument_id t))), (''trade_id'', Some (VText (t_trade_id t))),
     (''event_ts_us'', Some (VLong (t_event_ts_us t))), (''ingest_ts_us'', Some (VLong (t_ingest_ts_us t))),
     (''price'', Some (VText (t_price t))), (''size'', Some (VText (t_size t))),
     (''side'', Some (VText (side_str (t_side t)))), (''sequence'', map_option VLong (t_sequence t)),
     (''is_backfill'', Some (VBool (t_is_backfill t))), (''source'', Some (VText (source_str (t_source t))))]"
  by (cases "t_sequence t") (simp_all add: decoded_columns_def trade_v1_def to_avro_def)

lemma decoded_null: "decoded_columns None = map (\<lambda>(n, _). (n, None)) trade_v1"
  by (simp add: decoded_columns_def)

lemma and3_simp [simp]: "and3 (Some a) (Some b) = Some (a \<and> b)" and or3_simp [simp]: "or3 (Some a) (Some b) = Some (a \<or> b)"
  by (cases a; cases b; simp)+

text \<open>The predicates on typed cells: never NULL.\<close>

lemma present_val: "col r c \<in> range (map_option VText) \<Longrightarrow>
    pred_val sp r (present c) = Some (col r c \<noteq> None \<and> col r c \<noteq> Some (VText []))"
  by (cases "col r c") (auto simp: present_def operand_val_def)

lemma positive_val: "col r c \<in> range (map_option VText) \<Longrightarrow>
    pred_val sp r (positive_decimal c) =
      Some (\<exists>s. col r c = Some (VText s) \<and> positive (s_try_cast sp decimal_type s))"
proof -
  assume "col r c \<in> range (map_option VText)"
  then obtain o' where o: "col r c = map_option VText o'" by auto
  show ?thesis
    by (cases o'; cases "s_try_cast sp decimal_type (the o')")
      (simp_all add: positive_decimal_def operand_val_def o compare_def positive_def)
qed

lemma window_val: "col r c = map_option VLong o' \<Longrightarrow>
    pred_val sp r (And (NotNull (Col c)) (And (Ge (Col c) (Num lo)) (Le (Col c) (NowPlus d)))) =
      Some (\<exists>i. o' = Some i \<and> lo \<le> i \<and> i \<le> s_now_us sp + d)"
  by (cases o') (simp_all add: operand_val_def compare_def of_int_add [symmetric] del: of_int_add)

lemma in_val: "col r c = map_option VText o' \<Longrightarrow>
    pred_val sp r (And (NotNull (Col c)) (In (Col c) xs)) = Some (\<exists>s\<in>set xs. o' = Some s)"
  by (cases o') (auto simp: operand_val_def)

lemma not_null_val: "pred_val sp r (NotNull (Col c)) = Some (col r c \<noteq> None)"
  by (simp add: operand_val_def)

text \<open>A row whose columns have the types of the schema: what decoding gives.\<close>

definition typed :: "row \<Rightarrow> bool" where
  "typed r \<longleftrightarrow> (\<forall>c\<in>{''venue'', ''trade_id'', ''instrument_id'', ''price'', ''size'', ''side''}. col r c \<in> range (map_option VText))
     \<and> col r ''event_ts_us'' \<in> range (map_option VLong)"

text \<open>What each predicate says about a typed row.\<close>

definition checks :: "spark \<Rightarrow> row \<Rightarrow> (string \<times> bool) list" where
  "checks sp r =
     [(''decode_failed'', col r ''venue'' \<noteq> None \<or> col r ''trade_id'' \<noteq> None \<or> col r ''event_ts_us'' \<noteq> None),
      (''missing_key'', col r ''venue'' \<noteq> None \<and> col r ''venue'' \<noteq> Some (VText []) \<and>
         col r ''trade_id'' \<noteq> None \<and> col r ''trade_id'' \<noteq> Some (VText [])),
      (''missing_instrument'', col r ''instrument_id'' \<noteq> None \<and> col r ''instrument_id'' \<noteq> Some (VText [])),
      (''bad_timestamp'', \<exists>i. col r ''event_ts_us'' = Some (VLong i) \<and> epoch_floor_us \<le> i \<and> i \<le> s_now_us sp + one_day_us),
      (''bad_price'', \<exists>s. col r ''price'' = Some (VText s) \<and> positive (s_try_cast sp decimal_type s)),
      (''bad_size'', \<exists>s. col r ''size'' = Some (VText s) \<and> positive (s_try_cast sp decimal_type s)),
      (''bad_side'', \<exists>s\<in>{''BUY'', ''SELL'', ''UNKNOWN''}. col r ''side'' = Some (VText s))]"

lemma predicates_of_typed:
  assumes "typed r"
  shows "map (\<lambda>np. (fst np, pred_val sp r (snd np))) quarantine_predicates = map (\<lambda>nb. (fst nb, Some (snd nb))) (checks sp r)"
proof -
  from assms have t: "col r ''venue'' \<in> range (map_option VText)" "col r ''trade_id'' \<in> range (map_option VText)"
    "col r ''instrument_id'' \<in> range (map_option VText)" "col r ''price'' \<in> range (map_option VText)"
    "col r ''size'' \<in> range (map_option VText)"
    by (simp_all add: typed_def)
  from assms obtain ts sd where e: "col r ''event_ts_us'' = map_option VLong ts" "col r ''side'' = map_option VText sd"
    by (auto simp: typed_def)
  have "pred_val sp r (Or (NotNull (Col ''venue'')) (Or (NotNull (Col ''trade_id'')) (NotNull (Col ''event_ts_us'')))) =
      Some (snd (checks sp r ! 0))"
    by (simp add: checks_def operand_val_def)
  moreover have "pred_val sp r (And (present ''venue'') (present ''trade_id'')) = Some (snd (checks sp r ! 1))"
    by (simp add: checks_def present_val t)
  moreover have "pred_val sp r (present ''instrument_id'') = Some (snd (checks sp r ! 2))"
    by (simp add: checks_def present_val t)
  moreover have "pred_val sp r (And (NotNull (Col ''event_ts_us'')) (And (Ge (Col ''event_ts_us'') (Num epoch_floor_us))
      (Le (Col ''event_ts_us'') (NowPlus one_day_us)))) = Some (snd (checks sp r ! 3))"
    unfolding window_val [OF e(1)] by (simp add: checks_def e)
  moreover have "pred_val sp r (positive_decimal ''price'') = Some (snd (checks sp r ! 4))"
    "pred_val sp r (positive_decimal ''size'') = Some (snd (checks sp r ! 5))"
    unfolding positive_val [OF t(4)] positive_val [OF t(5)] by (simp_all add: checks_def)
  moreover have "pred_val sp r (And (NotNull (Col ''side'')) (In (Col ''side'') [''BUY'', ''SELL'', ''UNKNOWN''])) =
      Some (snd (checks sp r ! 6))"
    unfolding in_val [OF e(2)] by (simp add: checks_def e)
  ultimately show ?thesis
    unfolding quarantine_predicates_def by (simp only: list.map fst_conv snd_conv) (simp add: checks_def)
qed

text \<open>The reason is the name of the first check that fails.\<close>

lemma first_failing_find:
  "map (\<lambda>np. (fst np, pred_val sp r (snd np))) ps = map (\<lambda>nb. (fst nb, Some (snd nb))) cs \<Longrightarrow>
   first_failing sp r ps = map_option fst (List.find (\<lambda>nb. \<not> snd nb) cs)"
proof (induction ps arbitrary: cs)
  case (Cons np ps)
  then obtain nb cs' where "cs = nb # cs'" "fst np = fst nb" "pred_val sp r (snd np) = Some (snd nb)"
    "map (\<lambda>np. (fst np, pred_val sp r (snd np))) ps = map (\<lambda>nb. (fst nb, Some (snd nb))) cs'"
    by (cases cs) auto
  with Cons.IH [of cs'] show ?case by (cases np) auto
qed simp

lemma reason_find: "typed r \<Longrightarrow> reason sp r = map_option fst (List.find (\<lambda>nb. \<not> snd nb) (checks sp r))"
  unfolding reason_def by (rule first_failing_find) (rule predicates_of_typed)

lemma never_null: "typed r \<Longrightarrow> (n, p) \<in> set quarantine_predicates \<Longrightarrow> pred_val sp r p \<noteq> None"
proof -
  assume "typed r" and m: "(n, p) \<in> set quarantine_predicates"
  have "(n, pred_val sp r p) \<in> set (map (\<lambda>np. (fst np, pred_val sp r (snd np))) quarantine_predicates)"
    unfolding set_map by (rule image_eqI [OF _ m]) simp
  then have "(n, pred_val sp r p) \<in> set (map (\<lambda>nb. (fst nb, Some (snd nb))) (checks sp r))"
    unfolding predicates_of_typed [OF \<open>typed r\<close>] .
  then show ?thesis unfolding set_map by (elim imageE) simp
qed

lemma typed_decoded:
  assumes "\<forall>d. s_from_avro sp (k_value k) = Some d \<longrightarrow> conforms d trade_v1"
  shows "typed (decode_kafka_trades sp k)"
proof (cases "s_from_avro sp (k_value k)")
  case None
  then show ?thesis
    by (auto simp: typed_def decode_kafka_trades_def decoded_null trade_v1_def image_iff intro: exI [of _ None])
next
  case (Some d)
  with assms obtain t where "d = to_avro t" using conforms_is_trade by blast
  with Some show ?thesis by (auto simp: typed_def decode_kafka_trades_def decoded_trade image_iff intro: exI [of _ "Some _"])
qed

lemma reason_of_trade:
  assumes "s_from_avro sp (k_value k) = Some (to_avro t)"
  shows "reason sp (decode_kafka_trades sp k) = trade_reason sp t"
proof -
  have "typed (decode_kafka_trades sp k)"
    by (auto simp: typed_def decode_kafka_trades_def assms decoded_trade image_iff intro: exI [of _ "Some _"])
  note f = reason_find [OF this, of sp]
  show ?thesis unfolding f
    by (cases "t_side t") (simp_all add: checks_def decode_kafka_trades_def assms decoded_trade trade_reason_def)
qed

lemma reason_of_undecodable:
  assumes "s_from_avro sp (k_value k) = None"
  shows "reason sp (decode_kafka_trades sp k) = Some ''decode_failed''"
proof -
  have "typed (decode_kafka_trades sp k)" by (rule typed_decoded) (simp add: assms)
  note f = reason_find [OF this, of sp]
  show ?thesis unfolding f by (simp add: checks_def decode_kafka_trades_def assms decoded_null trade_v1_def)
qed

lemma reason_not_decoded_column: "quarantine_reason \<notin> fst ` set (decode_kafka_trades sp k)"
  by (auto simp: decode_kafka_trades_def decoded_columns_def trade_v1_def quarantine_reason_def)

lemma classified_reason: "col (decode_kafka_trades sp k @ [(quarantine_reason, map_option VText x)]) quarantine_reason = map_option VText x"
  using reason_not_decoded_column [of sp k] by (simp add: col_append)

lemma classify_map: "classify_trades sp (map (decode_kafka_trades sp) ks) =
    map (\<lambda>k. decode_kafka_trades sp k @ [(quarantine_reason, map_option VText (reason sp (decode_kafka_trades sp k)))]) ks"
  by (simp add: classify_trades_def)

lemma quarantined_map: "quarantined_trades (classify_trades sp (map (decode_kafka_trades sp) ks)) =
    map (\<lambda>k. decode_kafka_trades sp k @ [(quarantine_reason, map_option VText (reason sp (decode_kafka_trades sp k)))])
      (filter (\<lambda>k. reason sp (decode_kafka_trades sp k) \<noteq> None) ks)"
  by (simp add: quarantined_trades_def classify_map filter_map o_def classified_reason)

lemma valid_map: "valid_trades sp (classify_trades sp (map (decode_kafka_trades sp) ks)) =
    map (\<lambda>k. silver_row sp (decode_kafka_trades sp k @ [(quarantine_reason, None)]))
      (filter (\<lambda>k. reason sp (decode_kafka_trades sp k) = None) ks)"
  by (simp add: valid_trades_def classify_map filter_map o_def classified_reason)

text \<open>What Silver holds of a trade.\<close>

definition silver_of :: "spark \<Rightarrow> trade \<Rightarrow> row" where
  "silver_of sp t =
     [(''venue'', Some (VText (t_venue t))), (''venue_symbol'', Some (VText (t_venue_symbol t))),
      (''instrument_id'', Some (VText (t_instrument_id t))), (''trade_id'', Some (VText (t_trade_id t))),
      (''event_ts_us'', Some (VLong (t_event_ts_us t))), (''event_ts'', Some (VTime (t_event_ts_us t))),
      (''ingest_ts_us'', Some (VLong (t_ingest_ts_us t))),
      (''price'', map_option VDec (s_try_cast sp decimal_type (t_price t))), (''size'', map_option VDec (s_try_cast sp decimal_type (t_size t))),
      (''side'', Some (VText (side_str (t_side t)))), (''source'', Some (VText (source_str (t_source t)))),
      (''sequence'', map_option VLong (t_sequence t)), (''is_backfill'', Some (VBool (t_is_backfill t)))]"

lemma silver_row_of_trade:
  assumes "s_from_avro sp (k_value k) = Some (to_avro t)" and "\<forall>s x. s_try_cast sp decimal_type s = Some x \<longrightarrow> s_cast sp decimal_type s = Some x"
    and "trade_reason sp t = None"
  shows "silver_row sp (decode_kafka_trades sp k @ [(quarantine_reason, None)]) = silver_of sp t"
proof -
  from assms(3) obtain p s where "s_try_cast sp decimal_type (t_price t) = Some p" "s_try_cast sp decimal_type (t_size t) = Some s"
    by (auto simp: trade_reason_def positive_def split: if_splits option.splits)
  with assms(2) show ?thesis
    by (simp add: silver_row_def silver_of_def decode_kafka_trades_def assms(1) decoded_trade cast_decimal_def)
qed

text \<open>
  A plain decimal text, its value, and the documented cast of one to DECIMAL(38,18): rounded half
  up to 18 decimals, NULL if that needs more than 20 digits before the point.
\<close>

definition digit_text :: "string \<Rightarrow> bool" where
  "digit_text s \<longleftrightarrow> (\<forall>ch\<in>set s. 48 \<le> (of_char ch :: nat) \<and> (of_char ch :: nat) \<le> 57)"

definition fixed_text :: "string \<Rightarrow> string \<Rightarrow> string" where
  "fixed_text i f = (if f = [] then i else i @ CHR ''.'' # f)"

definition plain_decimal :: "string \<Rightarrow> string \<Rightarrow> string \<Rightarrow> bool" where
  "plain_decimal s i f \<longleftrightarrow> s = fixed_text i f \<and> i \<noteq> [] \<and> digit_text i \<and> digit_text f"

definition digits_value :: "string \<Rightarrow> nat" where
  "digits_value s = foldl (\<lambda>n ch. 10 * n + (of_char ch - 48)) 0 s"

definition fixed_value :: "string \<Rightarrow> string \<Rightarrow> rat" where
  "fixed_value i f = of_nat (digits_value (i @ f)) / 10 ^ length f"

definition round_half_up :: "nat \<Rightarrow> rat \<Rightarrow> rat" where
  "round_half_up n q = of_int \<lfloor>q * 10 ^ n + 1 / 2\<rfloor> / 10 ^ n"

definition decimal_38_18 :: "rat \<Rightarrow> rat option" where
  "decimal_38_18 q = (if round_half_up 18 q < 10 ^ 20 then Some (round_half_up 18 q) else None)"

definition spark_decimals :: "spark \<Rightarrow> bool" where
  "spark_decimals sp \<longleftrightarrow> (\<forall>s i f. plain_decimal s i f \<longrightarrow> s_try_cast sp ''DECIMAL(38,18)'' s = decimal_38_18 (fixed_value i f))"

lemma round_half_up_exact: "k \<le> n \<Longrightarrow> round_half_up n (of_nat m / 10 ^ k) = of_nat m / 10 ^ k"
proof -
  assume "k \<le> n"
  then have p: "(10 :: rat) ^ n = 10 ^ k * 10 ^ (n - k)" by (simp flip: power_add)
  then have "of_nat m / 10 ^ k * 10 ^ n = (of_int (int (m * 10 ^ (n - k))) :: rat)" by simp
  moreover have "\<lfloor>of_int z + 1 / 2 :: rat\<rfloor> = z" for z by (rule floor_unique) simp_all
  ultimately have "round_half_up n (of_nat m / 10 ^ k) = of_int (int (m * 10 ^ (n - k))) / 10 ^ n"
    by (simp only: round_half_up_def)
  then show ?thesis by (simp add: p)
qed

lemma decimal_exact: "length f \<le> 18 \<Longrightarrow> fixed_value i f < 10 ^ 20 \<Longrightarrow> decimal_38_18 (fixed_value i f) = Some (fixed_value i f)"
  by (simp add: decimal_38_18_def fixed_value_def round_half_up_exact)

text \<open>What the split of a decimal text at its point gives, and a reader of such texts.\<close>

lemma digit_text_no_point: "digit_text s \<Longrightarrow> CHR ''.'' \<notin> set s"
  by (auto simp: digit_text_def)

definition read_decimal :: "string \<Rightarrow> string \<Rightarrow> rat option" where
  "read_decimal ty s = (case split_on CHR ''.'' s of
     [i] \<Rightarrow> if ty = decimal_type \<and> i \<noteq> [] \<and> digit_text i then decimal_38_18 (fixed_value i []) else None
   | [i, f] \<Rightarrow> if ty = decimal_type \<and> i \<noteq> [] \<and> digit_text i \<and> digit_text f then decimal_38_18 (fixed_value i f) else None
   | _ \<Rightarrow> None)"

lemma read_decimal_plain: "plain_decimal s i f \<Longrightarrow> read_decimal decimal_type s = decimal_38_18 (fixed_value i f)"
proof -
  assume p: "plain_decimal s i f"
  then have "CHR ''.'' \<notin> set i" "CHR ''.'' \<notin> set f" by (simp_all add: plain_decimal_def digit_text_no_point)
  then have "split_on CHR ''.'' s = (if f = [] then [i] else [i, f])"
    using p by (simp add: plain_decimal_def fixed_text_def split_on_append_sep split_on_no_sep)
  with p show ?thesis by (simp add: read_decimal_def plain_decimal_def)
qed

lemma silver_row_ignores_reason:
  "silver_row sp (decode_kafka_trades sp k @ [(quarantine_reason, x)]) = silver_row sp (decode_kafka_trades sp k)"
proof -
  have "col (decode_kafka_trades sp k @ [(quarantine_reason, x)]) c = col (decode_kafka_trades sp k) c"
    if "c \<in> fst ` set (decode_kafka_trades sp k)" for c
    using that by (simp add: col_append)
  moreover have "set [''venue'', ''venue_symbol'', ''instrument_id'', ''trade_id'', ''event_ts_us'', ''ingest_ts_us'', ''price'',
      ''size'', ''side'', ''source'', ''sequence'', ''is_backfill''] \<subseteq> fst ` set (decode_kafka_trades sp k)"
    by (simp add: decode_kafka_trades_def decoded_columns_def trade_v1_def)
  ultimately show ?thesis by (simp add: silver_row_def)
qed

subsection \<open>Properties\<close>

text \<open>
  Property C20. The Silver split loses no record: with a reader that answers records of the
  schema or a NULL struct, no predicate is ever NULL on a decoded row, so each Kafka record goes
  to exactly one side. The rejected side holds, in order, the bytes of every record with a check
  that fails, each under the name of the first check it fails, and a record that does not decode
  under decode_failed; the accepted side holds the rows of the others, in order.
\<close>

theorem silver_split_loses_nothing:
  assumes "\<forall>v d. s_from_avro sp v = Some d \<longrightarrow> conforms d trade_v1"
  shows "let cl = classify_trades sp (map (decode_kafka_trades sp) ks);
      verdict = (\<lambda>k. map_option fst (List.find (\<lambda>nb. \<not> snd nb) (checks sp (decode_kafka_trades sp k)))) in
    map (\<lambda>r. (col r ''_kafka_value'', col r ''_quarantine_reason'')) (quarantined_trades cl) =
      List.map_filter (\<lambda>k. map_option (\<lambda>n. (Some (VText (k_value k)), Some (VText n))) (verdict k)) ks \<and>
    valid_trades sp cl = map (\<lambda>k. silver_row sp (decode_kafka_trades sp k)) (filter (\<lambda>k. verdict k = None) ks) \<and>
    length (valid_trades sp cl) + length (quarantined_trades cl) = length ks \<and>
    (\<forall>k\<in>set ks. (\<forall>(n, p)\<in>set quarantine_predicates. pred_val sp (decode_kafka_trades sp k) p \<noteq> None) \<and>
       (s_from_avro sp (k_value k) = None \<longrightarrow> verdict k = Some ''decode_failed''))"
proof -
  let ?row = "decode_kafka_trades sp" and ?cl = "classify_trades sp (map (decode_kafka_trades sp) ks)"
  define verdict where "verdict k = map_option fst (List.find (\<lambda>nb. \<not> snd nb) (checks sp (?row k)))" for k
  have typed: "typed (?row k)" for k using assms by (simp add: typed_decoded)
  have reason: "reason sp (?row k) = verdict k" for k by (simp add: reason_find [OF typed] verdict_def)
  have bytes: "col (?row k @ x) ''_kafka_value'' = Some (VText (k_value k))" for k x
    by (simp add: decode_kafka_trades_def col_append decoded_columns_def trade_v1_def)
  have name: "col (?row k @ [(quarantine_reason, map_option VText x)]) ''_quarantine_reason'' = map_option VText x" for k x
    using classified_reason [of sp k x] by (simp add: quarantine_reason_def)
  have "map (\<lambda>r. (col r ''_kafka_value'', col r ''_quarantine_reason'')) (quarantined_trades ?cl) =
      List.map_filter (\<lambda>k. map_option (\<lambda>n. (Some (VText (k_value k)), Some (VText n))) (verdict k)) ks"
    unfolding quarantined_map reason by (induction ks) (auto simp: bytes name List.map_filter_simps)
  moreover have v: "valid_trades sp ?cl = map (\<lambda>k. silver_row sp (?row k)) (filter (\<lambda>k. verdict k = None) ks)"
    unfolding valid_map reason silver_row_ignores_reason ..
  moreover have "length (filter (\<lambda>k. verdict k = None) ks) + length (filter (\<lambda>k. verdict k \<noteq> None) ks) = length ks"
    using sum_length_filter_compl [of "\<lambda>k. verdict k = None" ks] by simp
  then have "length (valid_trades sp ?cl) + length (quarantined_trades ?cl) = length ks"
    unfolding v quarantined_map reason by simp
  moreover have "\<forall>k\<in>set ks. (\<forall>(n, p)\<in>set quarantine_predicates. pred_val sp (?row k) p \<noteq> None) \<and>
       (s_from_avro sp (k_value k) = None \<longrightarrow> verdict k = Some ''decode_failed'')"
    using never_null [OF typed] reason_of_undecodable by (fastforce simp: reason [symmetric])
  ultimately show ?thesis unfolding Let_def verdict_def by blast
qed

text \<open>
  Property C6. A published trade reaches Silver as itself exactly when it is clean: the record of a
  trade is marked with the first of its missing key, missing instrument, timestamp outside the
  window, and price or size that does not cast to a positive decimal, and kept whole on the
  rejected side under that reason; otherwise its Silver row has the contract's columns in order
  with the fields of the trade. A price or size that is a plain decimal text is stored rounded
  half up to 18 decimals, and exactly if it has no more than 18 decimals and 20 digits before the
  point.
\<close>

theorem clean_trade_reaches_silver:
  assumes "s_from_avro sp (k_value k) = Some (to_avro t)" and "spark_decimals sp"
    and "\<forall>s x. s_try_cast sp decimal_type s = Some x \<longrightarrow> s_cast sp decimal_type s = Some x"
  shows "let row = decode_kafka_trades sp k; classified = classify_trades sp [row] in
    classified = [row @ [(''_quarantine_reason'', map_option VText (trade_reason sp t))]] \<and>
    quarantined_trades classified = (if trade_reason sp t = None then [] else classified) \<and>
    valid_trades sp classified = (if trade_reason sp t = None then [silver_of sp t] else []) \<and>
    map fst (silver_of sp t) = silver_columns \<and>
    (\<forall>(c, x)\<in>{(''price'', t_price t), (''size'', t_size t)}. \<forall>i f. plain_decimal x i f \<longrightarrow>
       col (silver_of sp t) c = map_option VDec (decimal_38_18 (fixed_value i f)) \<and>
       (length f \<le> 18 \<and> fixed_value i f < 10 ^ 20 \<longrightarrow> col (silver_of sp t) c = Some (VDec (fixed_value i f))))"
proof -
  have r: "reason sp (decode_kafka_trades sp k) = trade_reason sp t" by (rule reason_of_trade [OF assms(1)])
  have cast: "s_try_cast sp decimal_type x = decimal_38_18 (fixed_value i f)" if "plain_decimal x i f" for x i f
    using assms(2) that by (simp add: spark_decimals_def decimal_type_def)
  have "valid_trades sp (classify_trades sp [decode_kafka_trades sp k]) = (if trade_reason sp t = None then [silver_of sp t] else [])"
    using valid_map [of sp "[k]"] silver_row_of_trade [OF assms(1,3)] by (simp add: r)
  moreover have "quarantined_trades (classify_trades sp [decode_kafka_trades sp k]) =
      (if trade_reason sp t = None then [] else classify_trades sp [decode_kafka_trades sp k])"
    using quarantined_map [of sp "[k]"] classify_map [of sp "[k]"] by (simp add: r)
  ultimately show ?thesis
    using classify_map [of sp "[k]"]
    by (auto simp: Let_def r silver_of_def silver_columns_def quarantine_reason_def cast decimal_exact)
qed

text \<open>A reader that knows one record, and decimals that are all one half.\<close>

definition example_spark :: spark where
  "example_spark = \<lparr> s_from_avro = (\<lambda>v. if v = ''ok'' then Some (to_avro example_trade) else None), s_string = Some,
     s_try_cast = (\<lambda>ty s. if s = [] then None else Some (1 / 2)), s_cast = (\<lambda>ty s. Some (1 / 2)), s_now_us = 1786752000400000 \<rparr>"

definition kafka_of :: "string \<Rightarrow> kafka_row" where
  "kafka_of v = \<lparr> k_key = None, k_value = v, k_topic = ''md.trades.v1'', k_partition = 0, k_offset = 0, k_timestamp = 0 \<rparr>"

lemma example_ok: "s_from_avro example_spark (k_value (kafka_of ''ok'')) = Some (to_avro example_trade)"
  by (simp add: example_spark_def kafka_of_def)

theorem silver_split_loses_nothing_witness:
  "map (\<lambda>r. (col r ''_kafka_value'', col r ''_quarantine_reason'')) (quarantined_trades (classify_trades example_spark
     (map (decode_kafka_trades example_spark) [kafka_of ''ok'', kafka_of ''junk'']))) =
   [(Some (VText ''junk''), Some (VText ''decode_failed''))]"
proof -
  let ?row = "decode_kafka_trades example_spark"
  have c: "\<forall>v d. s_from_avro example_spark v = Some d \<longrightarrow> conforms d trade_v1"
    by (simp add: example_spark_def to_avro_conforms_iff example_trade_def int64_def)
  have reason: "reason example_spark (?row k) = map_option fst (List.find (\<lambda>nb. \<not> snd nb) (checks example_spark (?row k)))" for k
    using c by (intro reason_find typed_decoded) blast
  have "reason example_spark (?row (kafka_of ''ok'')) = None"
    unfolding reason_of_trade [OF example_ok]
    by (simp add: example_spark_def trade_reason_def example_trade_def epoch_floor_us_def one_day_us_def positive_def)
  moreover have "reason example_spark (?row (kafka_of ''junk'')) = Some ''decode_failed''"
    by (rule reason_of_undecodable) (simp add: example_spark_def kafka_of_def)
  ultimately show ?thesis
    using silver_split_loses_nothing [OF c, of "[kafka_of ''ok'', kafka_of ''junk'']"]
    unfolding Let_def reason [symmetric] by (simp add: List.map_filter_simps kafka_of_def)
qed

text \<open>The same reader over decimals as Spark documents them.\<close>

definition exact_spark :: spark where
  "exact_spark = example_spark\<lparr> s_try_cast := read_decimal, s_cast := read_decimal \<rparr>"

lemma example_decimals: "plain_decimal (t_price example_trade) ''63000'' ''10''" "plain_decimal (t_size example_trade) ''0'' ''5''"
    "fixed_value ''63000'' ''10'' = 630001 / 10" "fixed_value ''0'' ''5'' = 1 / 2"
  by (simp_all add: plain_decimal_def fixed_text_def digit_text_def example_trade_def fixed_value_def digits_value_def)

theorem clean_trade_reaches_silver_witness:
  "\<exists>row. valid_trades exact_spark (classify_trades exact_spark [decode_kafka_trades exact_spark (kafka_of ''ok'')]) = [row] \<and>
     col row ''price'' = Some (VDec (630001 / 10)) \<and> col row ''size'' = Some (VDec (1 / 2))"
proof -
  have "s_from_avro exact_spark (k_value (kafka_of ''ok'')) = Some (to_avro example_trade)"
    by (simp add: exact_spark_def example_ok)
  moreover have "spark_decimals exact_spark"
    using read_decimal_plain by (simp add: spark_decimals_def exact_spark_def decimal_type_def)
  moreover have "\<forall>s x. s_try_cast exact_spark decimal_type s = Some x \<longrightarrow> s_cast exact_spark decimal_type s = Some x"
    by (simp add: exact_spark_def)
  ultimately have all: "\<forall>(c, x)\<in>{(''price'', t_price example_trade), (''size'', t_size example_trade)}. \<forall>i f. plain_decimal x i f \<longrightarrow>
       col (silver_of exact_spark example_trade) c = map_option VDec (decimal_38_18 (fixed_value i f)) \<and>
       (length f \<le> 18 \<and> fixed_value i f < 10 ^ 20 \<longrightarrow> col (silver_of exact_spark example_trade) c = Some (VDec (fixed_value i f)))"
    and v: "valid_trades exact_spark (classify_trades exact_spark [decode_kafka_trades exact_spark (kafka_of ''ok'')]) =
      (if trade_reason exact_spark example_trade = None then [silver_of exact_spark example_trade] else [])"
    using clean_trade_reaches_silver [of exact_spark "kafka_of ''ok''" example_trade] unfolding Let_def by blast+
  have "col (silver_of exact_spark example_trade) ''price'' = Some (VDec (fixed_value ''63000'' ''10''))"
    "col (silver_of exact_spark example_trade) ''size'' = Some (VDec (fixed_value ''0'' ''5''))"
  proof -
    have stored: "plain_decimal x i f \<Longrightarrow> length f \<le> 18 \<Longrightarrow> fixed_value i f < 10 ^ 20 \<Longrightarrow>
        col (silver_of exact_spark example_trade) c = Some (VDec (fixed_value i f))"
      if "(c, x) \<in> {(''price'', t_price example_trade), (''size'', t_size example_trade)}" for c x i f
      using all that by blast
    show "col (silver_of exact_spark example_trade) ''price'' = Some (VDec (fixed_value ''63000'' ''10''))"
      by (rule stored [OF _ example_decimals(1)]) (simp_all add: example_decimals(3))
    show "col (silver_of exact_spark example_trade) ''size'' = Some (VDec (fixed_value ''0'' ''5''))"
      by (rule stored [OF _ example_decimals(2)]) (simp_all add: example_decimals(4))
  qed
  then have p: "col (silver_of exact_spark example_trade) ''price'' = Some (VDec (630001 / 10))"
    "col (silver_of exact_spark example_trade) ''size'' = Some (VDec (1 / 2))"
    by (simp_all only: example_decimals(3,4))
  have "read_decimal decimal_type (t_price example_trade) = Some (630001 / 10)" "read_decimal decimal_type (t_size example_trade) = Some (1 / 2)"
    using read_decimal_plain [OF example_decimals(1)] read_decimal_plain [OF example_decimals(2)]
      decimal_exact [of "''10''" "''63000''"] decimal_exact [of "''5''" "''0''"]
    by (simp_all add: example_decimals)
  then have "trade_reason exact_spark example_trade = None"
    by (simp add: exact_spark_def trade_reason_def positive_def)
      (simp add: example_spark_def example_trade_def epoch_floor_us_def one_day_us_def)
  with p v show ?thesis by simp
qed

lemma map_filter_values: "set (List.map_filter (\<lambda>r. col r c) rs) = {v. \<exists>r\<in>set rs. col r c = Some v}"
  by (auto simp: List.map_filter_def) force

lemma pick_filter: "(\<exists>c\<in>C. \<exists>r\<in>set (filter P rows). \<exists>s\<in>set (filter P rows). Q c r s) \<longleftrightarrow>
    (\<exists>r\<in>set rows. \<exists>s\<in>set rows. P r \<and> P s \<and> (\<exists>c\<in>C. Q c r s))"
  unfolding set_filter by blast

lemma two_values:
  "(\<exists>x\<in>{v. \<exists>r\<in>R. f r = Some v}. \<exists>y\<in>{v. \<exists>r\<in>R. f r = Some v}. x \<noteq> y) \<longleftrightarrow>
   (\<exists>r\<in>R. \<exists>s\<in>R. f r \<noteq> None \<and> f s \<noteq> None \<and> f r \<noteq> f s)"
proof
  assume "\<exists>r\<in>R. \<exists>s\<in>R. f r \<noteq> None \<and> f s \<noteq> None \<and> f r \<noteq> f s"
  then obtain r s x y where "r \<in> R" "s \<in> R" "f r = Some x" "f s = Some y" "x \<noteq> y" by auto
  then show "\<exists>x\<in>{v. \<exists>r\<in>R. f r = Some v}. \<exists>y\<in>{v. \<exists>r\<in>R. f r = Some v}. x \<noteq> y" by blast
next
  assume "\<exists>x\<in>{v. \<exists>r\<in>R. f r = Some v}. \<exists>y\<in>{v. \<exists>r\<in>R. f r = Some v}. x \<noteq> y"
  then obtain r s x y where "r \<in> R" "s \<in> R" "f r = Some x" "f s = Some y" "x \<noteq> y" by blast
  then show "\<exists>r\<in>R. \<exists>s\<in>R. f r \<noteq> None \<and> f s \<noteq> None \<and> f r \<noteq> f s"
    by (intro bexI [of _ r] bexI [of _ s]) simp_all
qed

text \<open>
  Property C35. The immutability check is exact: it names a (venue, trade_id) exactly when
  two rows of that trade hold different event times, different prices or different sizes (a
  missing value disagrees with nothing), and it names it once.
\<close>

theorem immutability_check_exact:
  "distinct (map fst (find_immutability_violations rows)) \<and>
   (\<forall>g. g \<in> fst ` set (find_immutability_violations rows) \<longleftrightarrow>
     (\<exists>r\<in>set rows. \<exists>s\<in>set rows. row_group r = g \<and> row_group s = g \<and>
        (\<exists>c\<in>{''event_ts_us'', ''price'', ''size''}. col r c \<noteq> None \<and> col s c \<noteq> None \<and> col r c \<noteq> col s c)))"
proof -
  have two: "1 < count_distinct rs c \<longleftrightarrow>
      (\<exists>r\<in>set rs. \<exists>s\<in>set rs. col r c \<noteq> None \<and> col s c \<noteq> None \<and> col r c \<noteq> col s c)" for rs c
  proof -
    let ?V = "set (List.map_filter (\<lambda>r. col r c) rs)"
    have "count_distinct rs c = card ?V" by (simp add: count_distinct_def card_set)
    moreover have "1 < card ?V \<longleftrightarrow> (\<exists>x\<in>?V. \<exists>y\<in>?V. x \<noteq> y)"
      using card_le_Suc0_iff_eq [of ?V] by (auto simp: not_le [symmetric])
    moreover have "(\<exists>x\<in>?V. \<exists>y\<in>?V. x \<noteq> y) \<longleftrightarrow>
        (\<exists>r\<in>set rs. \<exists>s\<in>set rs. col r c \<noteq> None \<and> col s c \<noteq> None \<and> col r c \<noteq> col s c)"
      unfolding map_filter_values by (rule two_values)
    ultimately show ?thesis by simp
  qed
  have none: "count_distinct (filter (\<lambda>r. row_group r = g) rows) c = 0" if "g \<notin> row_group ` set rows" for g c
  proof -
    have "filter (\<lambda>r. row_group r = g) rows = []" using that by (auto simp: filter_empty_conv)
    then show ?thesis by (simp add: count_distinct_def List.map_filter_def)
  qed
  have inside: "g \<in> row_group ` set rows" if "1 < count_distinct (filter (\<lambda>r. row_group r = g) rows) c" for g c
    using that none [of g c] by (cases "g \<in> row_group ` set rows") simp_all
  have "map fst (find_immutability_violations rows) =
      filter (\<lambda>g. case violation rows g of (_, a, b, c) \<Rightarrow> 1 < a \<or> 1 < b \<or> 1 < c) (remdups (map row_group rows))"
    by (simp add: find_immutability_violations_def filter_map o_def violation_def Let_def cong: filter_cong)
  then have keys: "map fst (find_immutability_violations rows) = filter (\<lambda>g. \<exists>c\<in>{''event_ts_us'', ''price'', ''size''}.
      1 < count_distinct (filter (\<lambda>r. row_group r = g) rows) c) (remdups (map row_group rows))"
    by (simp add: violation_def Let_def)
  have "fst ` set (find_immutability_violations rows) = set (map fst (find_immutability_violations rows))" by simp
  also have "\<dots> = {g. \<exists>c\<in>{''event_ts_us'', ''price'', ''size''}. 1 < count_distinct (filter (\<lambda>r. row_group r = g) rows) c}"
    unfolding keys using inside by (auto simp del: One_nat_def)
  finally have F: "fst ` set (find_immutability_violations rows) = {g. \<exists>c\<in>{''event_ts_us'', ''price'', ''size''}.
      1 < count_distinct (filter (\<lambda>r. row_group r = g) rows) c}" .
  have "distinct (map fst (find_immutability_violations rows))" unfolding keys by (simp only: distinct_filter distinct_remdups)
  then show ?thesis unfolding F two mem_Collect_eq pick_filter by (intro conjI allI refl)
qed

lemma ne_empty_if: "x \<in> A \<Longrightarrow> A \<noteq> {}"
  by blast

theorem immutability_check_exact_witness:
  "fst ` set (find_immutability_violations
     [[(''venue'', Some (VText ''b'')), (''trade_id'', Some (VText ''1'')), (''price'', Some (VText ''2''))],
      [(''venue'', Some (VText ''b'')), (''trade_id'', Some (VText ''1'')), (''price'', Some (VText ''3''))]])
   \<noteq> {}"
  (is "fst ` set (find_immutability_violations ?rows) \<noteq> {}")
proof -
  have "(Some (VText ''b''), Some (VText ''1'')) \<in> fst ` set (find_immutability_violations ?rows)"
    unfolding immutability_check_exact [of ?rows, THEN conjunct2, THEN spec] by (simp add: row_group_def)
  then show ?thesis by (rule ne_empty_if)
qed

end
