(* ===== verification/Pipeline.thy ===== *)
theory Pipeline
  imports Silver
begin

text \<open>
  lakehouse/pipelines/trades.py: the declarations of the Databricks pipeline as the functions they
  stand for. The reader of settings and secrets and the AUTO CDC flow are parameters of the runtime;
  a table is the list of rows that flowed into it.
\<close>

subsection \<open>The source\<close>

definition conf_get :: "(string \<Rightarrow> string option) \<Rightarrow> string \<Rightarrow> string \<Rightarrow> string" where
  "conf_get conf name fallback = (case conf name of Some v \<Rightarrow> v | None \<Rightarrow> fallback)"

definition jaas :: "string \<Rightarrow> string \<Rightarrow> string" where
  "jaas username password =
     ''kafkashaded.org.apache.kafka.common.security.scram.ScramLoginModule required '' @
     ''username=\"'' @ username @ ''\" password=\"'' @ password @ ''\";''"

definition kafka_options :: "(string \<Rightarrow> string \<Rightarrow> string res) \<Rightarrow> (string \<Rightarrow> string option) \<Rightarrow> (string, string) dict res" where
  "kafka_options secret conf = (let scope = conf_get conf ''fdai.secret_scope'' ''fdai'' in
     rbind (secret scope ''kafka_username'') (\<lambda>username.
     rbind (secret scope ''kafka_password'') (\<lambda>password.
     rbind (secret scope ''kafka_bootstrap'') (\<lambda>bootstrap.
       Inr [(''kafka.bootstrap.servers'', bootstrap),
         (''subscribe'', conf_get conf ''fdai.kafka_topic'' ''md.trades.v1''),
         (''startingOffsets'', conf_get conf ''fdai.starting_offsets'' ''earliest''),
         (''maxOffsetsPerTrigger'', conf_get conf ''fdai.max_offsets_per_trigger'' ''1000000''),
         (''kafka.security.protocol'', ''SASL_SSL''),
         (''kafka.sasl.mechanism'', ''SCRAM-SHA-512''),
         (''kafka.sasl.jaas.config'', jaas username password),
         (''failOnDataLoss'', ''true'')]))))"

subsection \<open>The tables\<close>

definition bronze_trades_stream :: "spark \<Rightarrow> kafka_row list \<Rightarrow> row list" where
  "bronze_trades_stream sp raw = map (decode_kafka_trades sp) raw"

definition expectations :: "(string \<times> pred) list" where
  "expectations = map (\<lambda>(reason, p). (''valid_'' @ reason, p)) quarantine_predicates"

definition trades_validated :: "spark \<Rightarrow> kafka_row list \<Rightarrow> row list" where
  "trades_validated sp raw = classify_trades sp (bronze_trades_stream sp raw)"

definition silver_trades_quarantine :: "spark \<Rightarrow> kafka_row list \<Rightarrow> row list" where
  "silver_trades_quarantine sp raw = quarantined_trades (trades_validated sp raw)"

definition trades_clean :: "spark \<Rightarrow> kafka_row list \<Rightarrow> row list" where
  "trades_clean sp raw = valid_trades sp (trades_validated sp raw)"

text \<open>An AUTO CDC flow of SCD type 1: the target from the keys, the sequence column and the source.\<close>

type_synonym cdc = "string list \<Rightarrow> string \<Rightarrow> row list \<Rightarrow> row list"

definition silver_trades :: "spark \<Rightarrow> cdc \<Rightarrow> kafka_row list \<Rightarrow> row list" where
  "silver_trades sp cdc raw = cdc [''venue'', ''trade_id''] ''event_ts_us'' (trades_clean sp raw)"

subsection \<open>What the code relies on\<close>

definition key_of :: "string list \<Rightarrow> row \<Rightarrow> sqlval option list" where
  "key_of ks r = map (col r) ks"

definition seq_of :: "string \<Rightarrow> row \<Rightarrow> int" where
  "seq_of c r = (case col r c of Some (VLong i) \<Rightarrow> i | _ \<Rightarrow> 0)"

text \<open>
  SCD type 1 keeps for every key one row of the source, of the greatest sequence value; the
  sequence column holds integers.
\<close>

definition scd1 :: "cdc \<Rightarrow> bool" where
  "scd1 cdc \<longleftrightarrow> (\<forall>ks c rows. (\<forall>r\<in>set rows. \<exists>i. col r c = Some (VLong i)) \<longrightarrow>
     distinct (map (key_of ks) (cdc ks c rows)) \<and>
     key_of ks ` set (cdc ks c rows) = key_of ks ` set rows \<and>
     (\<forall>t\<in>set (cdc ks c rows). t \<in> set rows \<and> (\<forall>r\<in>set rows. key_of ks r = key_of ks t \<longrightarrow> seq_of c r \<le> seq_of c t)))"

definition silver_key :: "trade \<Rightarrow> string \<times> string" where
  "silver_key t = (t_venue t, t_trade_id t)"

lemma trades_clean_of:
  assumes "list_all2 (\<lambda>k t. s_from_avro sp (k_value k) = Some (to_avro t)) raw ts"
    and "\<forall>s x. s_try_cast sp decimal_type s = Some x \<longrightarrow> s_cast sp decimal_type s = Some x"
  shows "trades_clean sp raw = map (silver_of sp) (filter (\<lambda>t. trade_reason sp t = None) ts)"
  unfolding trades_clean_def trades_validated_def bronze_trades_stream_def valid_map
  using assms(1)
proof (induction rule: list_all2_induct)
  case (Cons k raw t ts)
  then show ?case using silver_row_of_trade [of sp k t] reason_of_trade [of sp k t] assms(2) by simp
qed simp

lemma scd1_table:
  assumes "scd1 cdc" and "\<forall>r\<in>set rows. \<exists>i. col r c = Some (VLong i)"
  shows "distinct (map (key_of ks) (cdc ks c rows))" and "key_of ks ` set (cdc ks c rows) = key_of ks ` set rows"
    and "\<forall>t\<in>set (cdc ks c rows). t \<in> set rows \<and> (\<forall>r\<in>set rows. key_of ks r = key_of ks t \<longrightarrow> seq_of c r \<le> seq_of c t)"
  using assms unfolding scd1_def by blast+

lemma silver_of_keys:
  "key_of [''venue'', ''trade_id''] (silver_of sp t) = [Some (VText (t_venue t)), Some (VText (t_trade_id t))]"
  "seq_of ''event_ts_us'' (silver_of sp t) = t_event_ts_us t"
  "col (silver_of sp t) ''event_ts_us'' = Some (VLong (t_event_ts_us t))"
  by (simp_all add: key_of_def seq_of_def silver_of_def)

lemma silver_table:
  assumes "scd1 cdc" and "list_all2 (\<lambda>k t. s_from_avro sp (k_value k) = Some (to_avro t)) raw ts"
    and "\<forall>s x. s_try_cast sp decimal_type s = Some x \<longrightarrow> s_cast sp decimal_type s = Some x"
  defines "clean \<equiv> filter (\<lambda>t. trade_reason sp t = None) ts" and "rows \<equiv> silver_trades sp cdc raw"
  shows "distinct (map (key_of [''venue'', ''trade_id'']) rows)"
    and "length rows = card (silver_key ` set clean)"
    and "\<forall>r\<in>set rows. \<exists>t\<in>set clean. r = silver_of sp t \<and> (\<forall>u\<in>set clean. silver_key u = silver_key t \<longrightarrow> t_event_ts_us u \<le> t_event_ts_us t)"
proof -
  let ?key = "key_of [''venue'', ''trade_id'']" and ?src = "map (silver_of sp) clean"
  have src: "rows = cdc [''venue'', ''trade_id''] ''event_ts_us'' ?src"
    by (simp add: rows_def silver_trades_def trades_clean_of [OF assms(2,3)] clean_def)
  have "\<forall>r\<in>set ?src. \<exists>i. col r ''event_ts_us'' = Some (VLong i)" by (simp add: silver_of_keys)
  note table = scd1_table [OF assms(1) this, of "[''venue'', ''trade_id'']"]
  have d: "distinct (map ?key rows)" and k: "?key ` set rows = ?key ` set ?src"
    and m: "\<forall>t\<in>set rows. t \<in> set ?src \<and> (\<forall>r\<in>set ?src. ?key r = ?key t \<longrightarrow> seq_of ''event_ts_us'' r \<le> seq_of ''event_ts_us'' t)"
    unfolding src by (rule table)+
  show "distinct (map ?key rows)" by (rule d)
  let ?f = "\<lambda>(v, i). [Some (VText v), Some (VText i)]"
  have "length rows = card (?key ` set rows)" using distinct_card [OF d] by simp
  also have "?key ` set rows = ?f ` silver_key ` set clean"
    unfolding k by (simp add: image_image silver_of_keys silver_key_def)
  also have "card \<dots> = card (silver_key ` set clean)" by (rule card_image) (auto simp: inj_on_def silver_key_def)
  finally show "length rows = card (silver_key ` set clean)" .
  show "\<forall>r\<in>set rows. \<exists>t\<in>set clean. r = silver_of sp t \<and> (\<forall>u\<in>set clean. silver_key u = silver_key t \<longrightarrow> t_event_ts_us u \<le> t_event_ts_us t)"
  proof
    fix r
    assume "r \<in> set rows"
    with m obtain t where t: "t \<in> set clean" "r = silver_of sp t"
      and "\<forall>r'\<in>set ?src. ?key r' = ?key r \<longrightarrow> seq_of ''event_ts_us'' r' \<le> seq_of ''event_ts_us'' r" by auto
    then have "\<forall>u\<in>set clean. silver_key u = silver_key t \<longrightarrow> t_event_ts_us u \<le> t_event_ts_us t"
      by (simp add: silver_of_keys silver_key_def)
    with t show "\<exists>t\<in>set clean. r = silver_of sp t \<and> (\<forall>u\<in>set clean. silver_key u = silver_key t \<longrightarrow> t_event_ts_us u \<le> t_event_ts_us t)" by blast
  qed
qed

text \<open>The function the runtime could be: of each key the last of the rows sorted by the sequence.\<close>

definition latest_rows :: cdc where
  "latest_rows ks c rows = map (\<lambda>g. last (sort_key (seq_of c) (filter (\<lambda>r. key_of ks r = g) rows))) (remdups (map (key_of ks) rows))"

lemma sorted_last: "sorted xs \<Longrightarrow> x \<in> set xs \<Longrightarrow> x \<le> last (xs :: int list)"
  by (induction xs rule: rev_induct) (auto simp: sorted_append)

lemma latest_rows_scd1: "scd1 latest_rows"
  unfolding scd1_def
proof (intro allI impI conjI)
  fix ks c and rows :: "row list"
  let ?grp = "\<lambda>g. sort_key (seq_of c) (filter (\<lambda>r. key_of ks r = g) rows)"
  have l: "last (?grp g) \<in> set rows \<and> key_of ks (last (?grp g)) = g \<and> (\<forall>r\<in>set rows. key_of ks r = g \<longrightarrow> seq_of c r \<le> seq_of c (last (?grp g)))"
    if "g \<in> key_of ks ` set rows" for g
  proof -
    have "set (?grp g) \<noteq> {}" using that by auto
    then have ne: "?grp g \<noteq> []" by (metis list.set(1))
    then have "last (?grp g) \<in> set (?grp g)" by (rule last_in_set)
    moreover have "seq_of c r \<le> seq_of c (last (?grp g))" if "r \<in> set (?grp g)" for r
      using sorted_last [of "map (seq_of c) (?grp g)" "seq_of c r"] that ne by (simp add: last_map)
    ultimately show ?thesis by simp
  qed
  have keys: "map (key_of ks) (latest_rows ks c rows) = remdups (map (key_of ks) rows)"
    unfolding latest_rows_def map_map o_def by (rule map_idI) (use l in simp)
  show "distinct (map (key_of ks) (latest_rows ks c rows))" unfolding keys by simp
  have "set (map (key_of ks) (latest_rows ks c rows)) = set (map (key_of ks) rows)" unfolding keys by simp
  then show "key_of ks ` set (latest_rows ks c rows) = key_of ks ` set rows" by simp
  show "\<forall>t\<in>set (latest_rows ks c rows). t \<in> set rows \<and> (\<forall>r\<in>set rows. key_of ks r = key_of ks t \<longrightarrow> seq_of c r \<le> seq_of c t)"
    unfolding latest_rows_def using l by auto
qed

subsection \<open>Properties\<close>

text \<open>
  Property C13. The Silver table holds one row per (venue, trade_id), however often and in
  whatever order the stream, repairs and replays deliver a trade: with a flow that is SCD type 1, the
  rows are as many as the keys of the clean trades published, no two share a key, and each is
  exactly one of those trades, of the latest event time for its key.
\<close>

theorem silver_holds_one_row_per_key:
  assumes "scd1 cdc" and "list_all2 (\<lambda>k t. s_from_avro sp (k_value k) = Some (to_avro t)) raw ts"
    and "\<forall>s x. s_try_cast sp decimal_type s = Some x \<longrightarrow> s_cast sp decimal_type s = Some x"
  shows "let clean = filter (\<lambda>t. trade_reason sp t = None) ts; rows = silver_trades sp cdc raw in
    distinct (map (key_of [''venue'', ''trade_id'']) rows) \<and> length rows = card (silver_key ` set clean) \<and>
    (\<forall>r\<in>set rows. \<exists>t\<in>set clean. r = silver_of sp t \<and>
      (\<forall>u\<in>set clean. silver_key u = silver_key t \<longrightarrow> t_event_ts_us u \<le> t_event_ts_us t))"
  using silver_table [OF assms] by (simp add: Let_def)

text \<open>
  Property C39. The key does not tell the symbols of a venue apart: of two clean trades with one
  venue and one trade id on two symbols, the Silver table keeps only the later one, although both
  are immutable facts and the notebooks key trades by the symbol as well.
\<close>

theorem symbols_sharing_an_id_collide:
  assumes "scd1 cdc" and "s_from_avro sp (k_value k) = Some (to_avro t)" and "s_from_avro sp (k_value l) = Some (to_avro u)"
    and "\<forall>s x. s_try_cast sp decimal_type s = Some x \<longrightarrow> s_cast sp decimal_type s = Some x"
    and "trade_reason sp t = None" and "trade_reason sp u = None"
    and "t_venue t = t_venue u" and "t_trade_id t = t_trade_id u" and "t_venue_symbol t \<noteq> t_venue_symbol u"
    and "t_event_ts_us t < t_event_ts_us u"
  shows "silver_trades sp cdc [k, l] = [silver_of sp u]"
proof -
  have ts: "list_all2 (\<lambda>k t. s_from_avro sp (k_value k) = Some (to_avro t)) [k, l] [t, u]" using assms(2,3) by simp
  have clean: "filter (\<lambda>t. trade_reason sp t = None) [t, u] = [t, u]" using assms(5,6) by simp
  note table = silver_table [OF assms(1) ts assms(4), unfolded clean]
  have same: "silver_key t = silver_key u" using assms(7,8) by (simp add: silver_key_def)
  with table(2) have "length (silver_trades sp cdc [k, l]) = 1" by simp
  then obtain r where r: "silver_trades sp cdc [k, l] = [r]" by (auto simp: length_Suc_conv)
  with table(3) obtain x where x: "x \<in> {t, u}" "r = silver_of sp x" "\<forall>y\<in>{t, u}. silver_key y = silver_key x \<longrightarrow> t_event_ts_us y \<le> t_event_ts_us x"
    by auto
  then have "x = u" using same assms(10) by auto
  with r x(2) show ?thesis by simp
qed

text \<open>A trade of another symbol with the same id, a microsecond later, and a reader of both.\<close>

definition other_symbol_trade :: trade where
  "other_symbol_trade = example_trade\<lparr> t_venue_symbol := ''ETHUSDT'', t_instrument_id := ''ETH-USD'',
     t_event_ts_us := t_event_ts_us example_trade + 1 \<rparr>"

definition two_spark :: spark where
  "two_spark = example_spark\<lparr> s_from_avro := (\<lambda>v. if v = ''a'' then Some (to_avro example_trade)
     else if v = ''b'' then Some (to_avro other_symbol_trade) else None) \<rparr>"

lemma two_spark_facts:
  "s_from_avro two_spark (k_value (kafka_of ''a'')) = Some (to_avro example_trade)"
  "s_from_avro two_spark (k_value (kafka_of ''b'')) = Some (to_avro other_symbol_trade)"
  "\<forall>s x. s_try_cast two_spark decimal_type s = Some x \<longrightarrow> s_cast two_spark decimal_type s = Some x"
  "trade_reason two_spark example_trade = None" "trade_reason two_spark other_symbol_trade = None"
  by (simp_all add: two_spark_def example_spark_def kafka_of_def trade_reason_def example_trade_def other_symbol_trade_def
      epoch_floor_us_def one_day_us_def positive_def)

theorem silver_holds_one_row_per_key_witness:
  "length (silver_trades two_spark latest_rows [kafka_of ''a'', kafka_of ''a'']) = 1"
  using silver_holds_one_row_per_key [OF latest_rows_scd1, of two_spark "[kafka_of ''a'', kafka_of ''a'']" "[example_trade, example_trade]"]
    two_spark_facts by (simp add: Let_def)

theorem symbols_sharing_an_id_collide_witness:
  "silver_trades two_spark latest_rows [kafka_of ''a'', kafka_of ''b''] = [silver_of two_spark other_symbol_trade]"
  by (rule symbols_sharing_an_id_collide [OF latest_rows_scd1 two_spark_facts(1,2,3,4,5)])
    (simp_all add: other_symbol_trade_def example_trade_def)

text \<open>An expectation of the pipeline fails exactly on the rows the split rejects.\<close>

lemma expectations_match:
  assumes "\<forall>d. s_from_avro sp (k_value k) = Some d \<longrightarrow> conforms d trade_v1"
  shows "(\<exists>(n, p)\<in>set expectations. pred_val sp (decode_kafka_trades sp k) p \<noteq> Some True) \<longleftrightarrow>
    reason sp (decode_kafka_trades sp k) \<noteq> None"
proof -
  have nn: "pred_val sp (decode_kafka_trades sp k) p \<noteq> None" if "(n, p) \<in> set quarantine_predicates" for n p
    using never_null [OF typed_decoded [OF assms] that] .
  have "(\<exists>(n, p)\<in>set ps. pred_val sp r p \<noteq> Some True) \<longleftrightarrow> first_failing sp r ps \<noteq> None"
    if "\<forall>(n, p)\<in>set ps. pred_val sp r p \<noteq> None" for ps r
    using that by (induction ps) (auto split: if_splits)
  from this [of quarantine_predicates "decode_kafka_trades sp k"] nn show ?thesis
    by (fastforce simp: expectations_def reason_def)
qed

end
