(* ===== verification/Admin.thy ===== *)
theory Admin
  imports Target
begin

text \<open>
  The provisioning scripts: scripts/create_topics.py and scripts/create_acls.py. The admin
  client is a parameter: the topics it lists, and per requested topic or binding how its future
  ended. Argument parsing and the prints are left out.
\<close>

subsection \<open>Topics\<close>

definition hour_ms :: int where "hour_ms = 3600 * 1000"

definition day_ms :: int where "day_ms = 24 * hour_ms"

record topic_spec =
  sp_name :: string
  sp_partitions :: int
  sp_retention_ms :: int

definition topic_specs :: "topic_spec list" where
  "topic_specs = map (\<lambda>(n, p, r). \<lparr> sp_name = n, sp_partitions = p, sp_retention_ms = r \<rparr>)
    [(''md.trades.v1'', 6, 24 * hour_ms),
     (''md.book.top.v1'', 6, 6 * hour_ms),
     (''md.book.depth.v1'', 6, 2 * hour_ms),
     (''md.bars.v1'', 3, 48 * hour_ms),
     (''news.articles.v1'', 3, 7 * day_ms),
     (''ops.metrics.v1'', 1, 7 * day_ms),
     (''_dlq.md.trades.v1'', 1, 7 * day_ms),
     (''_dlq.md.book.top.v1'', 1, 7 * day_ms),
     (''_dlq.md.book.depth.v1'', 1, 7 * day_ms),
     (''_dlq.md.bars.v1'', 1, 7 * day_ms),
     (''_dlq.news.articles.v1'', 1, 7 * day_ms)]"

record topic_request =
  tr_name :: string
  tr_partitions :: int
  tr_replication :: int
  tr_config :: "(string \<times> string) list"

definition to_new_topic :: "topic_spec \<Rightarrow> int \<Rightarrow> topic_request" where
  "to_new_topic spec replication =
     \<lparr> tr_name = sp_name spec, tr_partitions = sp_partitions spec, tr_replication = replication,
       tr_config = [(''retention.ms'', int_str (sp_retention_ms spec)), (''compression.type'', ''zstd''),
         (''min.insync.replicas'', int_str (max 1 (replication - 1)))] \<rparr>"

text \<open>The configuration of an admin client, the same in both scripts.\<close>

definition admin_client_config :: "string \<Rightarrow> string option \<Rightarrow> string option \<Rightarrow> (string, conf) dict" where
  "admin_client_config bootstrap username password =
     (if text_true username \<and> text_true password
      then dict_update [(''bootstrap.servers'', CText bootstrap)]
        [(''security.protocol'', CText ''SASL_SSL''), (''sasl.mechanisms'', CText ''SCRAM-SHA-512''),
         (''sasl.username'', CText (the username)), (''sasl.password'', CText (the password))]
      else [(''bootstrap.servers'', CText bootstrap)])"

text \<open>Some futures failed or none did.\<close>

definition exit_code :: "('a \<times> unit res) list \<Rightarrow> int" where
  "exit_code futures = (if list_ex (\<lambda>nf. isl (snd nf)) futures then 1 else 0)"

text \<open>main: the topics it asked the broker to create, and its exit code.\<close>

definition create_topics_main ::
  "string list res \<Rightarrow> (topic_request list \<Rightarrow> (string \<times> unit res) list) \<Rightarrow> int \<Rightarrow> topic_request list \<times> int res" where
  "create_topics_main listed_topics create replication = (case listed_topics of
     Inl e \<Rightarrow> ([], Inl e)
   | Inr existing \<Rightarrow>
       (let wanted = filter (\<lambda>s. sp_name s \<notin> set existing) topic_specs in
        if wanted = [] then ([], Inr 0)
        else (let reqs = map (\<lambda>s. to_new_topic s replication) wanted
              in (reqs, Inr (exit_code (create reqs))))))"

subsection \<open>Access control lists\<close>

datatype resource = TopicResource | GroupResource | BrokerResource | TransactionalIdResource

text \<open>The enumerations of confluent_kafka.admin, whose other members are named by a text.\<close>

datatype pattern = LiteralPattern | OtherPattern string

datatype operation = AllOperations | OtherOperation string

datatype permission = AllowPermission | OtherPermission string

record acl_binding =
  ab_restype :: resource
  ab_name :: string
  ab_pattern :: pattern
  ab_principal :: string
  ab_host :: string
  ab_operation :: operation
  ab_permission :: permission

definition default_principal :: string where "default_principal = ''User:*''"

definition any_host :: string where "any_host = ''*''"

definition cluster_resource_name :: string where "cluster_resource_name = ''kafka-cluster''"

definition full_access :: "string \<Rightarrow> resource \<times> string \<Rightarrow> acl_binding" where
  "full_access princ rn = \<lparr> ab_restype = fst rn, ab_name = snd rn, ab_pattern = LiteralPattern,
     ab_principal = princ, ab_host = any_host, ab_operation = AllOperations, ab_permission = AllowPermission \<rparr>"

definition wanted_bindings :: "string \<Rightarrow> acl_binding list" where
  "wanted_bindings princ = map (full_access princ)
     [(TopicResource, ''*''), (GroupResource, ''*''), (BrokerResource, cluster_resource_name),
      (TransactionalIdResource, ''*'')]"

text \<open>value or default, for optional command-line arguments.\<close>

definition or_default :: "string option \<Rightarrow> string option \<Rightarrow> string option" where
  "or_default v d = (if text_true v then v else d)"

text \<open>main: the configuration it connects with, the bindings it creates and its exit code.\<close>

definition create_acls_main ::
  "settings \<Rightarrow> string option \<Rightarrow> string option \<Rightarrow> string option \<Rightarrow> string
   \<Rightarrow> (acl_binding list \<Rightarrow> (acl_binding \<times> unit res) list) \<Rightarrow> acl_binding list res
   \<Rightarrow> (string, conf) dict \<times> acl_binding list \<times> int res" where
  "create_acls_main s bootstrap username password princ create described =
     (let cfg = admin_client_config (the (or_default bootstrap (Some (st_bootstrap_servers s))))
            (or_default username (st_sasl_username s)) (or_default password (st_sasl_password s));
          bindings = wanted_bindings princ
      in (cfg, bindings,
          if exit_code (create bindings) \<noteq> 0 then Inr 1
          else rbind described (\<lambda>existing.
            if filter (\<lambda>b. b \<notin> set existing) bindings \<noteq> [] then Inr 1 else Inr 0)))"

subsection \<open>Facts\<close>

lemma exit_code_0: "exit_code fs = 0 \<longleftrightarrow> (\<forall>nf\<in>set fs. snd nf = Inr ())"
proof -
  have "(r :: unit res) = Inr () \<longleftrightarrow> \<not> isl r" for r by (cases r) simp_all
  then show ?thesis by (simp add: exit_code_def list_ex_iff)
qed

lemma exit_code_cases: "exit_code fs = 0 \<or> exit_code fs = 1"
  by (simp add: exit_code_def)

lemma topic_names_distinct: "distinct (map sp_name topic_specs)"
  by (simp add: topic_specs_def)

subsection \<open>Properties\<close>

text \<open>
  Provisioning topics is idempotent and complete: it asks the broker for each
  topic of TOPIC_SPECS that is not there, once and with its settings, and for no other; exit
  code 0 says that everything it asked for was created; and a run after one that succeeded asks
  for nothing and succeeds again.
\<close>

theorem topics_created_once:
  assumes "create_topics_main (Inr existing) create replication = (reqs, r)"
    and "\<forall>rs. map fst (create rs) = map tr_name rs"
  shows "map tr_name reqs = filter (\<lambda>n. n \<notin> set existing) (map sp_name topic_specs) \<and> distinct (map tr_name reqs) \<and>
    (\<forall>q\<in>set reqs. \<exists>s\<in>set topic_specs. q = to_new_topic s replication) \<and>
    (r = Inr 0 \<longrightarrow> (\<forall>q\<in>set reqs. (tr_name q, Inr ()) \<in> set (create reqs)) \<and>
       create_topics_main (Inr (existing @ map tr_name reqs)) create replication = ([], Inr 0))"
proof -
  let ?wanted = "filter (\<lambda>s. sp_name s \<notin> set existing) topic_specs"
  have reqs: "reqs = map (\<lambda>s. to_new_topic s replication) ?wanted"
    and r: "reqs \<noteq> [] \<Longrightarrow> r = Inr (exit_code (create reqs))"
    using assms(1) by (auto simp: create_topics_main_def Let_def split: if_splits)
  have names: "map tr_name reqs = filter (\<lambda>n. n \<notin> set existing) (map sp_name topic_specs)"
    by (simp add: reqs to_new_topic_def filter_map o_def)
  then have "distinct (map tr_name reqs)" using topic_names_distinct by simp
  moreover have "(tr_name q, Inr ()) \<in> set (create reqs)" if q: "q \<in> set reqs" and ok: "r = Inr 0" for q
  proof -
    from q have "reqs \<noteq> []" by auto
    with r ok have "exit_code (create reqs) = 0" by simp
    moreover have "tr_name q \<in> set (map fst (create reqs))" using q assms(2) by simp
    ultimately show ?thesis by (auto simp: exit_code_0)
  qed
  moreover have "create_topics_main (Inr (existing @ map tr_name reqs)) create replication = ([], Inr 0)"
  proof -
    have "\<forall>s\<in>set topic_specs. sp_name s \<in> set (existing @ map tr_name reqs)" by (auto simp: names)
    then have "filter (\<lambda>s. sp_name s \<notin> set (existing @ map tr_name reqs)) topic_specs = []" by (auto simp: filter_empty_conv)
    then show ?thesis by (simp add: create_topics_main_def)
  qed
  ultimately show ?thesis using names reqs by auto
qed

theorem topics_created_once_witness:
  "map tr_name (fst (create_topics_main (Inr (tl (map sp_name topic_specs))) (map (\<lambda>q. (tr_name q, Inr ()))) 2)) = [''md.trades.v1'']"
proof -
  let ?c = "map (\<lambda>q. (tr_name q, Inr ()))" and ?ex = "tl (map sp_name topic_specs)"
  obtain reqs r where m: "create_topics_main (Inr ?ex) ?c 2 = (reqs, r)"
    by (cases "create_topics_main (Inr ?ex) ?c 2")
  from topics_created_once [OF m] have "map tr_name reqs = filter (\<lambda>n. n \<notin> set ?ex) (map sp_name topic_specs)"
    by (simp add: o_def)
  with m show ?thesis by (simp add: topic_specs_def)
qed

text \<open>
  Property C9. The gate before the cluster turns to deny-by-default is sound: create_acls
  exits with 0 exactly when no grant failed and every binding that was asked for is among those
  the broker reports back; a broker that accepts the grants and does not show them gives 1.
\<close>

theorem acl_gate_is_exact:
  "snd (snd (create_acls_main s bootstrap username password princ create described)) = Inr 0 \<longleftrightarrow>
     (\<forall>bf\<in>set (create (wanted_bindings princ)). snd bf = Inr ()) \<and>
     (\<exists>existing. described = Inr existing \<and> set (wanted_bindings princ) \<subseteq> set existing)"
  using exit_code_0 [of "create (wanted_bindings princ)"]
  by (auto simp: create_acls_main_def Let_def res_simps filter_empty_conv)

definition silent_broker :: "acl_binding list \<Rightarrow> (acl_binding \<times> unit res) list" where
  "silent_broker bs = map (\<lambda>b. (b, Inr ())) bs"

theorem acl_gate_is_exact_witness:
  "snd (snd (create_acls_main default_settings None None None default_principal silent_broker (Inr []))) \<noteq> Inr 0"
  using acl_gate_is_exact [of default_settings None None None default_principal silent_broker "Inr []"]
  by (simp add: wanted_bindings_def)

end
