(* ===== verification/Notebook.thy ===== *)
theory Notebook
  imports Health
begin

text \<open>
  scripts/prepare_msk_notebook.py: the preflight of a notebook. Its parameters are the record
  machine: how subprocesses end (theory Target), the public address page, ipaddress.ip_address
  (version and canonical text, None where it raises ValueError) and the Kafka clients of a target.
  Every command run, those of devlab.from_terraform included, is recorded with the environment it
  ran in.
\<close>

record machine =
  mc_run :: launcher
  mc_public_ip :: "string res"
  mc_ip_address :: "string \<Rightarrow> (nat \<times> string) option"
  mc_broker :: "target \<Rightarrow> broker"

definition raw_aws_credential_variables :: "string list" where
  "raw_aws_credential_variables = [''AWS_ACCESS_KEY_ID'', ''AWS_SECRET_ACCESS_KEY'', ''AWS_SESSION_TOKEN'', ''AWS_SECURITY_TOKEN'']"

definition clean_aws_environment :: "string \<Rightarrow> env \<Rightarrow> env" where
  "clean_aws_environment profile source =
     dict_set ''AWS_PROFILE'' profile (filter (\<lambda>kv. fst kv \<notin> set raw_aws_credential_variables) source)"

definition refuse_prep :: "string \<Rightarrow> exn" where
  "refuse_prep msg = Exn PreparationError msg"

definition run_cmd :: "machine \<Rightarrow> env \<Rightarrow> string list \<Rightarrow> (int \<times> string \<times> string) shell_op" where
  "run_cmd mc e args = pbind (run_process (mc_run mc) (Some e) args) (\<lambda>result. lift (case result of
     Exited code out err \<Rightarrow> Inr (code, out, err)
   | NotOnPath \<Rightarrow> Inl (Exn FileNotFoundError (hd args))
   | TimedOut \<Rightarrow> Inl (Exn OtherError ''TimeoutExpired'')))"

definition successful_output :: "int \<times> string \<times> string \<Rightarrow> string option" where
  "successful_output r = (case r of (code, out, err) \<Rightarrow>
     let value = strip out in if code = 0 \<and> value \<noteq> [] \<and> value \<noteq> ''None'' then Some value else None)"

definition identity_command :: "string list" where
  "identity_command = [''aws'', ''sts'', ''get-caller-identity'', ''--query'', ''Account'', ''--output'', ''text'']"

definition sso_setting :: "string \<Rightarrow> string \<Rightarrow> string list" where
  "sso_setting key profile = [''aws'', ''configure'', ''get'', key, ''--profile'', profile]"

definition ensure_aws_credentials :: "machine \<Rightarrow> string \<Rightarrow> env \<Rightarrow> string shell_op" where
  "ensure_aws_credentials mc profile e =
     pbind (run_cmd mc e identity_command) (\<lambda>identity. case successful_output identity of
       Some account \<Rightarrow> lift (Inr account)
     | None \<Rightarrow>
         pbind (run_cmd mc e (sso_setting ''sso_session'' profile)) (\<lambda>session.
         pbind (run_cmd mc e (sso_setting ''sso_start_url'' profile)) (\<lambda>start_url.
           if successful_output session = None \<and> successful_output start_url = None
           then lift (Inl (refuse_prep (''AWS profile '' @ py_repr profile @ '' is invalid or expired and is not configured for ''
             @ ''SSO, so it cannot be refreshed automatically.'')))
           else pbind (run_cmd mc e [''aws'', ''sso'', ''login'', ''--profile'', profile]) (\<lambda>(code, _, _).
             if code \<noteq> 0 then lift (Inl (refuse_prep (''AWS SSO login failed for profile '' @ py_repr profile)))
             else pbind (run_cmd mc e identity_command) (\<lambda>again. case successful_output again of
                 Some account \<Rightarrow> lift (Inr account)
               | None \<Rightarrow> lift (Inl (refuse_prep (''AWS profile '' @ py_repr profile @ '' is still invalid after SSO login: ''
                   @ strip (snd (snd again)))))))))) "

definition required_output :: "machine \<Rightarrow> env \<Rightarrow> string list \<Rightarrow> string \<Rightarrow> string shell_op" where
  "required_output mc e args error = pbind (run_cmd mc e args) (\<lambda>r. case successful_output r of
     Some value \<Rightarrow> lift (Inr value)
   | None \<Rightarrow> (let detail = strip (snd (snd r)) in
       lift (Inl (refuse_prep (error @ (if detail \<noteq> [] then '': '' @ detail else []))))))"

text \<open>devlab.from_terraform runs its commands in the environment of the process.\<close>

definition verify_access :: "machine \<Rightarrow> string \<Rightarrow> unit shell_op" where
  "verify_access mc dev_dir = pbind (from_terraform (mc_run mc) dev_dir) (\<lambda>t.
     pbind (lift (topics (mc_broker mc t) t [] False)) (\<lambda>infos.
     lift (if ''md.trades.v1'' \<in> set (map ti_name infos) then Inr ()
     else Inl (refuse_prep (''MSK is reachable but md.trades.v1 is missing; run `make up` to finish topic provisioning.'')))))"

definition operator_cidrs :: "string \<Rightarrow> string" where
  "operator_cidrs ip = [CHR ''['', char_of (34::nat)] @ ip @ ''/32'' @ [char_of (34::nat), CHR '']'']"

definition apply_command :: "string \<Rightarrow> string \<Rightarrow> string list" where
  "apply_command dev_dir ip = [''terraform'', ''-chdir='' @ dev_dir, ''apply'', ''-input=false'', ''-auto-approve'',
     ''-var=msk_public_access=true'', ''-var=msk_restrict_acls=true'', ''-var=operator_cidrs='' @ operator_cidrs ip]"

text \<open>A page that is not ASCII raises UnicodeDecodeError, a ValueError, which prepare reports like a bad address.\<close>

definition public_ip :: "machine \<Rightarrow> string res" where
  "public_ip mc = (case mc_public_ip mc of
     Inl e \<Rightarrow> if is_value_error (exn_kind e) then Inl (refuse_prep ''Could not determine a valid public IP address'') else Inl e
   | Inr page \<Rightarrow> Inr (strip page))"

text \<open>The with block of prepare, under the temporary environment e.\<close>

definition prepare_in :: "machine \<Rightarrow> string \<Rightarrow> string \<Rightarrow> env \<Rightarrow> string shell_op" where
  "prepare_in mc profile dev_dir e =
     pbind (ensure_aws_credentials mc profile e) (\<lambda>account.
     pbind (run_cmd mc e [''terraform'', ''-chdir='' @ dev_dir, ''init'', ''-input=false'', ''-reconfigure'']) (\<lambda>(icode, _, ierr).
     if icode \<noteq> 0 then lift (Inl (refuse_prep (''Terraform initialization failed: '' @ strip ierr))) else
     pbind (required_output mc e [''terraform'', ''-chdir='' @ dev_dir, ''output'', ''-raw'', ''cluster_arn'']
       ''No deployed MSK stack was found; run `make up` once'') (\<lambda>arn. case arn_region arn of
       None \<Rightarrow> lift (Inl (refuse_prep (''Terraform returned an invalid MSK cluster ARN: '' @ py_repr arn)))
     | Some region \<Rightarrow>
     pbind (required_output mc e (brokers_command arn region)
       ''The deployed MSK cluster has no public SASL/SCRAM endpoint'') (\<lambda>_.
     pbind (lift (public_ip mc)) (\<lambda>page. case mc_ip_address mc page of
       None \<Rightarrow> lift (Inl (refuse_prep ''Could not determine a valid public IP address''))
     | Some (version, ip) \<Rightarrow>
         if version \<noteq> 4 then lift (Inl (refuse_prep (''MSK operator access currently requires an IPv4 address, got '' @ ip)))
         else pbind (run_cmd mc e (apply_command dev_dir ip)) (\<lambda>(acode, _, aerr).
           if acode \<noteq> 0 then lift (Inl (refuse_prep (''Terraform access refresh failed: '' @ strip aerr)))
           else pbind (verify_access mc dev_dir) (\<lambda>_. lift (Inr ip))))))))"

text \<open>
  The temporary environment: that of the process is replaced for the block and restored whatever
  the block does. The result of prepare is the address its message names.
\<close>

definition with_environment :: "env \<Rightarrow> 'a shell_op \<Rightarrow> 'a shell_op" where
  "with_environment e body s =
     (case body (s\<lparr> sh_environ := e \<rparr>) of (s', r) \<Rightarrow> (s'\<lparr> sh_environ := sh_environ s \<rparr>, r))"

definition prepare :: "machine \<Rightarrow> string \<Rightarrow> string \<Rightarrow> string shell_op" where
  "prepare mc profile dev_dir s =
     (let e = clean_aws_environment profile (sh_environ s)
      in with_environment e (prepare_in mc profile dev_dir e) s)"

definition notebook_main :: "machine \<Rightarrow> string \<Rightarrow> string \<Rightarrow> int shell_op" where
  "notebook_main mc profile dev_dir s = (case prepare mc profile dev_dir s of
     (s', Inr ip) \<Rightarrow> (s', Inr 0)
   | (s', Inl e) \<Rightarrow> (s', if exn_kind e = PreparationError then Inr 2 else Inl e))"

subsection \<open>Facts\<close>























end
