(* ===== verification/Spec2Isabelle.thy ===== *)
theory Spec2Isabelle
  imports Runner Producer Sink Ws Seed Loader Collect Ops Health Cli Bars Dashboard Market Pipeline Admin Notebook Silver
begin

text \<open>
  A verification development for the realtime finance bot: market trades are taken from two
  exchanges, published to Kafka or Kinesis, and landed in Iceberg tables by SQL that Python renders
  and runs; archives of the exchange fill in history, and two collectors add context.

  How the program is put together, and which theory models which part (all paths under src/).

  Live path. A connector (ingest/connectors/binance.py, coinbase.py: Connectors, with binary64
  arithmetic in Floats and JSON text in Json) turns frames of a websocket (ingest/core/ws.py: Ws)
  into trades (ingest/core/models.py, codec.py and the Avro schema: Models). The ingest runner
  (ingest/runner.py: Runner) observes each trade in the gap detector (ingest/core/gaps.py: Gaps),
  puts it into a bounded queue (ingest/core/queue.py: Queue), drains the queue into a sink, and
  repairs detected gaps over REST under a token bucket (ingest/core/ratelimit.py: Ratelimit; the
  symbols come from ingest/core/instruments.py: Instruments). The sink is the Kafka producer
  (ingest/core/producer.py: Producer) or the Kinesis sink (awsnative/sink.py: Sink, its documents
  in awsnative/encode.py: Encode). Cli is the start of a process (ingest/cli.py,
  awsnative/cli.py): one runner per configured venue with symbols, or an exit.

  Backfill path (awsnative/backfill). Calendar holds the dates of the standard library the parts
  below use; Tiers plans archive files for a window (tiers.py), Manifest holds the work items and
  outcomes (manifest.py), Checksum, Epoch and Parsers read one file (checksum.py, epoch.py,
  parsers.py), Loader fetches, verifies and stages it (loader.py, staging.py), and Seed is the
  main program (seed.py), over the Athena client (awsnative/athena.py: Athena).

  Warehouse path. Render (awsnative/render.py) fills the SQL templates, Ops runs them
  (awsnative/ddl.py, query.py), Monitoring publishes the health rows
  (awsnative/monitoring/collect.py). Perp, Macro and Collect are the enrichment collectors
  (awsnative/enrichment). Silver is the classification of decoded records and the immutability
  check (lakehouse/trades). Bars is the decomposition of bars into measures that compose
  (awsnative/bars.py) and the rolling average of scripts/consume_example.py, with Decimal as
  rationals rounded to 28 significant digits.

  Operator tools. Target resolves a broker (ingest/settings.py, awsnative/settings.py,
  devlab/config.py), Stream and Health read a topic back (devlab/stream.py, health.py), Admin
  provisions topics and access control (scripts/create_topics.py, create_acls.py), Notebook is the
  preflight of a notebook (scripts/prepare_msk_notebook.py). Prelude holds what all share:
  exceptions as values of a sum type with their sequencing, Python's string operations and
  dictionaries, and the lemmas about them.

  Dashboard and second sink. Html holds html.escape and a reader of the HTML the pages use, Formats
  the format specifications of floats and binary64 arithmetic on them, Charts the SVG panels of
  awsnative/dashboard/charts.py, and Dashboard the page and its command (dashboard/page.py,
  dashboard/cli.py). Pipeline is the Databricks pipeline (lakehouse/pipelines/trades.py): what its
  tables hold after a batch, over the declarations' own expectations and keys. In the dashboard
  theories a string is its UTF-8 bytes, and numbers are finite.

  Notebooks. Frames and Ohlcv are devlab/frames.py, the records of a frame and their deduplication,
  and the bars with the comparison of venues; Ohlcv also has the bars of
  notebooks/02_prototype_silver.ipynb and their check. Research and Market are
  notebooks/04_stream_product_research.ipynb: what it captures, measures, compares and recommends.
  What pandas computes is a parameter.

  How the state and the operations correspond to the code. A class or dataclass is a record with
  the fields of the source; an enumeration is a datatype; a raise is an Inl of the exception's class
  and text, sequenced by rbind and rmap; dictionaries are association lists in insertion order. The
  runner is a step relation with one action per await of its tasks, so that every interleaving of
  pump, drain, repairs, stop and cancellation is a path of it, with ghost lists of what was taken,
  observed, answered by repairs, produced and lost. Loops are structural recursion or functions with a measure; the
  polling loops of Athena and Stream, which may never end, are partial functions into option, where
  None is a run that does not return, and their theorems say when the result is Some. No fuel is
  used. Python's int is int, the Avro long is bounded by a predicate, binary64 is exact rounding of
  rationals (Floats) where the code relies on it; durations and clock readings are rationals.

  What is a parameter. Everything that is not Python of the repository or its standard library:
  HTTP, websockets, librdkafka and fastavro, boto3, pydantic, zip and gzip, SHA-256, JSON decoding,
  Spark's casts and from_avro, how a subprocess ends (which ones are started, in which environment,
  is a result of the model), and the system clock. A theorem that relies on one of
  them names what it relies on as a hypothesis, and its witness shows a concrete function with it.

  What the lemmas show. Gaps and Runner: every id missed on a stream is reported and repaired, and
  every trade is accounted for in every reachable state; also where trades are lost (a cancelled
  put, a repair that finishes after the drain). Queue, Ratelimit, Ws: the queue refines a bounded
  list under both policies, tokens are granted at no more than the rate, reconnects are announced
  once. Connectors, Encode, Producer, Sink: frames become exactly their trades, encodings are
  injective, each trade is accepted once, and what a failure costs. Tiers to Seed: every day of a
  window is planned once, nothing unverified is staged, files become outcomes unless a
  library raises what the loader does not name, runs can resume.
  Athena, Render, Ops, Monitoring: statements are split where their author ended them, templates are
  filled completely or refused, runs stop at the first failure. Perp, Macro, Collect: which rows a
  poll gives and what an outage costs. Silver: the split of decoded records is exact under SQL's
  three-valued logic. Stream, Health: reads end, and the completeness check is the ingest detector.
  Admin, Notebook, Target: provisioning is idempotent and verified, the preflight opens one address, and
  every command it starts has its environment.
  Cli, Bars: a start runs every venue or none, and rolling bars up agrees with one bar over all
  trades in every measure but the realized volatility as long as no sum leaves the 28 digits.
  Html, Charts, Dashboard: whatever text the tables hold, a page is HTML of the elements the code
  writes, a table view reads back as its rows, points stay inside their panel, and every
  section is made of its own queries' rows, whatever the other queries did. Pipeline, Frames: one row per key, the earliest delivery kept, and
  what a key shared by two symbols costs. Ohlcv, Research: each trade is in one bar, the average
  price of a bar lies in it up to rounding, and the integrity figures and spread samples count what
  they name. The theorem of this theory composes the live path: what a run of the runner took in is
  what Silver holds, one row per key, however Kafka delivers it.
  The locales state interfaces (a bounded channel and its lossless refinement, a connector, a
  trade sink) and are interpreted on the models of both implementations.

  Not modelled: argument parsing, signals, prints, displays, plots and logging, the adapters that
  only build a client of a library; Terraform and the SQL files themselves, whose semantics is that
  of tools outside the repository.
\<close>

subsection \<open>The two ends of the transport\<close>

text \<open>A record as the Kafka connector of Spark sees a produced message.\<close>

definition landed :: "kafka_message \<Rightarrow> kafka_row" where
  "landed msg = \<lparr> k_key = Some (m_key msg), k_value = m_value msg, k_topic = m_topic msg,
     k_partition = 0, k_offset = 0, k_timestamp = 0 \<rparr>"

lemma produced_value:
  assumes "write_avro trade_v1 (to_avro t) = Inr bs" and "p_schema p = trade_v1" and "\<forall>h m. lib h m = None"
  shows "producer_produce lib write_avro p topic t = Inr (p\<lparr>p_handed := p_handed p @
    [\<lparr> m_topic = topic, m_key = kafka_key t, m_value = bs, m_headers = trade_headers t \<rparr>]\<rparr>)"
  using assms by (simp add: producer_produce_def codec_encode_def Let_def)

lemma landed_silver:
  assumes "s_from_avro sp bs = Some (to_avro t)" and "\<forall>s x. s_try_cast sp decimal_type s = Some x \<longrightarrow> s_cast sp decimal_type s = Some x"
    and "trade_reason sp t = None" and "k_value k = bs"
  shows "valid_trades sp (classify_trades sp [decode_kafka_trades sp k]) = [silver_of sp t]"
  using valid_map [of sp "[k]"] silver_row_of_trade [of sp k t] reason_of_trade [of sp k t] assms by simp

text \<open>
  From the producer to Silver: with an Avro library that writes every
  conforming record so that Spark reads it back, and a cast that agrees with try_cast, producing a
  conforming clean trade hands over one message, and the record it becomes in Bronze lands in
  Silver as exactly the fields of the trade.
\<close>

theorem published_trade_lands_in_silver:
  assumes "\<forall>d. conforms d trade_v1 \<longrightarrow> (\<exists>bs. write_avro trade_v1 d = Inr bs \<and> s_from_avro sp bs = Some d)"
    and "\<forall>s x. s_try_cast sp decimal_type s = Some x \<longrightarrow> s_cast sp decimal_type s = Some x"
    and "conforms (to_avro t) trade_v1" and "p_schema p = trade_v1" and "trade_reason sp t = None"
    and "\<forall>h m. lib h m = None"
  shows "\<exists>msg. producer_produce lib write_avro p topic t = Inr (p\<lparr>p_handed := p_handed p @ [msg]\<rparr>) \<and>
    m_topic msg = topic \<and> m_key msg = kafka_key t \<and>
    valid_trades sp (classify_trades sp [decode_kafka_trades sp (landed msg)]) = [silver_of sp t]"
proof -
  obtain bs where bs: "write_avro trade_v1 (to_avro t) = Inr bs" "s_from_avro sp bs = Some (to_avro t)"
    using assms(1,3) by blast
  let ?msg = "\<lparr> m_topic = topic, m_key = kafka_key t, m_value = bs, m_headers = trade_headers t \<rparr>"
  have "valid_trades sp (classify_trades sp [decode_kafka_trades sp (landed ?msg)]) = [silver_of sp t]"
    by (rule landed_silver [OF bs(2) assms(2,5)]) (simp add: landed_def)
  then show ?thesis using produced_value [where write_avro = write_avro and lib = lib, OF bs(1) assms(4,6), of topic]
    by (intro exI [of _ ?msg]) simp
qed

text \<open>A library over the pieces of theory Producer, and decimals that are all one half.\<close>

definition half_spark :: spark where
  "half_spark = example_spark\<lparr> s_from_avro := (\<lambda>bs. Some (inv avro_text bs)) \<rparr>"

theorem published_trade_lands_in_silver_witness:
  "\<exists>msg. producer_produce roomy_lib (\<lambda>sch d. Inr (avro_text d)) \<lparr>p_config = [], p_schema = trade_v1, p_handed = []\<rparr>
      ''md.trades.v1'' example_trade = Inr \<lparr>p_config = [], p_schema = trade_v1, p_handed = [msg]\<rparr> \<and>
    valid_trades half_spark (classify_trades half_spark [decode_kafka_trades half_spark (landed msg)]) =
      [silver_of half_spark example_trade]"
proof -
  let ?w = "\<lambda>(sch :: schema) d. (Inr (avro_text d) :: string res)"
    and ?p = "\<lparr>p_config = [], p_schema = trade_v1, p_handed = []\<rparr>"
  have r: "\<forall>d. conforms d trade_v1 \<longrightarrow> (\<exists>bs. ?w trade_v1 d = Inr bs \<and> s_from_avro half_spark bs = Some d)"
    by (simp add: half_spark_def inv_f_f [OF avro_text_inj])
  have c: "\<forall>s x. s_try_cast half_spark decimal_type s = Some x \<longrightarrow> s_cast half_spark decimal_type s = Some x"
    by (simp add: half_spark_def example_spark_def)
  have t: "conforms (to_avro example_trade) trade_v1"
    by (simp add: to_avro_conforms_iff example_trade_def int64_def)
  have s: "trade_reason half_spark example_trade = None"
    by (simp add: half_spark_def example_spark_def trade_reason_def example_trade_def epoch_floor_us_def one_day_us_def positive_def)
  from published_trade_lands_in_silver [where write_avro = ?w, OF r c t _ s, where p = ?p and topic = "''md.trades.v1''" and lib = roomy_lib]
  show ?thesis by (auto simp: roomy_lib_def)
qed

subsection \<open>From the websocket to the table\<close>

text \<open>The publish calls of the drain, in the order of its trades.\<close>

fun publish_all :: "kafka_lib \<Rightarrow> avro_writer \<Rightarrow> trade_producer \<Rightarrow> string \<Rightarrow> trade list \<Rightarrow> trade_producer res" where
  "publish_all lib write_avro p topic [] = Inr p"
| "publish_all lib write_avro p topic (t # ts) =
     rbind (producer_produce lib write_avro p topic t) (\<lambda>p'. publish_all lib write_avro p' topic ts)"

lemma publish_all_hands_over:
  assumes "\<forall>d. conforms d trade_v1 \<longrightarrow> (\<exists>bs. write_avro trade_v1 d = Inr bs \<and> s_from_avro sp bs = Some d)"
    and "\<forall>t\<in>set ts. conforms (to_avro t) trade_v1" and "p_schema p = trade_v1" and "\<forall>h m. lib h m = None"
  shows "\<exists>msgs. publish_all lib write_avro p topic ts = Inr (p\<lparr>p_handed := p_handed p @ msgs\<rparr>) \<and>
    list_all2 (\<lambda>msg t. s_from_avro sp (m_value msg) = Some (to_avro t)) msgs ts"
  using assms(2,3)
proof (induction ts arbitrary: p)
  case (Cons t ts)
  from Cons.prems(1) assms(1) obtain bs where bs: "write_avro trade_v1 (to_avro t) = Inr bs" "s_from_avro sp bs = Some (to_avro t)"
    by auto
  let ?msg = "\<lparr> m_topic = topic, m_key = kafka_key t, m_value = bs, m_headers = trade_headers t \<rparr>"
  let ?p = "p\<lparr>p_handed := p_handed p @ [?msg]\<rparr>"
  from Cons.IH [of ?p] Cons.prems obtain msgs where
    "publish_all lib write_avro ?p topic ts = Inr (?p\<lparr>p_handed := p_handed ?p @ msgs\<rparr>)"
    "list_all2 (\<lambda>msg t. s_from_avro sp (m_value msg) = Some (to_avro t)) msgs ts" by auto
  moreover have "producer_produce lib write_avro p topic t = Inr ?p"
    by (rule produced_value [where write_avro = write_avro, OF bs(1) Cons.prems(2) assms(4)])
  ultimately show ?case using bs(2) by (intro exI [of _ "?msg # msgs"]) simp
qed simp

text \<open>Records that are messages of the trades, each at least once and in any order.\<close>

lemma delivered_trades:
  assumes "list_all2 (\<lambda>msg t. s_from_avro sp (m_value msg) = Some (to_avro t)) msgs ts"
    and "k_value ` set raw = m_value ` set msgs"
  obtains us where "list_all2 (\<lambda>k t. s_from_avro sp (k_value k) = Some (to_avro t)) raw us" and "set us = set ts"
proof -
  have msg: "(\<exists>msg\<in>set msgs. m_value msg = v) \<longleftrightarrow> v \<in> k_value ` set raw" for v
    unfolding assms(2) by auto
  have "\<exists>t\<in>set ts. s_from_avro sp (k_value k) = Some (to_avro t)" if "k \<in> set raw" for k
  proof -
    from that msg [of "k_value k"] obtain m where "m \<in> set msgs" "m_value m = k_value k" by auto
    with assms(1) show ?thesis by (fastforce simp: list_all2_conv_all_nth in_set_conv_nth)
  qed
  then have "\<forall>k\<in>set raw. \<exists>t. t \<in> set ts \<and> s_from_avro sp (k_value k) = Some (to_avro t)" by blast
  from bchoice [OF this] obtain f where f: "\<forall>k\<in>set raw. f k \<in> set ts \<and> s_from_avro sp (k_value k) = Some (to_avro (f k))" ..
  have "t \<in> f ` set raw" if "t \<in> set ts" for t
  proof -
    from that assms(1) obtain m where m: "m \<in> set msgs" "s_from_avro sp (m_value m) = Some (to_avro t)"
      using list_all2_right [OF assms(1), of t] by blast
    with msg [of "m_value m"] obtain k where k: "k \<in> set raw" "k_value k = m_value m" by auto
    with f m(2) have "to_avro (f k) = to_avro t" by force
    from to_avro_inj [OF this] k(1) show ?thesis by blast
  qed
  with f have "set (map f raw) = set ts" by auto
  moreover have "list_all2 (\<lambda>k t. s_from_avro sp (k_value k) = Some (to_avro t)) raw (map f raw)"
    using f by (simp add: list_all2_conv_all_nth)
  ultimately show thesis using that by blast
qed

text \<open>
  Property C11. From the websocket to the table: when a run of the ingest runner ends without a
  cancelled pump, a raising sink or a trade left in the queue, publishing what its drain produced
  hands over a message for each (the local queue of the Kafka library never being full), and
  however Kafka delivers these messages, in any order and any number of times but each at least
  once, the Silver table has exactly one row for every (venue, trade_id) of the clean trades the
  stream and the repairs took in, and every row is one of those trades, of the latest event time
  for its key.
\<close>

theorem run_lands_in_silver:
  assumes "exec c as (new_runner n BLOCK) = Some s" and "CancelPump \<notin> set as" and "DrainFails \<notin> set as"
    and "finished s" and "q_items (r_queue s) = []"
    and "\<forall>t\<in>set (r_taken s). conforms (to_avro t) trade_v1" and "p_schema p = trade_v1"
    and "\<forall>d. conforms d trade_v1 \<longrightarrow> (\<exists>bs. write_avro trade_v1 d = Inr bs \<and> s_from_avro sp bs = Some d)"
    and "\<forall>str x. s_try_cast sp decimal_type str = Some x \<longrightarrow> s_cast sp decimal_type str = Some x" and "scd1 cdc" and "\<forall>h m. lib h m = None"
  shows "\<exists>msgs. publish_all lib write_avro p topic (r_produced s) = Inr (p\<lparr>p_handed := p_handed p @ msgs\<rparr>) \<and>
    length msgs = length (r_taken s) \<and>
    (\<forall>raw. k_value ` set raw = m_value ` set msgs \<longrightarrow>
      (let clean = {t \<in> set (r_taken s). trade_reason sp t = None}; rows = silver_trades sp cdc raw in
        distinct (map (key_of [''venue'', ''trade_id'']) rows) \<and> length rows = card (silver_key ` clean) \<and>
        (\<forall>r\<in>set rows. \<exists>t\<in>clean. r = silver_of sp t \<and>
          (\<forall>u\<in>clean. silver_key u = silver_key t \<longrightarrow> t_event_ts_us u \<le> t_event_ts_us t))))"
proof -
  have produced: "mset (r_produced s) = mset (r_taken s)"
    by (rule undisturbed_run_produces [OF assms(1-5)])
  then have set: "set (r_produced s) = set (r_taken s)" by (metis set_mset_mset)
  obtain msgs where msgs: "publish_all lib write_avro p topic (r_produced s) = Inr (p\<lparr>p_handed := p_handed p @ msgs\<rparr>)"
    and all: "list_all2 (\<lambda>msg t. s_from_avro sp (m_value msg) = Some (to_avro t)) msgs (r_produced s)"
    using publish_all_hands_over [where write_avro = write_avro and topic = topic and lib = lib, OF assms(8) _ assms(7,11), of "r_produced s"] assms(6) set
    by auto
  have "length msgs = length (r_taken s)"
    using list_all2_lengthD [OF all] arg_cong [OF produced, of size] by simp
  moreover have "let clean = {t \<in> set (r_taken s). trade_reason sp t = None}; rows = silver_trades sp cdc raw in
        distinct (map (key_of [''venue'', ''trade_id'']) rows) \<and> length rows = card (silver_key ` clean) \<and>
        (\<forall>r\<in>set rows. \<exists>t\<in>clean. r = silver_of sp t \<and>
          (\<forall>u\<in>clean. silver_key u = silver_key t \<longrightarrow> t_event_ts_us u \<le> t_event_ts_us t))"
    if "k_value ` set raw = m_value ` set msgs" for raw
  proof -
    from delivered_trades [OF all that] obtain us where
      us: "list_all2 (\<lambda>k t. s_from_avro sp (k_value k) = Some (to_avro t)) raw us" and "set us = set (r_produced s)" .
    then have "set us = set (r_taken s)" by (simp add: set)
    with silver_table [OF assms(10) us assms(9)] show ?thesis by (simp add: Let_def)
  qed
  ultimately show ?thesis using msgs by blast
qed

text \<open>The run of theory Runner that repairs its gap, with every message delivered twice.\<close>

theorem run_lands_in_silver_witness:
  "\<exists>s msgs. exec example_conn complete_run (new_runner 10 BLOCK) = Some s \<and>
     publish_all roomy_lib (\<lambda>sch d. Inr (avro_text d)) \<lparr>p_config = [], p_schema = trade_v1, p_handed = []\<rparr> ''md.trades.v1'' (r_produced s) =
       Inr \<lparr>p_config = [], p_schema = trade_v1, p_handed = msgs\<rparr> \<and>
     length (silver_trades half_spark latest_rows (map landed (msgs @ msgs))) = 3"
proof -
  obtain s where s: "exec example_conn complete_run (new_runner 10 BLOCK) = Some s" "finished s" "q_items (r_queue s) = []"
    and produced: "r_produced s = [numbered 1, numbered 3, recovered 2]"
    using complete_exec by blast
  let ?w = "\<lambda>(sch :: schema) d. (Inr (avro_text d) :: string res)"
    and ?p = "\<lparr>p_config = [], p_schema = trade_v1, p_handed = []\<rparr>"
  have quiet: "CancelPump \<notin> set complete_run" "DrainFails \<notin> set complete_run" by (simp_all add: complete_run_def)
  from undisturbed_run_produces [OF s(1) quiet s(2,3)] have "set (r_taken s) = set (r_produced s)" by (metis set_mset_mset)
  then have taken: "set (r_taken s) = {numbered 1, numbered 3, recovered 2}" by (simp add: produced)
  have fits: "\<forall>t\<in>set (r_taken s). conforms (to_avro t) trade_v1" and clean: "\<forall>t\<in>set (r_taken s). trade_reason half_spark t = None"
    by (simp_all add: taken to_avro_conforms_iff numbered_def recovered_def example_trade_def int64_def half_spark_def example_spark_def
        trade_reason_def epoch_floor_us_def one_day_us_def positive_def)
  have r: "\<forall>d. conforms d trade_v1 \<longrightarrow> (\<exists>bs. ?w trade_v1 d = Inr bs \<and> s_from_avro half_spark bs = Some d)"
    by (simp add: half_spark_def inv_f_f [OF avro_text_inj])
  have c: "\<forall>str x. s_try_cast half_spark decimal_type str = Some x \<longrightarrow> s_cast half_spark decimal_type str = Some x"
    by (simp add: half_spark_def example_spark_def)
  have p: "p_schema ?p = trade_v1" by simp
  have q: "\<forall>h m. roomy_lib h m = None" by (simp add: roomy_lib_def)
  have "card (silver_key ` {t \<in> set (r_taken s). trade_reason half_spark t = None}) = 3"
  proof -
    have "{t \<in> set (r_taken s). trade_reason half_spark t = None} = {numbered 1, numbered 3, recovered 2}"
      using clean unfolding taken by auto
    moreover have "int_str i = int_str j \<longleftrightarrow> i = j" for i j using int_str_inj by blast
    ultimately show ?thesis by (simp add: silver_key_def numbered_def recovered_def)
  qed
  moreover have "k_value ` set (map landed (msgs @ msgs)) = m_value ` set msgs" for msgs
    by (simp add: image_image landed_def)
  ultimately show ?thesis
    using run_lands_in_silver [where write_avro = ?w and topic = "''md.trades.v1''", OF s(1) quiet s(2,3) fits p r c latest_rows_scd1 q] s(1)
    by (fastforce simp: Let_def)
qed

end
